(* ===== verification/Prelude.thy ===== *)
theory Prelude
  imports Complex_Main "HOL-Library.AList" "HOL-Library.Char_ord" "HOL-Library.List_Lexorder"
    "HOL-Library.Multiset" "HOL-Library.Sublist"
begin

text \<open>
  The vocabulary every component theory shares.

  \<^item> \<open>gerr\<close>: Go error values.  An \<open>fmt.Errorf\<close> without \<open>%w\<close> is \<open>Errorf\<close> of its format string and
    arguments, one with \<open>%w\<close> is \<open>Wrapf\<close>; errors that come from outside the program (system calls,
    the Docker daemon, the metadata service) are \<open>NotExist\<close>, \<open>NotFound\<close> and \<open>EnvErr\<close>.
  \<^item> \<open>gomap\<close>: a Go map.  It is the list of its entries in the order one \<open>range\<close> loop visits them;
    Go leaves that order open, so a property of a loop over a map holds for every such list, and a
    property that must not depend on the order is stated for two lists with the same entries.
  \<^item> \<open>proc\<close>: fallible, state-changing code, with sequencing that stops at the first error, and the
    Hoare triples used to reason about it.
  \<^item> \<open>sorted_iter\<close>: the interface of the "collect the keys, \<open>sort.Strings\<close>, emit one block per
    key" loops, which makes generated rule text independent of the map iteration order.
\<close>

named_theorems hoare_rules \<open>introduction rules for Hoare triples on procedures\<close>
named_theorems go_defs \<open>unfolding equations for small helpers modelled from the Go library\<close>

section \<open>Error values\<close>

datatype gerr =
    Errorf string "string list"
  | Wrapf string "string list" gerr
  | Joined "gerr list"
  | NotExist string
  | NotFound string
  | EnvErr string

text \<open>\<open>errors.Is(err, os.ErrNotExist)\<close> looks through \<open>%w\<close> wrappers, \<open>os.IsNotExist\<close> does not.\<close>

fun errors_is_not_exist :: "gerr \<Rightarrow> bool" where
  "errors_is_not_exist (NotExist _) = True"
| "errors_is_not_exist (Wrapf _ _ e) = errors_is_not_exist e"
| "errors_is_not_exist (Joined es) = (\<exists>e \<in> set es. errors_is_not_exist e)"
| "errors_is_not_exist _ = False"

fun os_is_not_exist :: "gerr \<Rightarrow> bool" where
  "os_is_not_exist (NotExist _) = True"
| "os_is_not_exist _ = False"

fun errdefs_is_not_found :: "gerr \<Rightarrow> bool" where
  "errdefs_is_not_found (NotFound _) = True"
| "errdefs_is_not_found (Wrapf _ _ e) = errdefs_is_not_found e"
| "errdefs_is_not_found (Joined es) = (\<exists>e \<in> set es. errdefs_is_not_found e)"
| "errdefs_is_not_found _ = False"

text \<open>\<open>errors.Join\<close> is nil when every argument is nil.\<close>

definition errors_join :: "gerr list \<Rightarrow> gerr option" where
  "errors_join es = (if es = [] then None else Some (Joined es))"

section \<open>Fallible values\<close>

type_synonym 'a result = "gerr + 'a"

definition bindR :: "'a result \<Rightarrow> ('a \<Rightarrow> 'b result) \<Rightarrow> 'b result" where
  "bindR r f = (case r of Inl e \<Rightarrow> Inl e | Inr x \<Rightarrow> f x)"

definition wrapR :: "(gerr \<Rightarrow> gerr) \<Rightarrow> 'a result \<Rightarrow> 'a result" where
  "wrapR g r = (case r of Inl e \<Rightarrow> Inl (g e) | Inr x \<Rightarrow> Inr x)"

lemma bindR_simps [simp]: "bindR (Inl e) f = Inl e" "bindR (Inr x) f = f x"
  by (simp_all add: bindR_def)

lemma wrapR_simps [simp]: "wrapR g (Inl e) = Inl (g e)" "wrapR g (Inr x) = Inr x"
  by (simp_all add: wrapR_def)

lemma bindR_eq_Inr [simp]: "bindR r f = Inr y \<longleftrightarrow> (\<exists>x. r = Inr x \<and> f x = Inr y)"
  by (cases r) auto

lemma wrapR_eq_Inr [simp]: "wrapR g r = Inr x \<longleftrightarrow> r = Inr x"
  by (cases r) auto

text \<open>A loop that stops at the first error.\<close>

fun foldR :: "('a \<Rightarrow> 'b \<Rightarrow> 'b result) \<Rightarrow> 'a list \<Rightarrow> 'b \<Rightarrow> 'b result" where
  "foldR f [] acc = Inr acc"
| "foldR f (x # xs) acc = bindR (f x acc) (foldR f xs)"

lemma foldR_invariant:
  assumes "foldR f xs acc = Inr r" and "I acc"
    and "\<And>x a b. x \<in> set xs \<Longrightarrow> I a \<Longrightarrow> f x a = Inr b \<Longrightarrow> I b"
  shows "I r"
  using assms
proof (induction xs arbitrary: acc)
  case (Cons x xs)
  from Cons.prems(1) obtain b where b: "f x acc = Inr b" "foldR f xs b = Inr r" by auto
  moreover have "I b" using Cons.prems(2,3) b(1) by (meson list.set_intros(1))
  ultimately show ?case using Cons.IH Cons.prems(3) by (meson list.set_intros(2))
qed simp

lemma foldR_error:
  assumes "x \<in> set xs" and "\<And>acc. \<exists>e. f x acc = Inl e"
  shows "\<exists>e. foldR f xs acc = Inl e"
  using assms(1)
proof (induction xs arbitrary: acc)
  case (Cons y ys)
  show ?case
  proof (cases "f y acc")
    case (Inr b)
    with Cons assms(2) [of acc] show ?thesis by auto
  qed simp
qed simp

text \<open>A check of every element: the first error, or success.\<close>

fun checkR :: "('a \<Rightarrow> unit result) \<Rightarrow> 'a list \<Rightarrow> unit result" where
  "checkR f [] = Inr ()"
| "checkR f (x # xs) = bindR (f x) (\<lambda>_. checkR f xs)"

lemma checkR_ok: "checkR f xs = Inr u \<longleftrightarrow> (\<forall>x \<in> set xs. f x = Inr ())"
  by (induction xs) auto

definition ensureR :: "bool \<Rightarrow> gerr \<Rightarrow> unit result" where
  "ensureR b e = (if b then Inr () else Inl e)"

lemma ensureR_ok [simp]: "ensureR b e = Inr u \<longleftrightarrow> b"
  by (auto simp: ensureR_def)

lemma find_SomeD: "find P xs = Some x \<Longrightarrow> P x \<and> x \<in> set xs"
  by (auto simp: find_Some_iff)

section \<open>Go maps\<close>

type_synonym 'v gomap = "(string \<times> 'v) list"

definition wf_map :: "('k \<times> 'v) list \<Rightarrow> bool" where
  "wf_map m \<longleftrightarrow> distinct (map fst m)"

text \<open>\<open>m[k]\<close> with the zero value \<open>d\<close> of the element type.\<close>

definition mget :: "'v \<Rightarrow> ('k \<times> 'v) list \<Rightarrow> 'k \<Rightarrow> 'v" where
  "mget d m k = (case map_of m k of None \<Rightarrow> d | Some v \<Rightarrow> v)"

definition mhas :: "('k \<times> 'v) list \<Rightarrow> 'k \<Rightarrow> bool" where
  "mhas m k \<longleftrightarrow> map_of m k \<noteq> None"

abbreviation mput :: "'k \<Rightarrow> 'v \<Rightarrow> ('k \<times> 'v) list \<Rightarrow> ('k \<times> 'v) list" where
  "mput \<equiv> AList.update"

abbreviation mdel :: "'k \<Rightarrow> ('k \<times> 'v) list \<Rightarrow> ('k \<times> 'v) list" where
  "mdel \<equiv> AList.delete"

text \<open>\<open>reflect.DeepEqual\<close> on two maps: the same keys with equal values, in any order.\<close>

definition meq :: "('k \<times> 'v) list \<Rightarrow> ('k \<times> 'v) list \<Rightarrow> bool" where
  "meq m m' \<longleftrightarrow> (\<forall>k \<in> set (map fst m) \<union> set (map fst m'). map_of m k = map_of m' k)"

text \<open>Maps and slices that may be nil: \<open>reflect.DeepEqual\<close> tells nil from empty.\<close>

fun opt_meq :: "('k \<times> 'v) list option \<Rightarrow> ('k \<times> 'v) list option \<Rightarrow> bool" where
  "opt_meq None None = True"
| "opt_meq (Some m) (Some m') = meq m m'"
| "opt_meq _ _ = False"

lemma mget_empty [simp]: "mget d [] k = d"
  by (simp add: mget_def)

lemma mget_update [simp]: "mget d (mput k v m) k' = (if k' = k then v else mget d m k')"
  by (simp add: mget_def update_conv)

lemma mhas_iff: "mhas m k \<longleftrightarrow> k \<in> set (map fst m)"
  by (simp add: mhas_def map_of_eq_None_iff)

lemma wf_map_Nil [simp]: "wf_map []"
  by (simp add: wf_map_def)

lemma wf_map_update [simp]: "wf_map m \<Longrightarrow> wf_map (mput k v m)"
  by (simp add: wf_map_def distinct_update)

lemma wf_map_delete [simp]: "wf_map m \<Longrightarrow> wf_map (mdel k m)"
  by (simp add: wf_map_def distinct_delete)

lemma meq_iff: "meq m m' \<longleftrightarrow> map_of m = map_of m'"
proof
  assume h: "meq m m'"
  show "map_of m = map_of m'"
  proof (rule ext)
    fix k
    show "map_of m k = map_of m' k"
    proof (cases "k \<in> set (map fst m) \<union> set (map fst m')")
      case True
      with h show ?thesis unfolding meq_def by blast
    next
      case False
      then have "map_of m k = None" "map_of m' k = None" by (auto simp: map_of_eq_None_iff)
      then show ?thesis by simp
    qed
  qed
qed (simp add: meq_def)

lemma meq_refl [simp]: "meq m m"
  by (simp add: meq_iff)

lemma opt_meq_refl [simp]: "opt_meq m m"
  by (cases m) auto

lemma map_of_perm: "wf_map m \<Longrightarrow> mset m = mset m' \<Longrightarrow> map_of m = map_of m'"
  unfolding wf_map_def
  by (metis map_of_inject_set mset_eq_setD mset_map distinct_map mset_eq_imp_distinct_iff)

lemma map_of_in_set: "wf_map m \<Longrightarrow> map_of m k = Some v \<longleftrightarrow> (k, v) \<in> set m"
  by (simp add: wf_map_def map_of_eq_Some_iff)

lemma mget_perm: "wf_map m \<Longrightarrow> mset m = mset m' \<Longrightarrow> mget d m k = mget d m' k"
  by (simp add: mget_def map_of_perm)

lemma mget_in: "k \<in> set (map fst m) \<Longrightarrow> (k, mget d m k) \<in> set m"
  by (auto simp: mget_def dest: map_of_SomeD split: option.splits simp: map_of_eq_None_iff)

lemma mget_SomeD: "map_of m k = Some v \<Longrightarrow> mget d m k = v"
  by (simp add: mget_def)

lemma mput_keys: "k' \<in> set (map fst (mput k v m)) \<longleftrightarrow> k' = k \<or> k' \<in> set (map fst m)"
  by (induction m) auto

section \<open>Procedures: fallible code over a state\<close>

type_synonym ('s, 'a) proc = "'s \<Rightarrow> 'a result \<times> 's"

definition retP :: "'a \<Rightarrow> ('s, 'a) proc" where
  "retP x = (\<lambda>s. (Inr x, s))"

definition raiseP :: "gerr \<Rightarrow> ('s, 'a) proc" where
  "raiseP e = (\<lambda>s. (Inl e, s))"

definition bindP :: "('s, 'a) proc \<Rightarrow> ('a \<Rightarrow> ('s, 'b) proc) \<Rightarrow> ('s, 'b) proc" where
  "bindP m f = (\<lambda>s. case m s of (Inl e, s') \<Rightarrow> (Inl e, s') | (Inr x, s') \<Rightarrow> f x s')"

text \<open>\<open>if err := m; err != nil { ... }\<close> where the error is handled instead of returned.\<close>

definition tryP :: "('s, 'a) proc \<Rightarrow> ('s, 'a result) proc" where
  "tryP m = (\<lambda>s. case m s of (r, s') \<Rightarrow> (Inr r, s'))"

text \<open>\<open>return fmt.Errorf("...: %w", err)\<close>.\<close>

definition wrapP :: "(gerr \<Rightarrow> gerr) \<Rightarrow> ('s, 'a) proc \<Rightarrow> ('s, 'a) proc" where
  "wrapP g m = (\<lambda>s. case m s of (r, s') \<Rightarrow> (wrapR g r, s'))"

definition liftP :: "'a result \<Rightarrow> ('s, 'a) proc" where
  "liftP r = (\<lambda>s. (r, s))"

definition getP :: "('s \<Rightarrow> 'a) \<Rightarrow> ('s, 'a) proc" where
  "getP f = (\<lambda>s. (Inr (f s), s))"

definition modifyP :: "('s \<Rightarrow> 's) \<Rightarrow> ('s, unit) proc" where
  "modifyP f = (\<lambda>s. (Inr (), f s))"

definition whenP :: "bool \<Rightarrow> ('s, unit) proc \<Rightarrow> ('s, unit) proc" where
  "whenP b m = (if b then m else retP ())"

fun foldP :: "('a \<Rightarrow> 'b \<Rightarrow> ('s, 'b) proc) \<Rightarrow> 'a list \<Rightarrow> 'b \<Rightarrow> ('s, 'b) proc" where
  "foldP f [] acc = retP acc"
| "foldP f (x # xs) acc = bindP (f x acc) (foldP f xs)"

fun forP :: "('a \<Rightarrow> ('s, unit) proc) \<Rightarrow> 'a list \<Rightarrow> ('s, unit) proc" where
  "forP f [] = retP ()"
| "forP f (x # xs) = bindP (f x) (\<lambda>_. forP f xs)"

lemmas proc_defs = retP_def raiseP_def bindP_def tryP_def wrapP_def liftP_def getP_def
  modifyP_def whenP_def

subsection \<open>Hoare triples\<close>

text \<open>\<open>hoare P m Q E\<close>: from a state satisfying \<open>P\<close>, a normal return satisfies \<open>Q\<close> and an error
  return satisfies \<open>E\<close>.  Procedures are total, so nothing is said "if it returns".\<close>

definition hoare ::
    "('s \<Rightarrow> bool) \<Rightarrow> ('s, 'a) proc \<Rightarrow> ('a \<Rightarrow> 's \<Rightarrow> bool) \<Rightarrow> (gerr \<Rightarrow> 's \<Rightarrow> bool) \<Rightarrow> bool" where
  "hoare P m Q E \<longleftrightarrow>
     (\<forall>s. P s \<longrightarrow> (case m s of (Inr x, s') \<Rightarrow> Q x s' | (Inl e, s') \<Rightarrow> E e s'))"

text \<open>An assertion kept by a procedure however it returns.\<close>

abbreviation keeps :: "('s \<Rightarrow> bool) \<Rightarrow> ('s, 'a) proc \<Rightarrow> bool" where
  "keeps I m \<equiv> hoare I m (\<lambda>_. I) (\<lambda>_. I)"

lemma hoare_okD: "hoare P m Q E \<Longrightarrow> P s \<Longrightarrow> m s = (Inr x, s') \<Longrightarrow> Q x s'"
  by (auto simp: hoare_def split: prod.splits sum.splits)

lemma hoare_errD: "hoare P m Q E \<Longrightarrow> P s \<Longrightarrow> m s = (Inl e, s') \<Longrightarrow> E e s'"
  by (auto simp: hoare_def split: prod.splits sum.splits)

lemma keepsD: "keeps I m \<Longrightarrow> I s \<Longrightarrow> m s = (r, s') \<Longrightarrow> I s'"
  by (cases r) (auto dest: hoare_okD hoare_errD)

lemma hoare_conseq:
  "hoare P' m Q' E' \<Longrightarrow> (\<And>s. P s \<Longrightarrow> P' s) \<Longrightarrow> (\<And>x s. Q' x s \<Longrightarrow> Q x s) \<Longrightarrow>
    (\<And>e s. E' e s \<Longrightarrow> E e s) \<Longrightarrow> hoare P m Q E"
  by (fastforce simp: hoare_def split: prod.splits sum.splits)

lemma hoareI:
  "(\<And>s x s'. P s \<Longrightarrow> m s = (Inr x, s') \<Longrightarrow> Q x s') \<Longrightarrow> (\<And>s er s'. P s \<Longrightarrow> m s = (Inl er, s') \<Longrightarrow> E er s') \<Longrightarrow>
    hoare P m Q E"
  unfolding hoare_def by (auto split: prod.splits sum.splits)

lemma hoare_ret [hoare_rules]: "(\<And>s. P s \<Longrightarrow> Q x s) \<Longrightarrow> hoare P (retP x) Q E"
  by (simp add: hoare_def retP_def)

lemma hoare_raise [hoare_rules]: "(\<And>s. P s \<Longrightarrow> E e s) \<Longrightarrow> hoare P (raiseP e) Q E"
  by (simp add: hoare_def raiseP_def)

lemma hoare_bind [hoare_rules]:
  "hoare P m R E \<Longrightarrow> (\<And>x. hoare (R x) (f x) Q E) \<Longrightarrow> hoare P (bindP m f) Q E"
  by (fastforce simp: hoare_def bindP_def split: prod.splits sum.splits)

lemma hoare_lift [hoare_rules]:
  "(\<And>s x. P s \<Longrightarrow> r = Inr x \<Longrightarrow> Q x s) \<Longrightarrow> (\<And>s e. P s \<Longrightarrow> r = Inl e \<Longrightarrow> E e s) \<Longrightarrow>
    hoare P (liftP r) Q E"
  by (auto simp: hoare_def liftP_def split: sum.splits)

lemma hoare_get [hoare_rules]: "(\<And>s. P s \<Longrightarrow> Q (f s) s) \<Longrightarrow> hoare P (getP f) Q E"
  by (simp add: hoare_def getP_def)

lemma hoare_modify [hoare_rules]: "(\<And>s. P s \<Longrightarrow> Q () (f s)) \<Longrightarrow> hoare P (modifyP f) Q E"
  by (simp add: hoare_def modifyP_def)

lemma hoare_wrap [hoare_rules]: "hoare P m Q (\<lambda>e. E (g e)) \<Longrightarrow> hoare P (wrapP g m) Q E"
  by (fastforce simp: hoare_def wrapP_def wrapR_def split: prod.splits sum.splits)

lemma hoare_try [hoare_rules]:
  "hoare P m (\<lambda>x. Q (Inr x)) (\<lambda>e. Q (Inl e)) \<Longrightarrow> hoare P (tryP m) Q E"
  unfolding hoare_def tryP_def by (metis (mono_tags, lifting) case_prod_conv old.sum.simps(5,6)
      obj_sumE prod.collapse)

lemma hoare_if [hoare_rules]:
  "(b \<Longrightarrow> hoare P m Q E) \<Longrightarrow> (\<not> b \<Longrightarrow> hoare P m' Q E) \<Longrightarrow> hoare P (if b then m else m') Q E"
  by simp

lemma hoare_when [hoare_rules]:
  "(b \<Longrightarrow> hoare P m Q E) \<Longrightarrow> (\<And>s. \<not> b \<Longrightarrow> P s \<Longrightarrow> Q () s) \<Longrightarrow> hoare P (whenP b m) Q E"
  by (auto simp: whenP_def intro: hoare_ret)

lemma hoare_let [hoare_rules]: "hoare P (f x) Q E \<Longrightarrow> hoare P (Let x f) Q E"
  by simp

lemma hoare_case_option [hoare_rules]:
  "(x = None \<Longrightarrow> hoare P m Q E) \<Longrightarrow> (\<And>y. x = Some y \<Longrightarrow> hoare P (f y) Q E) \<Longrightarrow>
    hoare P (case x of None \<Rightarrow> m | Some y \<Rightarrow> f y) Q E"
  by (cases x) auto

lemma hoare_case_sum [hoare_rules]:
  "(\<And>e. x = Inl e \<Longrightarrow> hoare P (g e) Q E) \<Longrightarrow> (\<And>y. x = Inr y \<Longrightarrow> hoare P (f y) Q E) \<Longrightarrow>
    hoare P (case x of Inl e \<Rightarrow> g e | Inr y \<Rightarrow> f y) Q E"
  by (cases x) auto

lemma hoare_case_prod [hoare_rules]:
  "(\<And>a b. x = (a, b) \<Longrightarrow> hoare P (f a b) Q E) \<Longrightarrow> hoare P (case x of (a, b) \<Rightarrow> f a b) Q E"
  by (cases x) auto

lemma hoare_fold:
  assumes "\<And>x acc. x \<in> set xs \<Longrightarrow> hoare (I acc) (f x acc) I E"
  shows "hoare (I acc) (foldP f xs acc) I E"
  using assms
proof (induction xs arbitrary: acc)
  case Nil
  then show ?case by (simp add: hoare_ret)
next
  case (Cons x xs)
  then show ?case by (auto intro!: hoare_bind)
qed

lemma keeps_fold [hoare_rules]:
  "(\<And>x acc. x \<in> set xs \<Longrightarrow> keeps I (f x acc)) \<Longrightarrow> keeps I (foldP f xs acc)"
  by (rule hoare_fold [where I = "\<lambda>_. I"])

lemma keeps_for [hoare_rules]:
  assumes "\<And>x. x \<in> set xs \<Longrightarrow> hoare I (f x) (\<lambda>_. I) E"
  shows "hoare I (forP f xs) (\<lambda>_. I) E"
  using assms
proof (induction xs)
  case Nil
  then show ?case by (simp add: hoare_ret)
next
  case (Cons x xs)
  then show ?case by (auto intro!: hoare_bind [where R = "\<lambda>_. I"])
qed

section \<open>Sorted iteration over a map\<close>

definition sorted_keys :: "'v gomap \<Rightarrow> string list" where
  "sorted_keys m = sort (map fst m)"

text \<open>\<open>for _, key := range sortedKeys { emit(m[key]) }\<close>\<close>

definition emit_sorted :: "'v \<Rightarrow> ('v \<Rightarrow> 'b list) \<Rightarrow> 'v gomap \<Rightarrow> 'b list" where
  "emit_sorted d emit m = concat (map (\<lambda>k. emit (mget d m k)) (sorted_keys m))"

lemma sorted_keys_set [simp]: "set (sorted_keys m) = fst ` set m"
  by (simp add: sorted_keys_def)

lemma sorted_keys_sorted: "sorted (sorted_keys m)"
  by (simp add: sorted_keys_def)

lemma sorted_keys_perm: "mset m = mset m' \<Longrightarrow> sorted_keys m = sorted_keys m'"
  unfolding sorted_keys_def by (metis mset_map properties_for_sort sorted_sort mset_sort)

lemma emit_sorted_perm:
  assumes "wf_map m" and "mset m = mset m'"
  shows "emit_sorted d emit m = emit_sorted d emit m'"
proof -
  have "mget d m k = mget d m' k" for k using assms by (rule mget_perm)
  then show ?thesis by (simp add: emit_sorted_def sorted_keys_perm [OF assms(2)])
qed

text \<open>Counting what such a loop emits: one summand per entry, whatever the order.\<close>

lemma sum_list_mget:
  assumes "wf_map m"
  shows "sum_list (map (\<lambda>k. (f (mget d m k) :: nat)) (map fst m)) = sum_list (map (f \<circ> snd) m)"
proof -
  have "mget d m (fst e) = snd e" if "e \<in> set m" for e
    using map_of_in_set [OF assms, of "fst e" "snd e"] that
    by (metis mget_SomeD prod.collapse)
  then have "map (\<lambda>k. f (mget d m k)) (map fst m) = map (f \<circ> snd) m" by simp
  then show ?thesis by (simp only:)
qed

lemma length_emit_sorted:
  assumes "wf_map m"
  shows "length (emit_sorted d emit m) = sum_list (map (length \<circ> emit \<circ> snd) m)"
proof -
  have "length (emit_sorted d emit m)
      = sum_list (map (\<lambda>k. length (emit (mget d m k))) (sorted_keys m))"
    by (simp add: emit_sorted_def length_concat comp_def)
  also have "\<dots> = sum_mset (image_mset (\<lambda>k. length (emit (mget d m k))) (mset (sorted_keys m)))"
    by (simp add: sum_mset_sum_list [symmetric])
  also have "\<dots> = sum_list (map (\<lambda>k. length (emit (mget d m k))) (map fst m))"
    by (simp only: sorted_keys_def mset_sort mset_map [symmetric] sum_mset_sum_list)
  also have "\<dots> = sum_list (map (length \<circ> emit \<circ> snd) m)"
    using sum_list_mget [OF assms, of "\<lambda>v. length (emit v)" d] by (simp add: comp_def)
  finally show ?thesis .
qed

end
