(* ===== verification/GoStrings.thy ===== *)
theory GoStrings
  imports Prelude
begin

text \<open>
  The parts of Go's \<open>strings\<close>, \<open>strconv\<close> and \<open>fmt\<close> packages the program uses.  A Go string is a
  sequence of bytes, modelled as \<open>string\<close> (a list of 8-bit characters).  Ordering is bytewise, as
  in Go.  White space is that of \<open>unicode.IsSpace\<close>: the six ASCII characters and the UTF-8
  encodings of the other white-space code points.
\<close>

abbreviation nl :: string where "nl \<equiv> [CHR 0x0A]"
abbreviation dquote :: string where "dquote \<equiv> [CHR 0x22]"

section \<open>Prefixes, substrings, splitting\<close>

definition has_prefix :: "string \<Rightarrow> string \<Rightarrow> bool" where
  "has_prefix s p \<longleftrightarrow> prefix p s"

definition trim_prefix :: "string \<Rightarrow> string \<Rightarrow> string" where
  "trim_prefix s p = (if has_prefix s p then drop (length p) s else s)"

fun str_contains :: "string \<Rightarrow> string \<Rightarrow> bool" where
  "str_contains [] sub = (sub = [])"
| "str_contains (c # s) sub = (has_prefix (c # s) sub \<or> str_contains s sub)"

text \<open>\<open>strings.Index\<close>: the first position, if any.\<close>

fun str_index :: "string \<Rightarrow> string \<Rightarrow> nat option" where
  "str_index [] sub = (if sub = [] then Some 0 else None)"
| "str_index (c # s) sub =
     (if has_prefix (c # s) sub then Some 0 else map_option Suc (str_index s sub))"

text \<open>\<open>strings.Split\<close> with a one-byte separator; splitting the empty string gives one empty part.\<close>

fun str_split :: "char \<Rightarrow> string \<Rightarrow> string list" where
  "str_split sep [] = [[]]"
| "str_split sep (c # s) =
     (if c = sep then [] # str_split sep s
      else (case str_split sep s of [] \<Rightarrow> [[c]] | p # ps \<Rightarrow> (c # p) # ps))"

text \<open>\<open>strings.Cut\<close> with a one-byte separator.\<close>

definition str_cut :: "char \<Rightarrow> string \<Rightarrow> string \<times> string \<times> bool" where
  "str_cut sep s = (if sep \<in> set s
     then (takeWhile (\<lambda>c. c \<noteq> sep) s, tl (dropWhile (\<lambda>c. c \<noteq> sep) s), True) else (s, [], False))"

fun str_join :: "string \<Rightarrow> string list \<Rightarrow> string" where
  "str_join sep [] = []"
| "str_join sep [p] = p"
| "str_join sep (p # q # ps) = p @ sep @ str_join sep (q # ps)"

lemma str_split_nonempty [simp]: "str_split sep s \<noteq> []"
  by (induction s) (auto split: list.splits)

lemma str_join_Cons: "ps \<noteq> [] \<Longrightarrow> str_join sep (p # ps) = p @ sep @ str_join sep ps"
  by (cases ps) auto

lemma str_split_join: "str_join [sep] (str_split sep s) = s"
proof (induction s)
  case (Cons c s)
  obtain p ps where ps: "str_split sep s = p # ps" by (cases "str_split sep s") auto
  with Cons show ?case by (cases ps) auto
qed simp

lemma str_split_no_sep: "sep \<notin> set s \<Longrightarrow> str_split sep s = [s]"
  by (induction s) auto

lemma str_split_append:
  "sep \<notin> set p \<Longrightarrow> str_split sep (p @ sep # s) = p # str_split sep s"
  by (induction p) auto

lemma str_split_parts: "p \<in> set (str_split sep s) \<Longrightarrow> sep \<notin> set p"
proof (induction s arbitrary: p)
  case (Cons c s)
  then show ?case by (cases "str_split sep s") (auto split: if_splits)
qed simp

lemma set_str_split: "p \<in> set (str_split sep s) \<Longrightarrow> set p \<subseteq> set s"
proof (induction s arbitrary: p)
  case (Cons c s)
  then show ?case by (cases "str_split sep s") (fastforce split: if_splits)+
qed simp

lemma set_join_subset: "set (str_join sep ps) \<subseteq> set sep \<union> (\<Union>p \<in> set ps. set p)"
  by (induction sep ps rule: str_join.induct) auto

lemma str_contains_iff: "str_contains s sub \<longleftrightarrow> (\<exists>a b. s = a @ sub @ b)"
proof (induction s)
  case (Cons c s)
  have "(\<exists>a b. c # s = a @ sub @ b) \<longleftrightarrow> prefix sub (c # s) \<or> (\<exists>a b. s = a @ sub @ b)"
    by (auto simp: prefix_def Cons_eq_append_conv)
  with Cons show ?case by (simp add: has_prefix_def)
qed auto

lemma str_index_Some:
  "str_index s sub = Some n \<Longrightarrow> s = take n s @ sub @ drop (n + length sub) s"
proof (induction s arbitrary: n)
  case (Cons c s)
  show ?case
  proof (cases "has_prefix (c # s) sub")
    case True
    with Cons.prems have "n = 0" by simp
    with True show ?thesis by (auto simp: has_prefix_def prefix_def)
  next
    case False
    with Cons.prems obtain m where "str_index s sub = Some m" "n = Suc m" by auto
    with Cons.IH show ?thesis by (metis append_Cons add_Suc drop_Suc_Cons take_Suc_Cons)
  qed
qed (auto split: if_splits)

lemma str_index_char: "str_index s [c] = Some n \<Longrightarrow> c \<notin> set (take n s)"
  by (induction s arbitrary: n) (auto simp: has_prefix_def split: if_splits)

section \<open>White space\<close>

text \<open>The length of the UTF-8 encoded \<open>unicode.IsSpace\<close> code point a string starts with, 0 if it
  starts with none.\<close>

definition ascii_space :: "char \<Rightarrow> bool" where
  "ascii_space c \<longleftrightarrow> c = CHR 0x20 \<or> c = CHR 0x0A \<or> c = CHR 0x09 \<or> c = CHR 0x0D \<or> c = CHR 0x0B \<or> c = CHR 0x0C"

definition wide_space :: "char \<Rightarrow> char \<Rightarrow> char \<Rightarrow> bool" where
  "wide_space a b c \<longleftrightarrow>
     a = CHR 0xE1 \<and> b = CHR 0x9A \<and> c = CHR 0x80
     \<or> a = CHR 0xE2 \<and> b = CHR 0x80 \<and>
         (CHR 0x80 \<le> c \<and> c \<le> CHR 0x8A \<or> c = CHR 0xA8 \<or> c = CHR 0xA9 \<or> c = CHR 0xAF)
     \<or> a = CHR 0xE2 \<and> b = CHR 0x81 \<and> c = CHR 0x9F
     \<or> a = CHR 0xE3 \<and> b = CHR 0x80 \<and> c = CHR 0x80"

fun space_len :: "string \<Rightarrow> nat" where
  "space_len [] = 0"
| "space_len (a # s) =
     (if ascii_space a then 1
      else (case s of [] \<Rightarrow> 0
        | b # s' \<Rightarrow> if a = CHR 0xC2 \<and> (b = CHR 0x85 \<or> b = CHR 0xA0) then 2
            else (case s' of [] \<Rightarrow> 0 | c # _ \<Rightarrow> if wide_space a b c then 3 else 0)))"

text \<open>The same at the end of a string, given reversed.\<close>

fun space_len_rev :: "string \<Rightarrow> nat" where
  "space_len_rev [] = 0"
| "space_len_rev (c # s) =
     (if ascii_space c then 1
      else (case s of [] \<Rightarrow> 0
        | b # s' \<Rightarrow> if b = CHR 0xC2 \<and> (c = CHR 0x85 \<or> c = CHR 0xA0) then 2
            else (case s' of [] \<Rightarrow> 0 | a # _ \<Rightarrow> if wide_space a b c then 3 else 0)))"

lemma space_len_pos: "0 < space_len s \<Longrightarrow> s \<noteq> []"
  by auto

lemma space_len_rev_pos: "0 < space_len_rev s \<Longrightarrow> s \<noteq> []"
  by auto

function trim_left :: "string \<Rightarrow> string" where
  "trim_left s = (case space_len s of 0 \<Rightarrow> s | Suc n \<Rightarrow> trim_left (drop (Suc n) s))"
  by pat_completeness auto
termination
  by (relation "measure length") (use space_len_pos in \<open>auto intro!: diff_less\<close>)

function trim_rev :: "string \<Rightarrow> string" where
  "trim_rev s = (case space_len_rev s of 0 \<Rightarrow> s | Suc n \<Rightarrow> trim_rev (drop (Suc n) s))"
  by pat_completeness auto
termination
  by (relation "measure length") (use space_len_rev_pos in \<open>auto intro!: diff_less\<close>)

declare trim_left.simps [simp del] trim_rev.simps [simp del]

definition trim_space :: "string \<Rightarrow> string" where
  "trim_space s = rev (trim_rev (rev (trim_left s)))"

text \<open>\<open>strings.Fields\<close>: the maximal runs without white space; \<open>cur\<close> is the current run.\<close>

function fields_from :: "string \<Rightarrow> string \<Rightarrow> string list" where
  "fields_from cur [] = (if cur = [] then [] else [cur])"
| "fields_from cur (c # s) =
     (case space_len (c # s) of
        0 \<Rightarrow> fields_from (cur @ [c]) s
      | Suc n \<Rightarrow> (if cur = [] then [] else [cur]) @ fields_from [] (drop n s))"
  by pat_completeness auto
termination
  by (relation "measure (\<lambda>(_, s). length s)") auto

definition str_fields :: "string \<Rightarrow> string list" where
  "str_fields s = fields_from [] s"

subsection \<open>A text with a field is not blank\<close>

lemma space_len_append: "0 < space_len s \<Longrightarrow> space_len (s @ t) = space_len s"
  by (cases s rule: space_len.cases) (auto split: list.splits if_splits)

lemma space_len_pos_intros:
  "ascii_space c \<Longrightarrow> 0 < space_len [c]"
  "b = CHR 0xC2 \<and> (c = CHR 0x85 \<or> c = CHR 0xA0) \<Longrightarrow> 0 < space_len [b, c]"
  "wide_space a b c \<Longrightarrow> 0 < space_len [a, b, c]"
  by simp_all

lemma space_len_rev_starts:
  assumes pos: "0 < space_len_rev s"
  shows "0 < space_len (rev (take (space_len_rev s) s))"
proof (cases s)
  case (Cons c s1)
  show ?thesis
  proof (cases "ascii_space c")
    case True
    then show ?thesis using space_len_pos_intros(1) Cons by simp
  next
    case nc: False
    with pos Cons obtain b s2 where s1: "s1 = b # s2" by (cases s1) auto
    show ?thesis
    proof (cases "b = CHR 0xC2 \<and> (c = CHR 0x85 \<or> c = CHR 0xA0)")
      case True
      then have "rev (take (space_len_rev s) s) = [b, c]" using nc by (simp add: Cons s1 numeral_2_eq_2)
      then show ?thesis using space_len_pos_intros(2) [OF True] by simp
    next
      case False
      with pos nc Cons s1 obtain a s3 where s2: "s2 = a # s3" by (cases s2) (auto split: if_splits)
      have w: "wide_space a b c" using pos nc False by (simp add: Cons s1 s2 split: if_splits)
      then have "rev (take (space_len_rev s) s) = [a, b, c]" using nc False by (simp add: Cons s1 s2 numeral_3_eq_3)
      then show ?thesis using space_len_pos_intros(3) [OF w] by simp
    qed
  qed
qed (use pos in simp)

lemma trim_rev_empty: "trim_rev s = [] \<Longrightarrow> s \<noteq> [] \<Longrightarrow> 0 < space_len (rev s)"
proof (induction s rule: trim_rev.induct)
  case (1 s)
  obtain n where n: "space_len_rev s = Suc n"
    using "1.prems" by (cases "space_len_rev s") (auto simp: trim_rev.simps [of s])
  let ?u = "drop (Suc n) s"
  have split: "rev s = rev ?u @ rev (take (Suc n) s)" by (metis append_take_drop_id rev_append)
  show ?case
  proof (cases "?u = []")
    case True
    then have "take (Suc n) s = s" by simp
    then show ?thesis using space_len_rev_starts [of s] n by simp
  next
    case False
    have "trim_rev ?u = []" using "1.prems"(1) n by (simp add: trim_rev.simps [of s])
    with "1.IH" [OF n] False have "0 < space_len (rev ?u)" by simp
    then show ?thesis by (subst split, subst space_len_append)
  qed
qed

lemma trim_left_no_space: "space_len (trim_left s) = 0"
proof (induction s rule: trim_left.induct)
  case (1 s)
  then show ?case by (cases "space_len s") (auto simp: trim_left.simps [of s])
qed

lemma fields_trim_left: "fields_from [] (trim_left s) = fields_from [] s"
proof (induction s rule: trim_left.induct)
  case (1 s)
  show ?case
  proof (cases "space_len s")
    case 0
    then show ?thesis by (simp add: trim_left.simps [of s])
  next
    case (Suc n)
    then obtain c r where s: "s = c # r" by (cases s) auto
    have "fields_from [] s = fields_from [] (drop n r)"
      using Suc by (simp add: s del: space_len.simps)
    moreover have "trim_left s = trim_left (drop (Suc n) s)" using Suc by (simp add: trim_left.simps [of s])
    ultimately show ?thesis using 1 [OF Suc] s by simp
  qed
qed

lemma trim_space_nonempty: "str_fields s \<noteq> [] \<Longrightarrow> trim_space s \<noteq> []"
proof
  assume f: "str_fields s \<noteq> []" and e: "trim_space s = []"
  let ?t = "trim_left s"
  have "?t \<noteq> []" using f fields_trim_left [of s] by (auto simp: str_fields_def)
  moreover have "trim_rev (rev ?t) = []" using e by (simp add: trim_space_def)
  ultimately have "0 < space_len (rev (rev ?t))" by (intro trim_rev_empty) auto
  then show False using trim_left_no_space [of s] by simp
qed

definition str_lines :: "string \<Rightarrow> string list" where
  "str_lines s = str_split (CHR 0x0A) s"

section \<open>Character classes and case\<close>

definition is_digit :: "char \<Rightarrow> bool" where
  "is_digit c \<longleftrightarrow> CHR ''0'' \<le> c \<and> c \<le> CHR ''9''"

definition is_upper :: "char \<Rightarrow> bool" where
  "is_upper c \<longleftrightarrow> c \<le> CHR ''Z'' \<and> CHR ''A'' \<le> c"

definition is_lower :: "char \<Rightarrow> bool" where
  "is_lower c \<longleftrightarrow> c \<le> CHR ''z'' \<and> CHR ''a'' \<le> c"

definition is_alnum :: "char \<Rightarrow> bool" where
  "is_alnum c \<longleftrightarrow> is_lower c \<or> is_upper c \<or> is_digit c"

definition digit_val :: "char \<Rightarrow> int" where
  "digit_val c = of_char c - 48"

text \<open>
  \<open>strings.ToLower\<close>, on the code points whose lower-case form is ASCII (the ASCII capitals, the
  Kelvin sign and the dotted capital I).  Other code points map to non-ASCII ones; they are left
  alone here, which no comparison with an ASCII string can observe.
\<close>

fun to_lower :: "string \<Rightarrow> string" where
  "to_lower [] = []"
| "to_lower (c # s) =
     (if is_upper c then char_of ((of_char c :: int) + 32) # to_lower s
      else if c = CHR 0xC4 \<and> s \<noteq> [] \<and> hd s = CHR 0xB0 then CHR ''i'' # to_lower (tl s)
      else if c = CHR 0xE2 \<and> prefix [CHR 0x84, CHR 0xAA] s then CHR ''k'' # to_lower (drop 2 s)
      else c # to_lower s)"

section \<open>Numbers\<close>

definition digits_val :: "string \<Rightarrow> int" where
  "digits_val s = foldl (\<lambda>n c. n * 10 + digit_val c) 0 s"

text \<open>\<open>strconv.Atoi\<close>: an optional sign, at least one digit, and a 64-bit range check.\<close>

definition atoi :: "string \<Rightarrow> int option" where
  "atoi s =
     (let neg = (s \<noteq> [] \<and> hd s = CHR ''-'');
          ds = (if s \<noteq> [] \<and> (hd s = CHR ''-'' \<or> hd s = CHR ''+'') then tl s else s)
      in if ds = [] \<or> \<not> list_all is_digit ds then None
         else let v = (if neg then - digits_val ds else digits_val ds)
              in if - (2 ^ 63) \<le> v \<and> v < 2 ^ 63 then Some v else None)"

text \<open>Decimal output of a non-negative number.\<close>

function pos_str :: "int \<Rightarrow> string" where
  "pos_str n =
     (if n < 10 then [char_of (n + 48)] else pos_str (n div 10) @ [char_of (n mod 10 + 48)])"
  by pat_completeness auto
termination
  by (relation "measure nat") auto

declare pos_str.simps [simp del]

definition int_str :: "int \<Rightarrow> string" where
  "int_str i = (if i < 0 then ''-'' @ pos_str (- i) else pos_str i)"

lemma atoi_chars: "atoi s = Some v \<Longrightarrow> set s \<subseteq> {c. is_digit c} \<union> {CHR ''-'', CHR ''+''}"
  by (cases s) (auto simp: atoi_def Let_def list_all_iff split: if_splits)

lemma digit_not_sep: "is_digit c \<Longrightarrow> c \<noteq> CHR ''/'' \<and> c \<noteq> CHR '':'' \<and> c \<noteq> CHR 0x0A \<and> c \<noteq> CHR ''.''"
  by (auto simp: is_digit_def less_eq_char_def)

section \<open>Quoting\<close>

text \<open>
  \<open>fmt\<close>'s \<open>%q\<close> on a string without characters that need escaping, which is what the validated
  interface names handed to it are.
\<close>

definition quote_plain :: "string \<Rightarrow> string" where
  "quote_plain s = dquote @ s @ dquote"

end
