(* ===== verification/NetIP.thy ===== *)
theory NetIP
  imports GoStrings "HOL-Library.Word"
begin

text \<open>
  The parts of Go's \<open>net/netip\<close> and \<open>net\<close> packages the program relies on: parsing of addresses,
  prefixes and CIDR notation, and prefix containment.  An IPv4 address is a 32-bit word, an IPv6
  address a 128-bit word with its zone.

  The locale \<open>address_blocks\<close> is the interface the peer-subnet computation uses: nested-or-disjoint
  blocks with a base address.  IPv4 prefixes implement it.
\<close>

section \<open>Addresses\<close>

type_synonym ip4 = "32 word"
type_synonym ip6 = "128 word"

datatype addr = V4 ip4 | V6 ip6 string

fun is4 :: "addr \<Rightarrow> bool" where
  "is4 (V4 _) = True"
| "is4 (V6 _ _) = False"

fun bit_len :: "addr \<Rightarrow> nat" where
  "bit_len (V4 _) = 32"
| "bit_len (V6 _ _) = 128"

text \<open>One decimal octet: digits only, no leading zero, at most 255.\<close>

definition parse_octet :: "string \<Rightarrow> int option" where
  "parse_octet s =
     (if s = [] \<or> \<not> list_all is_digit s \<or> (length s > 1 \<and> hd s = CHR ''0'') \<or> 255 < digits_val s
      then None else Some (digits_val s))"

text \<open>\<open>parseIPv4Fields\<close>: exactly four octets between dots.\<close>

definition parse_ipv4 :: "string \<Rightarrow> ip4 option" where
  "parse_ipv4 s =
     (case map parse_octet (str_split CHR ''.'' s) of
        [Some a, Some b, Some c, Some d] \<Rightarrow> Some (word_of_int (((a * 256 + b) * 256 + c) * 256 + d))
      | _ \<Rightarrow> None)"

definition hex_val :: "char \<Rightarrow> int option" where
  "hex_val c =
     (if is_digit c then Some (digit_val c)
      else if CHR ''a'' \<le> c \<and> c \<le> CHR ''f'' then Some (of_char c - 87)
      else if CHR ''A'' \<le> c \<and> c \<le> CHR ''F'' then Some (of_char c - 55)
      else None)"

text \<open>The hexadecimal digits a string starts with, and what follows them.\<close>

definition hex_run :: "string \<Rightarrow> string \<times> string" where
  "hex_run s = (takeWhile (\<lambda>c. hex_val c \<noteq> None) s, dropWhile (\<lambda>c. hex_val c \<noteq> None) s)"

definition hex_num :: "string \<Rightarrow> int" where
  "hex_num ds = foldl (\<lambda>n c. n * 16 + (case hex_val c of None \<Rightarrow> 0 | Some v \<Rightarrow> v)) 0 ds"

text \<open>
  The loop of \<open>parseIPv6\<close>: \<open>gs\<close> are the 16-bit groups read so far, \<open>el\<close> the position of the
  ellipsis.  The result is the groups and the ellipsis position when the whole text was used.
\<close>

function ipv6_groups :: "string \<Rightarrow> int list \<Rightarrow> nat option \<Rightarrow> (int list \<times> nat option) option" where
  "ipv6_groups s gs el =
     (if length gs \<ge> 8 then (if s = [] then Some (gs, el) else None)
      else let (ds, rest) = hex_run s in
        if ds = [] \<or> length ds > 4 then None
        else if rest \<noteq> [] \<and> hd rest = CHR ''.'' then
          (if (el = None \<and> length gs \<noteq> 6) \<or> length gs > 6 then None
           else (case parse_ipv4 s of
               None \<Rightarrow> None
             | Some a \<Rightarrow> Some (gs @ [uint a div 65536, uint a mod 65536], el)))
        else if rest = [] then Some (gs @ [hex_num ds], el)
        else if hd rest \<noteq> CHR '':'' \<or> length rest = 1 then None
        else if rest ! 1 = CHR '':'' then
          (if el \<noteq> None then None
           else if length rest = 2 then Some (gs @ [hex_num ds], Some (length gs + 1))
           else ipv6_groups (drop 2 rest) (gs @ [hex_num ds]) (Some (length gs + 1)))
        else ipv6_groups (drop 1 rest) (gs @ [hex_num ds]) el)"
  by pat_completeness auto
termination
  by (relation "measure (\<lambda>(s, gs, el). 8 - length gs)") auto

declare ipv6_groups.simps [simp del]

definition groups_word :: "int list \<Rightarrow> ip6" where
  "groups_word gs = word_of_int (foldl (\<lambda>n g. n * 65536 + g) 0 gs)"

definition parse_ipv6 :: "string \<Rightarrow> addr option" where
  "parse_ipv6 inp =
     (let (s, zone, has_zone) = str_cut CHR ''%'' inp in
      if has_zone \<and> zone = [] then None
      else
        let el0 = (if prefix ''::'' s then Some 0 else None);
            s0 = (if prefix ''::'' s then drop 2 s else s)
        in if el0 \<noteq> None \<and> s0 = [] then Some (V6 0 zone)
           else (case ipv6_groups s0 [] el0 of
               None \<Rightarrow> None
             | Some (gs, None) \<Rightarrow> if length gs = 8 then Some (V6 (groups_word gs) zone) else None
             | Some (gs, Some k) \<Rightarrow>
                 if length gs < 8
                 then Some (V6 (groups_word (take k gs @ replicate (8 - length gs) 0 @ drop k gs)) zone)
                 else None))"

text \<open>\<open>netip.ParseAddr\<close>: the first of \<open>.\<close>, \<open>:\<close>, \<open>%\<close> decides the family.\<close>

definition parse_addr :: "string \<Rightarrow> addr option" where
  "parse_addr s =
     (case find (\<lambda>c. c = CHR ''.'' \<or> c = CHR '':'' \<or> c = CHR ''%'') s of
        None \<Rightarrow> None
      | Some c \<Rightarrow> if c = CHR ''.'' then map_option V4 (parse_ipv4 s)
                  else if c = CHR '':'' then parse_ipv6 s else None)"

text \<open>\<open>Addr.IsLoopback\<close> and \<open>Addr.Is4In6\<close>.\<close>

fun is_loopback :: "addr \<Rightarrow> bool" where
  "is_loopback (V4 a) = (drop_bit 24 a = 127)"
| "is_loopback (V6 a _) = (if drop_bit 32 a = 0xFFFF then drop_bit 24 (take_bit 32 a) = 127 else a = 1)"

fun unmap :: "addr \<Rightarrow> addr" where
  "unmap (V4 a) = V4 a"
| "unmap (V6 a z) = (if drop_bit 32 a = 0xFFFF then V4 (ucast a) else V6 a z)"

text \<open>\<open>Addr.String\<close> on an IPv4 address.\<close>

definition ip4_str :: "ip4 \<Rightarrow> string" where
  "ip4_str a = str_join ''.'' (map pos_str
     [uint a div 16777216, uint a div 65536 mod 256, uint a div 256 mod 256, uint a mod 256])"

section \<open>Prefixes\<close>

text \<open>An IPv4 prefix: address and length.  Only IPv4 prefixes pass the program's checks.\<close>

datatype prefix4 = Prefix4 (pfx_addr: ip4) (pfx_bits: nat)

text \<open>The bits after the slash of \<open>netip.ParsePrefix\<close>: no sign, no leading zero.\<close>

definition parse_bits :: "string \<Rightarrow> int option" where
  "parse_bits s =
     (if length s > 1 \<and> \<not> (CHR ''1'' \<le> hd s \<and> hd s \<le> CHR ''9'') then None
      else (case atoi s of None \<Rightarrow> None | Some v \<Rightarrow> if v < 0 then None else Some v))"

text \<open>The last slash separates address and length.\<close>

fun cut_last_slash :: "string \<Rightarrow> (string \<times> string) option" where
  "cut_last_slash [] = None"
| "cut_last_slash (c # s) =
     (case cut_last_slash s of
        Some (a, b) \<Rightarrow> Some (c # a, b)
      | None \<Rightarrow> if c = CHR ''/'' then Some ([], s) else None)"

lemma cut_last_slash_eq: "cut_last_slash s = Some (a, b) \<Longrightarrow> s = a @ CHR ''/'' # b"
  by (induction s arbitrary: a) (auto split: option.splits if_splits)

text \<open>
  \<open>netip.ParsePrefix\<close> followed by the \<open>Addr().Is4()\<close> test every caller makes: \<open>Some\<close> exactly
  when the text is a valid prefix whose address is IPv4.
\<close>

definition parse_prefix4 :: "string \<Rightarrow> prefix4 option" where
  "parse_prefix4 s =
     (case cut_last_slash s of
        None \<Rightarrow> None
      | Some (a, b) \<Rightarrow>
          (case (parse_addr a, parse_bits b) of
             (Some (V4 ip), Some n) \<Rightarrow> if n \<le> 32 then Some (Prefix4 ip (nat n)) else None
           | _ \<Rightarrow> None))"

text \<open>\<open>Prefix.Contains\<close> for IPv4: the leading \<open>bits\<close> bits agree.\<close>

definition contains4 :: "prefix4 \<Rightarrow> ip4 \<Rightarrow> bool" where
  "contains4 p a \<longleftrightarrow> drop_bit (32 - pfx_bits p) a = drop_bit (32 - pfx_bits p) (pfx_addr p)"

definition block4 :: "prefix4 \<Rightarrow> ip4 set" where
  "block4 p = {a. contains4 p a}"

definition prefix4_str :: "prefix4 \<Rightarrow> string" where
  "prefix4_str p = ip4_str (pfx_addr p) @ ''/'' @ pos_str (int (pfx_bits p))"

text \<open>\<open>Prefix.Masked\<close>.\<close>

definition masked4 :: "prefix4 \<Rightarrow> prefix4" where
  "masked4 p = Prefix4 (push_bit (32 - pfx_bits p) (drop_bit (32 - pfx_bits p) (pfx_addr p))) (pfx_bits p)"

section \<open>CIDR notation of package net\<close>

text \<open>\<open>net.ParseCIDR\<close>: the first slash separates, zones are refused, the mask may have leading zeros.\<close>

definition parse_cidr :: "string \<Rightarrow> (addr \<times> nat) option" where
  "parse_cidr s =
     (let (a, m, found) = str_cut CHR ''/'' s in
      if \<not> found then None
      else (case parse_addr a of
          None \<Rightarrow> None
        | Some ip \<Rightarrow>
            if (case ip of V4 _ \<Rightarrow> False | V6 _ z \<Rightarrow> z \<noteq> []) then None
            else if m = [] \<or> \<not> list_all is_digit m \<or> int (bit_len ip) < digits_val m then None
            else Some (ip, nat (digits_val m))))"

text \<open>\<open>ip.To4() != nil\<close>: IPv4, or IPv6 with an IPv4-mapped address.\<close>

fun to4_ok :: "addr \<Rightarrow> bool" where
  "to4_ok (V4 _) = True"
| "to4_ok (V6 a _) = (drop_bit 32 a = 0xFFFF)"

text \<open>\<open>ip.Equal(subnet.IP)\<close>: the host bits under the mask are zero.\<close>

fun host_bits_zero :: "addr \<Rightarrow> nat \<Rightarrow> bool" where
  "host_bits_zero (V4 a) n = (take_bit (32 - n) a = 0)"
| "host_bits_zero (V6 a _) n = (take_bit (128 - n) a = 0)"

section \<open>Character sets of accepted texts\<close>

text \<open>What is spliced into firewall rules is parsed first; these lemmas bound what it can contain.\<close>

definition addr_char :: "char \<Rightarrow> bool" where
  "addr_char c \<longleftrightarrow> is_digit c \<or> c = CHR ''.''"

definition cidr_char :: "char \<Rightarrow> bool" where
  "cidr_char c \<longleftrightarrow> addr_char c \<or> c = CHR ''/'' \<or> c = CHR ''-'' \<or> c = CHR ''+''"

lemma parse_octet_digits: "parse_octet s = Some n \<Longrightarrow> c \<in> set s \<Longrightarrow> is_digit c"
  by (auto simp: parse_octet_def list_all_iff split: if_splits)

lemma parse_ipv4_chars:
  assumes "parse_ipv4 s = Some a" and "c \<in> set s"
  shows "addr_char c"
proof -
  let ?ps = "str_split CHR ''.'' s"
  from assms(1) have ok: "\<forall>p \<in> set ?ps. \<exists>n. parse_octet p = Some n"
    by (auto simp: parse_ipv4_def split: list.splits option.splits)
  have "c \<in> set (str_join ''.'' ?ps)" using assms(2) by (simp add: str_split_join)
  then have "c = CHR ''.'' \<or> (\<exists>p \<in> set ?ps. c \<in> set p)"
    using set_join_subset [of "''.''" ?ps] by auto
  then show ?thesis using ok parse_octet_digits by (auto simp: addr_char_def)
qed

lemma parse_addr_V4: "parse_addr s = Some (V4 a) \<Longrightarrow> parse_ipv4 s = Some a"
  by (auto simp: parse_addr_def parse_ipv6_def Let_def split: option.splits if_splits prod.splits)

lemma parse_prefix4_chars:
  assumes "parse_prefix4 s = Some p" and "c \<in> set s"
  shows "cidr_char c"
proof -
  from assms(1) obtain a b ip n where cut: "cut_last_slash s = Some (a, b)"
    and a: "parse_addr a = Some (V4 ip)" and b: "parse_bits b = Some n"
    by (auto simp: parse_prefix4_def split: option.splits prod.splits addr.splits if_splits)
  from cut have s: "s = a @ CHR ''/'' # b"
    by (rule cut_last_slash_eq)
  from b obtain v where "atoi b = Some v"
    by (auto simp: parse_bits_def split: if_splits option.splits)
  then have "set b \<subseteq> {c. is_digit c} \<union> {CHR ''-'', CHR ''+''}" by (rule atoi_chars)
  moreover have "\<forall>c \<in> set a. addr_char c"
    using parse_ipv4_chars [OF parse_addr_V4 [OF a]] by blast
  ultimately show ?thesis using assms(2) by (auto simp: s cidr_char_def addr_char_def)
qed

section \<open>Address blocks\<close>

text \<open>
  Blocks of addresses with a base address, any two of which are nested or disjoint.  The client
  lemmas say that comparing base addresses, as the code does, decides disjointness.
\<close>

locale address_blocks =
  fixes contains :: "'p \<Rightarrow> 'a \<Rightarrow> bool" and base :: "'p \<Rightarrow> 'a"
  assumes contains_base: "contains p (base p)"
    and nested: "contains p a \<Longrightarrow> contains q a \<Longrightarrow> contains p (base q) \<or> contains q (base p)"
begin

lemma overlap_test: "contains p (base q) \<or> contains q (base p) \<longleftrightarrow> (\<exists>a. contains p a \<and> contains q a)"
  using contains_base nested by blast

lemma disjoint_extend:
  assumes "sorted_wrt (\<lambda>p q. {a. contains p a} \<inter> {a. contains q a} = {}) ps"
    and "\<forall>p \<in> set ps. \<not> (contains p (base q) \<or> contains q (base p))"
  shows "sorted_wrt (\<lambda>p q. {a. contains p a} \<inter> {a. contains q a} = {}) (ps @ [q])"
  using assms overlap_test by (fastforce simp: sorted_wrt_append)

end

lemma contains4_antimono:
  "contains4 p a \<Longrightarrow> n \<le> pfx_bits p \<Longrightarrow> pfx_bits p \<le> 32 \<Longrightarrow>
    drop_bit (32 - n) a = drop_bit (32 - n) (pfx_addr p)"
proof -
  assume h: "contains4 p a" "n \<le> pfx_bits p" "pfx_bits p \<le> 32"
  have split: "drop_bit (32 - n) x = drop_bit (pfx_bits p - n) (drop_bit (32 - pfx_bits p) x)" for x :: ip4
    using h(2,3) by (simp add: drop_bit_drop_bit)
  show ?thesis using h(1) by (simp add: split contains4_def)
qed

definition wf_prefix4 :: "prefix4 \<Rightarrow> bool" where
  "wf_prefix4 p \<longleftrightarrow> pfx_bits p \<le> 32"

lemma parse_prefix4_wf: "parse_prefix4 s = Some p \<Longrightarrow> wf_prefix4 p"
  by (auto simp: parse_prefix4_def wf_prefix4_def split: option.splits prod.splits addr.splits if_splits)

lemma contains4_nested_le:
  assumes "contains4 p a" "contains4 q a" "pfx_bits p \<le> pfx_bits q" "pfx_bits q \<le> 32"
  shows "contains4 p (pfx_addr q)"
  using assms contains4_antimono [of q a "pfx_bits p"] by (simp add: contains4_def)

text \<open>Prefixes longer than 32 bits cannot be built by parsing; the lengths are cut at 32 here so
  that the contract holds for every value of the type.\<close>

definition clamp4 :: "prefix4 \<Rightarrow> prefix4" where
  "clamp4 p = Prefix4 (pfx_addr p) (min 32 (pfx_bits p))"

lemma clamp4_simps [simp]:
  "contains4 (clamp4 p) a = contains4 p a" "pfx_addr (clamp4 p) = pfx_addr p" "pfx_bits (clamp4 p) \<le> 32"
  by (simp_all add: contains4_def clamp4_def min_def)

interpretation ipv4: address_blocks contains4 pfx_addr
proof unfold_locales
  show "contains4 p (pfx_addr p)" for p by (simp add: contains4_def)
next
  fix p q a
  assume h: "contains4 p a" "contains4 q a"
  show "contains4 p (pfx_addr q) \<or> contains4 q (pfx_addr p)"
    using h contains4_nested_le [of "clamp4 p" a "clamp4 q"] contains4_nested_le [of "clamp4 q" a "clamp4 p"]
    by simp linarith
qed

end
