(* ===== verification/Metadata.thy ===== *)
theory Metadata
  imports GoStrings
begin

text \<open>
  The data consumed from the metadata service (\<open>src/internal/metadata/types.go\<close>): one record per
  Go struct, with the struct's fields in order.  \<open>interface{}\<close> values are \<open>json\<close>; a type assertion
  with the "comma ok" form yields the zero value when the dynamic type differs.  A number is kept as
  its literal, because decoding into an integer field looks at the literal.
\<close>

section \<open>Untyped values\<close>

datatype json = JNull | JBool bool | JNum string | JStr string | JArr "json list" | JObj "(string \<times> json) list"

fun as_bool :: "json option \<Rightarrow> bool" where
  "as_bool (Some (JBool b)) = b"
| "as_bool _ = False"

fun as_string :: "json option \<Rightarrow> string" where
  "as_string (Some (JStr s)) = s"
| "as_string _ = []"

text \<open>\<open>v.(map[string]interface{})\<close>: a nil map reads like an empty one.\<close>

fun as_obj :: "json option \<Rightarrow> json gomap" where
  "as_obj (Some (JObj m)) = m"
| "as_obj _ = []"

fun is_obj :: "json option \<Rightarrow> bool" where
  "is_obj (Some (JObj _)) = True"
| "is_obj _ = False"

section \<open>Records of the metadata API\<close>

record HealthCheck =
  hc_HealthyThreshold :: int
  hc_Interval :: int
  hc_Port :: int
  hc_RequestLine :: string
  hc_ResponseTimeout :: int
  hc_UnhealthyThreshold :: int

record MetaPortRule =
  mpr_BackendName :: string
  mpr_Hostname :: string
  mpr_Path :: string
  mpr_Priority :: int
  mpr_Protocol :: string
  mpr_Selector :: string
  mpr_Service :: string
  mpr_SourcePort :: int
  mpr_TargetPort :: int

record LBStickinessPolicy =
  lbs_Cookie :: string
  lbs_Domain :: string
  lbs_Indirect :: bool
  lbs_Mode :: string
  lbs_Name :: string
  lbs_Nocache :: bool
  lbs_Postonly :: bool

record LBConfig =
  lb_Certs :: "string list"
  lb_Config :: string
  lb_DefaultCert :: string
  lb_PortRules :: "MetaPortRule list"
  lb_StickinessPolicy :: LBStickinessPolicy

record Container =
  ctr_CreateIndex :: int
  ctr_Dns :: "string list"
  ctr_DnsSearch :: "string list"
  ctr_EnvironmentUUID :: string
  ctr_ExternalId :: string
  ctr_HealthCheck :: HealthCheck
  ctr_HealthCheckHosts :: "string list"
  ctr_HealthState :: string
  ctr_HostUUID :: string
  ctr_Hostname :: string
  ctr_IPs :: "string list"
  ctr_Labels :: "string gomap"
  ctr_Links :: "string gomap"
  ctr_MemoryReservation :: int
  ctr_MetadataKind :: string
  ctr_MilliCPUReservation :: int
  ctr_Name :: string
  ctr_NetworkFromContainerUUID :: string
  ctr_NetworkUUID :: string
  ctr_Ports :: "string list"
  ctr_PrimaryIp :: string
  ctr_PrimaryMacAddress :: string
  ctr_ServiceIndex :: string
  ctr_ServiceName :: string
  ctr_StackName :: string
  ctr_StackUUID :: string
  ctr_StartCount :: int
  ctr_State :: string
  ctr_System :: bool
  ctr_UUID :: string

record Service =
  svc_Containers :: "Container list"
  svc_CreateIndex :: int
  svc_EnvironmentUUID :: string
  svc_Expose :: "string list"
  svc_ExternalIps :: "string list"
  svc_Fqdn :: string
  svc_HealthCheck :: HealthCheck
  svc_Hostname :: string
  svc_Kind :: string
  svc_Labels :: "string gomap"
  svc_LBConfig :: LBConfig
  svc_Links :: "string gomap"
  svc_Metadata :: "json gomap"
  svc_MetadataKind :: string
  svc_Name :: string
  svc_Ports :: "string list"
  svc_PrimaryServiceName :: string
  svc_Scale :: int
  svc_Sidekicks :: "string list"
  svc_StackName :: string
  svc_StackUUID :: string
  svc_State :: string
  svc_System :: bool
  svc_Token :: string
  svc_UUID :: string
  svc_Vip :: string

record Stack =
  stk_EnvironmentName :: string
  stk_EnvironmentUUID :: string
  stk_MetadataKind :: string
  stk_Name :: string
  stk_Services :: "Service list"
  stk_System :: bool
  stk_UUID :: string

record NetworkPolicyRuleBetween =
  npb_GroupBy :: string
  npb_Selector :: string

record NetworkPolicyRuleMember =
  npm_Selector :: string

record NetworkPolicyRule =
  npr_Action :: string
  npr_Between :: "NetworkPolicyRuleBetween option"
  npr_From :: "NetworkPolicyRuleMember option"
  npr_Ports :: "string list"
  npr_To :: "NetworkPolicyRuleMember option"
  npr_Within :: string

record Network =
  net_Default :: bool
  net_DefaultPolicyAction :: string
  net_EnvironmentUUID :: string
  net_HostPorts :: bool
  net_Metadata :: "json gomap"
  net_MetadataKind :: string
  net_Name :: string
  net_Policy :: "NetworkPolicyRule list"
  net_UUID :: string

record Host =
  host_AgentIP :: string
  host_AgentState :: string
  host_EnvironmentUUID :: string
  host_HostId :: int
  host_Hostname :: string
  host_Labels :: "string gomap"
  host_LocalStorageMb :: int
  host_Memory :: int
  host_MetadataKind :: string
  host_MilliCPU :: int
  host_Name :: string
  host_State :: string
  host_UUID :: string

section \<open>Zero values\<close>

definition zero_HealthCheck :: HealthCheck where
  "zero_HealthCheck = \<lparr>hc_HealthyThreshold = 0, hc_Interval = 0, hc_Port = 0, hc_RequestLine = [],
     hc_ResponseTimeout = 0, hc_UnhealthyThreshold = 0\<rparr>"

definition zero_Container :: Container where
  "zero_Container = \<lparr>ctr_CreateIndex = 0, ctr_Dns = [], ctr_DnsSearch = [], ctr_EnvironmentUUID = [],
     ctr_ExternalId = [], ctr_HealthCheck = zero_HealthCheck, ctr_HealthCheckHosts = [],
     ctr_HealthState = [], ctr_HostUUID = [], ctr_Hostname = [], ctr_IPs = [], ctr_Labels = [],
     ctr_Links = [], ctr_MemoryReservation = 0, ctr_MetadataKind = [], ctr_MilliCPUReservation = 0,
     ctr_Name = [], ctr_NetworkFromContainerUUID = [], ctr_NetworkUUID = [], ctr_Ports = [],
     ctr_PrimaryIp = [], ctr_PrimaryMacAddress = [], ctr_ServiceIndex = [], ctr_ServiceName = [],
     ctr_StackName = [], ctr_StackUUID = [], ctr_StartCount = 0, ctr_State = [], ctr_System = False,
     ctr_UUID = []\<rparr>"

definition zero_LBConfig :: LBConfig where
  "zero_LBConfig = \<lparr>lb_Certs = [], lb_Config = [], lb_DefaultCert = [], lb_PortRules = [],
     lb_StickinessPolicy = \<lparr>lbs_Cookie = [], lbs_Domain = [], lbs_Indirect = False, lbs_Mode = [],
       lbs_Name = [], lbs_Nocache = False, lbs_Postonly = False\<rparr>\<rparr>"

definition zero_Service :: Service where
  "zero_Service = \<lparr>svc_Containers = [], svc_CreateIndex = 0, svc_EnvironmentUUID = [], svc_Expose = [],
     svc_ExternalIps = [], svc_Fqdn = [], svc_HealthCheck = zero_HealthCheck, svc_Hostname = [],
     svc_Kind = [], svc_Labels = [], svc_LBConfig = zero_LBConfig, svc_Links = [], svc_Metadata = [],
     svc_MetadataKind = [], svc_Name = [], svc_Ports = [], svc_PrimaryServiceName = [], svc_Scale = 0,
     svc_Sidekicks = [], svc_StackName = [], svc_StackUUID = [], svc_State = [], svc_System = False,
     svc_Token = [], svc_UUID = [], svc_Vip = []\<rparr>"

definition zero_Network :: Network where
  "zero_Network = \<lparr>net_Default = False, net_DefaultPolicyAction = [], net_EnvironmentUUID = [],
     net_HostPorts = False, net_Metadata = [], net_MetadataKind = [], net_Name = [], net_Policy = [],
     net_UUID = []\<rparr>"

definition zero_Host :: Host where
  "zero_Host = \<lparr>host_AgentIP = [], host_AgentState = [], host_EnvironmentUUID = [], host_HostId = 0,
     host_Hostname = [], host_Labels = [], host_LocalStorageMb = 0, host_Memory = 0,
     host_MetadataKind = [], host_MilliCPU = 0, host_Name = [], host_State = [], host_UUID = []\<rparr>"

lemmas zero_defs = zero_Container_def zero_Service_def zero_Network_def zero_Host_def

text \<open>\<open>network.Metadata["cniConfig"].(map[string]interface{})\<close>: the CNI files of a network.\<close>

definition cni_config :: "Network \<Rightarrow> json gomap" where
  "cni_config n = as_obj (map_of (net_Metadata n) ''cniConfig'')"

text \<open>One property of a CNI file; a file that is not an object has none.\<close>

definition cni_prop :: "json \<Rightarrow> string \<Rightarrow> json option" where
  "cni_prop file key = map_of (as_obj (Some file)) key"

end
