(* ===== verification/HostLabel.thy ===== *)
theory HostLabel
  imports NetIP Metadata
begin

text \<open>
  \<open>src/internal/hostlabel/resolve.go\<close>: resolution of \<open>__host_label__:\<close> subnet references against a
  host's labels, and the computation of the peer subnets of a per-host network.

  \<open>PeerSubnets\<close> is fail-closed: it returns either an error or a sorted list of subnets of the other
  active hosts that are pairwise disjoint and disjoint from the local one.
\<close>

definition label_prefix :: string where
  "label_prefix = ''__host_label__:''"

definition IsReference :: "string \<Rightarrow> bool" where
  "IsReference v = has_prefix v label_prefix"

definition has_ascii_blank :: "string \<Rightarrow> bool" where
  "has_ascii_blank s = list_ex (\<lambda>c. c = CHR '' '' \<or> c = CHR 0x09 \<or> c = CHR 0x0D \<or> c = CHR 0x0A) s"

definition Resolve :: "string \<Rightarrow> string gomap \<Rightarrow> string result" where
  "Resolve value labels =
     (if \<not> has_prefix value label_prefix then Inr value
      else
        let key = trim_space (trim_prefix value label_prefix) in
        if key = [] \<or> has_ascii_blank key then
          Inl (Errorf ''invalid network host-label reference'' [])
        else
          let resolved = trim_space (mget [] labels key) in
          if resolved = [] then Inl (Errorf ''network host label %q is missing or empty'' [key])
          else (case parse_cidr resolved of
              None \<Rightarrow> Inl (Errorf ''network host label %q must be a canonical IPv4 subnet'' [key])
            | Some (ip, n) \<Rightarrow>
                if \<not> to4_ok ip \<or> \<not> host_bits_zero ip n
                then Inl (Errorf ''network host label %q must be a canonical IPv4 subnet'' [key])
                else Inr resolved))"

text \<open>The loop of \<open>PeerSubnets\<close>; the accumulator is \<open>(seen, peers)\<close>.\<close>

definition peer_step ::
    "string \<Rightarrow> string \<Rightarrow> Host \<Rightarrow> prefix4 list \<times> string list \<Rightarrow> (prefix4 list \<times> string list) result" where
  "peer_step reference localUUID host acc =
     (if host_UUID host = localUUID \<or> host_State host \<noteq> ''active'' then Inr acc
      else
        bindR (wrapR (Wrapf ''active peer %s: %w'' [host_UUID host]) (Resolve reference (host_Labels host)))
          (\<lambda>value. case parse_prefix4 value of
              None \<Rightarrow> Inl (Errorf ''active peer %s has invalid subnet %q'' [host_UUID host, value])
            | Some peer \<Rightarrow>
                (case find (\<lambda>existing. contains4 existing (pfx_addr peer) \<or> contains4 peer (pfx_addr existing))
                        (fst acc) of
                   Some existing \<Rightarrow> Inl (Errorf ''active peer %s subnet %s overlaps %s''
                     [host_UUID host, prefix4_str peer, prefix4_str existing])
                 | None \<Rightarrow> Inr (fst acc @ [peer], snd acc @ [value]))))"

definition PeerSubnets ::
    "string \<Rightarrow> string \<Rightarrow> string \<Rightarrow> Host list \<Rightarrow> string list option result" where
  "PeerSubnets reference localUUID localSubnet hosts =
     (if \<not> IsReference reference then Inr None
      else (case parse_prefix4 localSubnet of
          None \<Rightarrow> Inl (Errorf ''invalid local per-host subnet %q'' [localSubnet])
        | Some l \<Rightarrow>
            bindR (foldR (peer_step reference localUUID) hosts ([l], []))
              (\<lambda>(seen, peers). Inr (Some (sort peers)))))"

section \<open>Resolve\<close>

lemma Resolve_literal: "\<not> IsReference v \<Longrightarrow> Resolve v labels = Inr v"
  by (simp add: Resolve_def IsReference_def)

lemma Resolve_reference_ok:
  assumes "Resolve v labels = Inr r" and "IsReference v"
  shows "\<exists>key ip n. map_of labels key \<noteq> None \<and> r = trim_space (mget [] labels key) \<and> r \<noteq> []
    \<and> parse_cidr r = Some (ip, n) \<and> to4_ok ip \<and> host_bits_zero ip n"
proof -
  let ?key = "trim_space (trim_prefix v label_prefix)"
  from assms have r: "r = trim_space (mget [] labels ?key)" "r \<noteq> []"
    and c: "\<exists>ip n. parse_cidr r = Some (ip, n) \<and> to4_ok ip \<and> host_bits_zero ip n"
    by (auto simp: Resolve_def IsReference_def Let_def split: if_splits option.splits)
  have "map_of labels ?key \<noteq> None"
  proof
    assume "map_of labels ?key = None"
    then have "mget [] labels ?key = []" by (simp add: mget_def)
    moreover have "trim_space [] = []"
      by (simp add: trim_space_def trim_left.simps [of "[]"] trim_rev.simps [of "[]"])
    ultimately show False using r by simp
  qed
  with r c show ?thesis by blast
qed

section \<open>PeerSubnets\<close>

text \<open>The loop invariant: the prefixes seen are pairwise disjoint, and the peers are the texts of
  all seen prefixes but the first, the local one.\<close>

definition peers_inv :: "prefix4 \<Rightarrow> prefix4 list \<times> string list \<Rightarrow> bool" where
  "peers_inv l acc \<longleftrightarrow>
     sorted_wrt (\<lambda>p q. block4 p \<inter> block4 q = {}) (fst acc)
     \<and> (\<exists>qs. fst acc = l # qs \<and> map Some qs = map parse_prefix4 (snd acc))"

lemma peers_inv_init: "peers_inv l ([l], [])"
  by (simp add: peers_inv_def)

lemma peer_step_inv:
  assumes "peer_step ref lu h acc = Inr acc'" and "peers_inv l acc"
  shows "peers_inv l acc'"
proof (cases "host_UUID h = lu \<or> host_State h \<noteq> ''active''")
  case True
  with assms show ?thesis by (auto simp: peer_step_def)
next
  case False
  with assms(1) obtain v peer where v: "parse_prefix4 v = Some peer"
    and ov: "\<forall>e \<in> set (fst acc). \<not> (contains4 e (pfx_addr peer) \<or> contains4 peer (pfx_addr e))"
    and acc': "acc' = (fst acc @ [peer], snd acc @ [v])"
    by (auto simp: peer_step_def find_None_iff split: option.splits if_splits)
  have "sorted_wrt (\<lambda>p q. block4 p \<inter> block4 q = {}) (fst acc @ [peer])"
    using assms(2) ov unfolding block4_def by (intro ipv4.disjoint_extend) (auto simp: peers_inv_def block4_def)
  with assms(2) v show ?thesis by (auto simp: peers_inv_def acc')
qed

text \<open>Only labels of active hosts other than the local one contribute, each at most once.\<close>

lemma peer_step_sources:
  "peer_step ref lu h acc = Inr acc' \<Longrightarrow>
    acc' = acc \<or> (\<exists>v. host_UUID h \<noteq> lu \<and> host_State h = ''active''
      \<and> Resolve ref (host_Labels h) = Inr v \<and> snd acc' = snd acc @ [v])"
  by (auto simp: peer_step_def split: option.splits if_splits)

lemma foldR_peer_count:
  assumes "foldR (peer_step ref lu) hosts acc = Inr acc'"
  shows "length (snd acc') = length (snd acc)
    + length (filter (\<lambda>h. host_UUID h \<noteq> lu \<and> host_State h = ''active'') hosts)"
  using assms
proof (induction hosts arbitrary: acc)
  case (Cons h hosts)
  then obtain a where a: "peer_step ref lu h acc = Inr a" "foldR (peer_step ref lu) hosts a = Inr acc'"
    by auto
  have "length (snd a) = length (snd acc)
      + (if host_UUID h \<noteq> lu \<and> host_State h = ''active'' then 1 else 0)"
    using a(1) by (auto simp: peer_step_def split: option.splits if_splits)
  with Cons.IH [OF a(2)] show ?case by auto
qed simp

lemma foldR_peer_sources:
  assumes "foldR (peer_step ref lu) hosts acc = Inr acc'"
  shows "\<forall>v \<in> set (snd acc'). v \<in> set (snd acc) \<or>
    (\<exists>h \<in> set hosts. host_UUID h \<noteq> lu \<and> host_State h = ''active'' \<and> Resolve ref (host_Labels h) = Inr v)"
  using assms
proof (induction hosts arbitrary: acc)
  case (Cons h hosts)
  then obtain a where a: "peer_step ref lu h acc = Inr a" "foldR (peer_step ref lu) hosts a = Inr acc'"
    by auto
  show ?case using Cons.IH [OF a(2)] peer_step_sources [OF a(1)] by fastforce
qed simp

lemma sorted_wrt_disjoint_distinct:
  assumes "sorted_wrt (\<lambda>p q. block4 p \<inter> block4 q = {}) ps"
  shows "distinct ps"
  using assms
proof (induction ps)
  case (Cons p ps)
  have "pfx_addr p \<in> block4 p" by (simp add: block4_def ipv4.contains_base)
  with Cons show ?case by auto
qed simp

lemma sorted_wrt_disjoint_pair:
  assumes "sorted_wrt (\<lambda>p q. block4 p \<inter> block4 q = {}) ps" "p \<in> set ps" "q \<in> set ps" "p \<noteq> q"
  shows "block4 p \<inter> block4 q = {}"
  using assms by (induction ps) auto

text \<open>What a successful call promises, in one fact.\<close>

lemma PeerSubnets_ok:
  assumes "PeerSubnets ref lu ls hosts = Inr (Some peers)"
  shows "\<exists>l qs. parse_prefix4 ls = Some l
    \<and> sorted_wrt (\<lambda>p q. block4 p \<inter> block4 q = {}) (l # qs)
    \<and> sorted peers \<and> mset (map parse_prefix4 peers) = mset (map Some qs)
    \<and> length peers = length (filter (\<lambda>h. host_UUID h \<noteq> lu \<and> host_State h = ''active'') hosts)
    \<and> (\<forall>v \<in> set peers. \<exists>h \<in> set hosts. host_UUID h \<noteq> lu \<and> host_State h = ''active''
         \<and> Resolve ref (host_Labels h) = Inr v)"
proof -
  from assms obtain l seen ps where l: "parse_prefix4 ls = Some l"
    and f: "foldR (peer_step ref lu) hosts ([l], []) = Inr (seen, ps)" and p: "peers = sort ps"
    by (auto simp: PeerSubnets_def split: if_splits option.splits)
  have "peers_inv l (seen, ps)"
    using f peers_inv_init peer_step_inv by (rule foldR_invariant)
  then obtain qs where "seen = l # qs" "map Some qs = map parse_prefix4 ps"
    and s: "sorted_wrt (\<lambda>p q. block4 p \<inter> block4 q = {}) seen"
    by (auto simp: peers_inv_def)
  moreover have "length ps = length (filter (\<lambda>h. host_UUID h \<noteq> lu \<and> host_State h = ''active'') hosts)"
    using foldR_peer_count [OF f] by simp
  ultimately show ?thesis using l foldR_peer_sources [OF f]
    by (intro exI [of _ l] exI [of _ qs]) (auto simp: p mset_map)
qed


section \<open>Properties\<close>

text \<open>C11: When \<open>PeerSubnets\<close> succeeds on a host-label reference, the local subnet and every returned
  peer subnet parse as IPv4 prefixes, the address blocks of two different returned subnets never
  intersect, no returned subnet intersects the local one, the list is sorted, and it has exactly
  one entry per active host other than the local one.\<close>

theorem PeerSubnets_disjoint:
  assumes "PeerSubnets reference localUUID localSubnet hosts = Inr (Some peers)"
  shows "\<exists>l. parse_prefix4 localSubnet = Some l
    \<and> (\<forall>v \<in> set peers. \<exists>p. parse_prefix4 v = Some p \<and> block4 p \<inter> block4 l = {})
    \<and> (\<forall>v w p q. v \<in> set peers \<and> w \<in> set peers \<and> v \<noteq> w
          \<and> parse_prefix4 v = Some p \<and> parse_prefix4 w = Some q \<longrightarrow> block4 p \<inter> block4 q = {})
    \<and> sorted peers \<and> distinct peers
    \<and> length peers = length (filter (\<lambda>h. host_UUID h \<noteq> localUUID \<and> host_State h = ''active'') hosts)"
proof -
  from PeerSubnets_ok [OF assms] obtain l qs where l: "parse_prefix4 localSubnet = Some l"
    and s: "sorted_wrt (\<lambda>p q. block4 p \<inter> block4 q = {}) (l # qs)"
    and m: "mset (map parse_prefix4 peers) = mset (map Some qs)"
    and r: "sorted peers" "length peers = length (filter (\<lambda>h. host_UUID h \<noteq> localUUID \<and> host_State h = ''active'') hosts)"
    by blast
  have "distinct (map Some qs)"
    using sorted_wrt_disjoint_distinct [OF s] by (simp add: distinct_map)
  then have d: "distinct (map parse_prefix4 peers)"
    using m by (metis mset_eq_imp_distinct_iff)
  have mem: "\<exists>p \<in> set qs. parse_prefix4 v = Some p" if "v \<in> set peers" for v
    using that mset_eq_setD [OF m] by (metis (no_types, lifting) image_iff list.set_map)
  have "block4 p \<inter> block4 q = {}"
    if "v \<in> set peers" "w \<in> set peers" "v \<noteq> w" "parse_prefix4 v = Some p" "parse_prefix4 w = Some q" for v w p q
  proof -
    have "p \<noteq> q" using that d by (auto simp: distinct_map inj_on_def)
    then show ?thesis using that mem sorted_wrt_disjoint_pair [OF s, of p q] by fastforce
  qed
  moreover have "\<exists>p. parse_prefix4 v = Some p \<and> block4 p \<inter> block4 l = {}" if "v \<in> set peers" for v
    using mem [OF that] s by auto
  ultimately show ?thesis using l r distinct_map [THEN iffD1, OF d] by blast
qed

definition ex_host :: "string \<Rightarrow> string \<Rightarrow> string \<Rightarrow> Host" where
  "ex_host uuid state subnet =
     zero_Host\<lparr>host_UUID := uuid, host_State := state, host_Labels := [(''net'', subnet)]\<rparr>"

lemma PeerSubnets_example:
  "PeerSubnets ''__host_label__:net'' ''a'' ''10.1.0.0/24''
     [ex_host ''b'' ''active'' ''10.1.2.0/24'', ex_host ''c'' ''inactive'' ''junk'',
      ex_host ''d'' ''active'' ''10.1.1.0/24'']
   = Inr (Some [''10.1.1.0/24'', ''10.1.2.0/24''])"
  by code_simp

theorem PeerSubnets_disjoint_witness:
  "PeerSubnets ''__host_label__:net'' ''a'' ''10.1.0.0/24''
     [ex_host ''b'' ''active'' ''10.1.2.0/24'', ex_host ''c'' ''inactive'' ''junk'',
      ex_host ''d'' ''active'' ''10.1.1.0/24'']
   = Inr (Some [''10.1.1.0/24'', ''10.1.2.0/24''])
   \<and> block4 (Prefix4 0x0A010100 24) \<inter> block4 (Prefix4 0x0A010200 24) = {}"
proof -
  have p: "parse_prefix4 ''10.1.1.0/24'' = Some (Prefix4 0x0A010100 24)"
    "parse_prefix4 ''10.1.2.0/24'' = Some (Prefix4 0x0A010200 24)"
    by code_simp+
  show ?thesis
    using PeerSubnets_disjoint [OF PeerSubnets_example] PeerSubnets_example p by fastforce
qed

text \<open>The host-label path is fail closed.  If \<open>Resolve\<close> accepts a host's reference but the text
  is not an IPv4 prefix for \<open>netip.ParsePrefix\<close> (an IPv4-mapped IPv6 network or a mask with a
  leading zero passes the check of package \<open>net\<close>), then computing the peers with it as the local
  subnet fails, and so does every computation in which it is the subnet of an active peer.\<close>

theorem PeerSubnets_fail_closed:
  assumes "IsReference reference" and "parse_prefix4 v = None"
  shows "(\<exists>e. PeerSubnets reference localUUID v hosts = Inl e)
    \<and> (\<forall>h ls. h \<in> set hosts \<and> host_UUID h \<noteq> localUUID \<and> host_State h = ''active''
         \<and> Resolve reference (host_Labels h) = Inr v
         \<longrightarrow> (\<exists>e. PeerSubnets reference localUUID ls hosts = Inl e))"
proof -
  have "\<exists>e. PeerSubnets reference localUUID ls hosts = Inl e"
    if h: "h \<in> set hosts" "host_UUID h \<noteq> localUUID" "host_State h = ''active''"
      "Resolve reference (host_Labels h) = Inr v" for h ls
  proof -
    have step: "\<exists>e. peer_step reference localUUID h acc = Inl e" for acc
      using h assms by (simp add: peer_step_def)
    have "\<exists>e. foldR (peer_step reference localUUID) hosts acc = Inl e" for acc
      using h(1) step by (rule foldR_error)
    then show ?thesis
      using assms by (auto simp: PeerSubnets_def split: option.splits) (metis bindR_simps(1))+
  qed
  then show ?thesis using assms by (auto simp: PeerSubnets_def)
qed

theorem PeerSubnets_fail_closed_witness:
  "Resolve ''__host_label__:net'' [(''net'', ''::ffff:10.0.0.0/120'')] = Inr ''::ffff:10.0.0.0/120''
   \<and> (\<exists>e. PeerSubnets ''__host_label__:net'' ''a'' ''10.1.0.0/24'' [ex_host ''b'' ''active'' ''::ffff:10.0.0.0/120''] = Inl e)"
proof -
  have r: "Resolve ''__host_label__:net'' [(''net'', ''::ffff:10.0.0.0/120'')] = Inr ''::ffff:10.0.0.0/120''"
    by code_simp
  have "IsReference ''__host_label__:net''" "parse_prefix4 ''::ffff:10.0.0.0/120'' = None" by code_simp+
  from PeerSubnets_fail_closed [OF this, of "''a''" "[ex_host ''b'' ''active'' ''::ffff:10.0.0.0/120'']"] r
  show ?thesis by (auto simp: ex_host_def zero_Host_def)
qed

end
