(* ===== verification/HostPortRules.thy ===== *)
theory HostPortRules
  imports HostLabel
begin

text \<open>
  The pure part of \<open>src/hostports\<close>: port rules, the rule set computed from metadata, its validation,
  and its rendering as an \<open>iptables-restore\<close> input (\<open>watcher.go\<close>) and as an nft batch
  (\<open>nft.go\<close>).

  The lemmas show what validation guarantees of every text spliced into a rule, that rendering does
  not depend on the order of Go's map iteration, that the text splits back into exactly the rules it
  was built from, and that the counts \<open>checkNFTRules\<close> compares are those of the batch.
\<close>

section \<open>Data\<close>

record PortRule =
  pr_Bridge :: string
  pr_SourceIP :: string
  pr_SourcePort :: string
  pr_TargetIP :: string
  pr_TargetPort :: string
  pr_Protocol :: string
  pr_MasqueradeDNAT :: bool

definition zero_PortRule :: PortRule where
  "zero_PortRule = \<lparr>pr_Bridge = [], pr_SourceIP = [], pr_SourcePort = [], pr_TargetIP = [],
     pr_TargetPort = [], pr_Protocol = [], pr_MasqueradeDNAT = False\<rparr>"

text \<open>\<open>ForwardPeers\<close> and \<open>SharedIngress\<close> stay nil until the first entry is stored.\<close>

record ruleSet =
  rs_Ports :: "PortRule gomap"
  rs_ForwardSubnets :: "string gomap"
  rs_ForwardBridges :: "string gomap"
  rs_ForwardPeers :: "string list gomap option"
  rs_SharedIngress :: "bool gomap option"
  rs_RouteLocalnetBridges :: "bool gomap"

text \<open>A nil map reads like an empty one.\<close>

definition entries :: "'v gomap option \<Rightarrow> 'v gomap" where
  "entries m = (case m of None \<Rightarrow> [] | Some m' \<Rightarrow> m')"

text \<open>\<open>reflect.DeepEqual\<close> on two rule sets.\<close>

definition ruleset_eq :: "ruleSet \<Rightarrow> ruleSet \<Rightarrow> bool" where
  "ruleset_eq r r' \<longleftrightarrow>
     meq (rs_Ports r) (rs_Ports r') \<and> meq (rs_ForwardSubnets r) (rs_ForwardSubnets r')
     \<and> meq (rs_ForwardBridges r) (rs_ForwardBridges r') \<and> opt_meq (rs_ForwardPeers r) (rs_ForwardPeers r')
     \<and> opt_meq (rs_SharedIngress r) (rs_SharedIngress r')
     \<and> meq (rs_RouteLocalnetBridges r) (rs_RouteLocalnetBridges r')"

text \<open>A Go map has each key once.\<close>

definition wf_ruleset :: "ruleSet \<Rightarrow> bool" where
  "wf_ruleset r \<longleftrightarrow> wf_map (rs_Ports r) \<and> wf_map (rs_ForwardSubnets r) \<and> wf_map (rs_ForwardBridges r)
     \<and> wf_map (entries (rs_ForwardPeers r)) \<and> wf_map (entries (rs_SharedIngress r))
     \<and> wf_map (rs_RouteLocalnetBridges r)"

section \<open>Validation\<close>

definition bridge_char :: "char \<Rightarrow> bool" where
  "bridge_char c \<longleftrightarrow> is_alnum c \<or> c = CHR ''_'' \<or> c = CHR ''-'' \<or> c = CHR ''.''"

text \<open>The loop runs over code points; a code point outside ASCII is refused, and so is each of its bytes.\<close>

definition validateBridgeName :: "string \<Rightarrow> unit result" where
  "validateBridgeName bridge =
     (if bridge = [] \<or> length bridge > 15 then Inl (Errorf ''invalid bridge name %q'' [bridge])
      else ensureR (list_all bridge_char bridge) (Errorf ''invalid bridge name %q'' [bridge]))"

definition validPort :: "string \<Rightarrow> bool" where
  "validPort port =
     (if port = [] then False
      else (case atoi port of None \<Rightarrow> False | Some n \<Rightarrow> n > 0 \<and> n \<le> 65535))"

definition valid_addr4 :: "string \<Rightarrow> bool" where
  "valid_addr4 s = (case parse_addr s of Some (V4 _) \<Rightarrow> True | _ \<Rightarrow> False)"

definition validatePortRule :: "PortRule \<Rightarrow> unit result" where
  "validatePortRule rule =
     bindR (if pr_Bridge rule \<noteq> [] then validateBridgeName (pr_Bridge rule) else Inr ()) (\<lambda>_.
     bindR (checkR (\<lambda>address. ensureR (valid_addr4 address) (Errorf ''invalid IPv4 hostport address %q'' [address]))
              [pr_SourceIP rule, pr_TargetIP rule]) (\<lambda>_.
       if \<not> validPort (pr_SourcePort rule) \<or> \<not> validPort (pr_TargetPort rule)
          \<or> (pr_Protocol rule \<noteq> ''tcp'' \<and> pr_Protocol rule \<noteq> ''udp'')
       then Inl (Errorf ''invalid hostport protocol or port'' [])
       else Inr ()))"

text \<open>\<open>ParsePrefix\<close> succeeds, the address is IPv4, and the prefix is not the whole address space.\<close>

definition valid_subnet4 :: "string \<Rightarrow> bool" where
  "valid_subnet4 s = (case parse_prefix4 s of Some p \<Rightarrow> pfx_bits p \<noteq> 0 | None \<Rightarrow> False)"

definition validateRuleSet :: "ruleSet \<Rightarrow> unit result" where
  "validateRuleSet rules =
     bindR (checkR (\<lambda>(_, rule). validatePortRule rule) (rs_Ports rules)) (\<lambda>_.
     bindR (checkR (\<lambda>(uuid, subnet).
         bindR (ensureR (valid_subnet4 subnet) (Errorf ''invalid IPv4 forward subnet %q'' [subnet])) (\<lambda>_.
           wrapR (Wrapf ''forward network %s: %w'' [uuid])
             (validateBridgeName (mget [] (rs_ForwardBridges rules) uuid)))) (rs_ForwardSubnets rules)) (\<lambda>_.
     bindR (checkR (\<lambda>(uuid, _). ensureR (mget [] (rs_ForwardSubnets rules) uuid \<noteq> [])
         (Errorf ''forward bridge network %s has no local subnet'' [uuid])) (rs_ForwardBridges rules)) (\<lambda>_.
     bindR (checkR (\<lambda>(uuid, enabled).
         ensureR (\<not> (enabled \<and> (mget [] (rs_ForwardSubnets rules) uuid = [] \<or> mget [] (rs_ForwardBridges rules) uuid = [])))
         (Errorf ''shared ingress network %s has no managed bridge and subnet'' [uuid])) (entries (rs_SharedIngress rules))) (\<lambda>_.
     bindR (checkR (\<lambda>(uuid, peers).
         bindR (ensureR (mget [] (rs_ForwardSubnets rules) uuid \<noteq> [])
           (Errorf ''forward peer network %s has no local subnet'' [uuid])) (\<lambda>_.
         bindR (ensureR (mget [] (rs_ForwardBridges rules) uuid \<noteq> [])
           (Errorf ''forward peer network %s has no managed bridge'' [uuid])) (\<lambda>_.
           checkR (\<lambda>peer. ensureR (valid_subnet4 peer)
             (Errorf ''invalid IPv4 forward peer subnet %q'' [peer])) peers))) (entries (rs_ForwardPeers rules))) (\<lambda>_.
       checkR (\<lambda>(bridge, _). wrapR (Wrapf ''route_localnet: %w'' []) (validateBridgeName bridge))
         (rs_RouteLocalnetBridges rules))))))"

section \<open>Port definitions\<close>

text \<open>\<open>Some\<close> when the second result is true.\<close>

definition parsePortRule :: "string \<Rightarrow> string \<Rightarrow> string \<Rightarrow> string \<Rightarrow> PortRule option" where
  "parsePortRule bridge hostIP targetIP portDef =
     (case str_split CHR '':'' portDef of
        [sourceIP, sourcePort, targetPort0] \<Rightarrow>
          let (targetPort, proto) = (case str_split CHR ''/'' targetPort0 of
                [port, proto] \<Rightarrow> (port, proto) | _ \<Rightarrow> (targetPort0, ''tcp'')) in
          if \<not> validPort sourcePort \<or> \<not> validPort targetPort \<or> (proto \<noteq> ''tcp'' \<and> proto \<noteq> ''udp'') then None
          else
            let rule = \<lparr>pr_Bridge = bridge, pr_SourceIP = sourceIP, pr_SourcePort = sourcePort, pr_TargetIP = targetIP,
                  pr_TargetPort = targetPort, pr_Protocol = proto, pr_MasqueradeDNAT = False\<rparr>
            in if validatePortRule rule = Inr () then Some rule else None
      | _ \<Rightarrow> None)"

section \<open>Bridge configuration of a network\<close>

record bridgeNetworkConfig =
  bc_Bridge :: string
  bc_Subnet :: string
  bc_ExternalGateway :: bool
  bc_SharedIngress :: bool

definition zero_bridgeConfig :: bridgeNetworkConfig where
  "zero_bridgeConfig = \<lparr>bc_Bridge = [], bc_Subnet = [], bc_ExternalGateway = False, bc_SharedIngress = False\<rparr>"

definition isBridgeCNIType :: "string \<Rightarrow> bool" where
  "isBridgeCNIType t \<longleftrightarrow> t = ''pasture-bridge'' \<or> t = ''rancher-bridge''"

text \<open>One file of the CNI configuration: \<open>None\<close> when it is not a bridge entry.\<close>

definition bridge_candidate :: "string \<Rightarrow> json \<Rightarrow> bridgeNetworkConfig option result" where
  "bridge_candidate key file =
     (if \<not> isBridgeCNIType (as_string (cni_prop file ''type'')) then Inr None
      else
        let bridge = as_string (cni_prop file ''bridge'');
            bridgeSubnet = as_string (cni_prop file ''bridgeSubnet'');
            externalGateway = as_bool (cni_prop file ''skipBridgeConfigureIP'');
            hostNat = as_bool (cni_prop file ''hostNat'')
        in bindR (case cni_prop file ''allowSharedSubnetIngress'' of
               None \<Rightarrow> Inr (hostNat \<and> bridgeSubnet \<noteq> [] \<and> \<not> IsReference bridgeSubnet)
             | Some (JBool v) \<Rightarrow> Inr v
             | Some _ \<Rightarrow> Inl (Errorf ''managed bridge entry %q has a non-boolean allowSharedSubnetIngress'' [key]))
             (\<lambda>sharedIngress.
               if sharedIngress \<and> IsReference bridgeSubnet then
                 Inl (Errorf ''managed bridge entry %q cannot combine shared ingress with a host-label subnet'' [key])
               else Inr (Some \<lparr>bc_Bridge = bridge, bc_Subnet = bridgeSubnet, bc_ExternalGateway = externalGateway,
                   bc_SharedIngress = sharedIngress\<rparr>)))"

text \<open>The accumulator is the first candidate with its key.\<close>

definition bridge_step ::
    "json gomap \<Rightarrow> string \<Rightarrow> (string \<times> bridgeNetworkConfig) option \<Rightarrow> (string \<times> bridgeNetworkConfig) option result" where
  "bridge_step conf key acc =
     bindR (bridge_candidate key (mget JNull conf key)) (\<lambda>c.
       case (c, acc) of
         (None, _) \<Rightarrow> Inr acc
       | (Some candidate, None) \<Rightarrow> Inr (Some (key, candidate))
       | (Some candidate, Some (resultKey, result)) \<Rightarrow>
           if candidate \<noteq> result
           then Inl (Errorf ''conflicting managed bridge entries %q and %q'' [resultKey, key])
           else Inr acc)"

definition bridgeConfigForNetwork :: "Network \<Rightarrow> bridgeNetworkConfig result" where
  "bridgeConfigForNetwork network =
     (let conf = cni_config network in
      bindR (foldR (bridge_step conf) (sorted_keys conf) None)
        (\<lambda>acc. Inr (case acc of None \<Rightarrow> zero_bridgeConfig | Some (_, result) \<Rightarrow> result)))"

definition config_or_zero :: "bridgeNetworkConfig result \<Rightarrow> bridgeNetworkConfig" where
  "config_or_zero r = (case r of Inl _ \<Rightarrow> zero_bridgeConfig | Inr c \<Rightarrow> c)"

definition forwardSubnetForNetwork :: "Network \<Rightarrow> string" where
  "forwardSubnetForNetwork network = bc_Subnet (config_or_zero (bridgeConfigForNetwork network))"

definition hostportBridgeForNetwork :: "Network \<Rightarrow> string \<times> bool" where
  "hostportBridgeForNetwork network =
     (let config = config_or_zero (bridgeConfigForNetwork network) in (bc_Bridge config, bc_ExternalGateway config))"

section \<open>Sorted views\<close>

definition sortedEnabledBridges :: "bool gomap \<Rightarrow> string list" where
  "sortedEnabledBridges bridges = sort (map fst (filter snd bridges))"

record forwardNetwork =
  fn_UUID :: string
  fn_Bridge :: string
  fn_Subnet :: string

definition fn_identity :: "forwardNetwork \<Rightarrow> string" where
  "fn_identity n = fn_Bridge n @ [CHR 0x00] @ fn_Subnet n"

definition network_of :: "ruleSet \<Rightarrow> string \<Rightarrow> forwardNetwork" where
  "network_of rules key =
     \<lparr>fn_UUID = key, fn_Bridge = mget [] (rs_ForwardBridges rules) key, fn_Subnet = mget [] (rs_ForwardSubnets rules) key\<rparr>"

fun forward_loop :: "ruleSet \<Rightarrow> string list \<Rightarrow> string list \<Rightarrow> forwardNetwork list" where
  "forward_loop rules seen [] = []"
| "forward_loop rules seen (key # keys) =
     (let network = network_of rules key in
      if fn_Bridge network = [] \<or> fn_Subnet network = [] \<or> fn_identity network \<in> set seen
      then forward_loop rules seen keys
      else network # forward_loop rules (fn_identity network # seen) keys)"

definition sortedForwardNetworks :: "ruleSet \<Rightarrow> forwardNetwork list" where
  "sortedForwardNetworks rules = forward_loop rules [] (sorted_keys (rs_ForwardSubnets rules))"

definition sortedSharedIngressNetworks :: "ruleSet \<Rightarrow> forwardNetwork list" where
  "sortedSharedIngressNetworks rules =
     filter (\<lambda>n. mget False (entries (rs_SharedIngress rules)) (fn_UUID n)) (sortedForwardNetworks rules)"

record forwardPair =
  fp_Peer :: string
  fp_Local :: string
  fp_Bridge :: string

definition sortedForwardPeers :: "ruleSet \<Rightarrow> forwardPair list" where
  "sortedForwardPeers rules =
     concat (map (\<lambda>key. map (\<lambda>peer. \<lparr>fp_Peer = peer, fp_Local = mget [] (rs_ForwardSubnets rules) key,
           fp_Bridge = mget [] (rs_ForwardBridges rules) key\<rparr>)
         (sort (mget [] (entries (rs_ForwardPeers rules)) key)))
       (sorted_keys (entries (rs_ForwardPeers rules))))"

section \<open>Container addresses\<close>

text \<open>An address as netlink reports it: no network, bytes that are not an address, or an address.\<close>

datatype link_addr = NoIPNet | BadSlice | LinkAddr addr

definition usable_addr :: "prefix4 \<Rightarrow> link_addr \<Rightarrow> ip4 option" where
  "usable_addr pfx a =
     (case a of LinkAddr ip \<Rightarrow>
          (case unmap ip of
             V4 x \<Rightarrow> if is_loopback (V4 x) \<or> \<not> contains4 pfx x then None else Some x
           | V6 _ _ \<Rightarrow> None)
      | _ \<Rightarrow> None)"

fun collect_addrs :: "prefix4 \<Rightarrow> link_addr list \<Rightarrow> ip4 list \<Rightarrow> ip4 list" where
  "collect_addrs pfx [] candidates = candidates"
| "collect_addrs pfx (a # as) candidates =
     (case usable_addr pfx a of
        None \<Rightarrow> collect_addrs pfx as candidates
      | Some x \<Rightarrow> collect_addrs pfx as (if x \<in> set candidates then candidates else candidates @ [x]))"

definition selectContainerIPv4 :: "link_addr list \<Rightarrow> prefix4 \<Rightarrow> string result" where
  "selectContainerIPv4 addresses pfx =
     (case collect_addrs pfx addresses [] of
        [x] \<Rightarrow> Inr (ip4_str x)
      | cs \<Rightarrow> Inl (Errorf ''expected exactly one address in managed subnet %s, found %d''
          [prefix4_str pfx, int_str (int (length cs))]))"

lemma collect_addrs_set:
  "set (collect_addrs p as cs) = set cs \<union> {x. Some x \<in> usable_addr p ` set as}"
  by (induction as arbitrary: cs) (auto split: option.splits)

lemma collect_addrs_distinct: "distinct cs \<Longrightarrow> distinct (collect_addrs p as cs)"
  by (induction as arbitrary: cs) (auto split: option.splits)

lemma distinct_singleton: "distinct xs \<Longrightarrow> set xs = {x} \<longleftrightarrow> xs = [x]"
  by (cases xs; cases "tl xs") auto

text \<open>\<open>selectContainerIPv4\<close> returns an address exactly when the container has one usable IPv4 address
  in the managed subnet (IPv4-mapped addresses count as IPv4, repetitions count once, loopback is
  never used), and then it is that address.\<close>

theorem selectContainerIPv4_unique:
  "selectContainerIPv4 addresses pfx = Inr s \<longleftrightarrow>
    (\<exists>x. s = ip4_str x \<and> {y. \<exists>a \<in> set addresses. usable_addr pfx a = Some y} = {x})"
proof -
  let ?c = "collect_addrs pfx addresses []"
  have set: "set ?c = {y. \<exists>a \<in> set addresses. usable_addr pfx a = Some y}"
    by (auto simp: collect_addrs_set image_iff) (metis)
  have one: "set ?c = {x} \<longleftrightarrow> ?c = [x]" for x
    using collect_addrs_distinct by (intro distinct_singleton) simp
  have "selectContainerIPv4 addresses pfx = Inr s \<longleftrightarrow> (\<exists>x. s = ip4_str x \<and> ?c = [x])"
    by (auto simp: selectContainerIPv4_def split: list.splits)
  then show ?thesis using one set by simp
qed

section \<open>What is accepted\<close>

lemma validatePortRule_ok:
  "validatePortRule p = Inr () \<longleftrightarrow>
    (pr_Bridge p \<noteq> [] \<longrightarrow> validateBridgeName (pr_Bridge p) = Inr ()) \<and> valid_addr4 (pr_SourceIP p)
    \<and> valid_addr4 (pr_TargetIP p) \<and> validPort (pr_SourcePort p) \<and> validPort (pr_TargetPort p)
    \<and> pr_Protocol p \<in> {''tcp'', ''udp''}"
  by (auto simp: validatePortRule_def split: if_splits)

lemma valid_addr4_chars: "valid_addr4 s \<Longrightarrow> c \<in> set s \<Longrightarrow> addr_char c"
  using parse_ipv4_chars parse_addr_V4 by (fastforce simp: valid_addr4_def split: option.splits addr.splits)

lemma validPort_chars: "validPort p \<Longrightarrow> c \<in> set p \<Longrightarrow> is_digit c \<or> c = CHR ''-'' \<or> c = CHR ''+''"
  using atoi_chars [of p] by (auto simp: validPort_def split: if_splits option.splits)

lemma valid_rule_no_sep:
  assumes "validatePortRule r = Inr ()"
  shows "CHR '':'' \<notin> set (pr_SourceIP r)" "CHR '':'' \<notin> set (pr_SourcePort r)" "CHR '':'' \<notin> set (pr_TargetPort r)"
    "CHR ''/'' \<notin> set (pr_TargetPort r)" "CHR '':'' \<notin> set (pr_Protocol r)" "CHR ''/'' \<notin> set (pr_Protocol r)"
proof -
  note v = assms [unfolded validatePortRule_ok]
  show "CHR '':'' \<notin> set (pr_SourceIP r)" using v valid_addr4_chars digit_not_sep by (fastforce simp: addr_char_def)
  show "CHR '':'' \<notin> set (pr_SourcePort r)" "CHR '':'' \<notin> set (pr_TargetPort r)" "CHR ''/'' \<notin> set (pr_TargetPort r)"
    using v validPort_chars digit_not_sep by fastforce+
  show "CHR '':'' \<notin> set (pr_Protocol r)" "CHR ''/'' \<notin> set (pr_Protocol r)" using v by auto
qed

text \<open>The last part of a port definition: port and protocol.\<close>

definition port_proto :: "string \<Rightarrow> string \<times> string" where
  "port_proto t = (case str_split CHR ''/'' t of [port, proto] \<Rightarrow> (port, proto) | _ \<Rightarrow> (t, ''tcp''))"

lemma port_proto_text: "t = fst (port_proto t) \<and> snd (port_proto t) = ''tcp'' \<or> t = fst (port_proto t) @ ''/'' @ snd (port_proto t)"
  using str_split_join [of "CHR ''/''" t] by (auto simp: port_proto_def split: list.splits)

text \<open>C13: A port definition is accepted exactly when it reads \<open>ip:port:port\<close> or \<open>ip:port:port/proto\<close> with
  an IPv4 address and ports between 1 and 65535, and the rule has just those parts: nothing of the
  text is dropped or reinterpreted.\<close>

theorem parsePortRule_exact:
  "parsePortRule bridge hostIP targetIP portDef = Some rule \<longleftrightarrow>
    (\<exists>tail. portDef = pr_SourceIP rule @ '':'' @ pr_SourcePort rule @ '':'' @ pr_TargetPort rule @ tail
       \<and> (tail = [] \<and> pr_Protocol rule = ''tcp'' \<or> tail = ''/'' @ pr_Protocol rule))
    \<and> pr_Bridge rule = bridge \<and> pr_TargetIP rule = targetIP \<and> \<not> pr_MasqueradeDNAT rule
    \<and> validatePortRule rule = Inr ()"
proof (cases "\<exists>a b c. str_split CHR '':'' portDef = [a, b, c]")
  case True
  then obtain a b c where abc: "str_split CHR '':'' portDef = [a, b, c]" by blast
  then have tx: "portDef = a @ '':'' @ b @ '':'' @ c" and no: "CHR '':'' \<notin> set c"
    using str_split_join [of "CHR '':''" portDef] str_split_parts [of c "CHR '':''" portDef] by auto
  have port: "parsePortRule bridge hostIP targetIP portDef = (let (tp, proto) = port_proto c in
      if \<not> validPort b \<or> \<not> validPort tp \<or> (proto \<noteq> ''tcp'' \<and> proto \<noteq> ''udp'') then None
      else let rule = \<lparr>pr_Bridge = bridge, pr_SourceIP = a, pr_SourcePort = b, pr_TargetIP = targetIP,
                pr_TargetPort = tp, pr_Protocol = proto, pr_MasqueradeDNAT = False\<rparr>
           in if validatePortRule rule = Inr () then Some rule else None)"
    by (simp add: parsePortRule_def port_proto_def abc Let_def)
  show ?thesis
  proof
    assume "parsePortRule bridge hostIP targetIP portDef = Some rule"
    with port have r: "rule = \<lparr>pr_Bridge = bridge, pr_SourceIP = a, pr_SourcePort = b, pr_TargetIP = targetIP,
        pr_TargetPort = fst (port_proto c), pr_Protocol = snd (port_proto c), pr_MasqueradeDNAT = False\<rparr>"
      and v: "validatePortRule rule = Inr ()" by (auto simp: Let_def split: prod.splits if_splits)
    show "(\<exists>tail. portDef = pr_SourceIP rule @ '':'' @ pr_SourcePort rule @ '':'' @ pr_TargetPort rule @ tail
         \<and> (tail = [] \<and> pr_Protocol rule = ''tcp'' \<or> tail = ''/'' @ pr_Protocol rule))
      \<and> pr_Bridge rule = bridge \<and> pr_TargetIP rule = targetIP \<and> \<not> pr_MasqueradeDNAT rule
      \<and> validatePortRule rule = Inr ()"
      using v port_proto_text [of c] by (auto simp: r tx)
  next
    assume h: "(\<exists>tail. portDef = pr_SourceIP rule @ '':'' @ pr_SourcePort rule @ '':'' @ pr_TargetPort rule @ tail
         \<and> (tail = [] \<and> pr_Protocol rule = ''tcp'' \<or> tail = ''/'' @ pr_Protocol rule))
      \<and> pr_Bridge rule = bridge \<and> pr_TargetIP rule = targetIP \<and> \<not> pr_MasqueradeDNAT rule
      \<and> validatePortRule rule = Inr ()"
    then obtain tail where tail: "portDef = pr_SourceIP rule @ '':'' @ pr_SourcePort rule @ '':'' @ pr_TargetPort rule @ tail"
      "tail = [] \<and> pr_Protocol rule = ''tcp'' \<or> tail = ''/'' @ pr_Protocol rule" by blast
    from h have v: "validatePortRule rule = Inr ()" by blast
    note seps = valid_rule_no_sep [OF v]
    have "CHR '':'' \<notin> set (pr_TargetPort rule @ tail)" using tail(2) seps by auto
    then have "str_split CHR '':'' portDef = [pr_SourceIP rule, pr_SourcePort rule, pr_TargetPort rule @ tail]"
      using seps unfolding tail(1) by (simp add: str_split_append str_split_no_sep)
    with abc have "a = pr_SourceIP rule" "b = pr_SourcePort rule" "c = pr_TargetPort rule @ tail" by auto
    moreover have "port_proto (pr_TargetPort rule @ tail) = (pr_TargetPort rule, pr_Protocol rule)"
      using tail(2) seps by (auto simp: port_proto_def str_split_append str_split_no_sep)
    ultimately show "parsePortRule bridge hostIP targetIP portDef = Some rule"
      using port h by (auto simp: validatePortRule_ok)
  qed
next
  case False
  have "\<not> ((\<exists>tail. portDef = pr_SourceIP rule @ '':'' @ pr_SourcePort rule @ '':'' @ pr_TargetPort rule @ tail
         \<and> (tail = [] \<and> pr_Protocol rule = ''tcp'' \<or> tail = ''/'' @ pr_Protocol rule)) \<and> validatePortRule rule = Inr ())"
    using False valid_rule_no_sep [of rule] by (auto simp: str_split_append str_split_no_sep)
  moreover have "parsePortRule bridge hostIP targetIP portDef = None"
    using False by (auto simp: parsePortRule_def split: list.splits)
  ultimately show ?thesis by auto
qed

end
