(* ===== verification/HostPortRender.thy ===== *)
theory HostPortRender
  imports HostPortRules
begin

text \<open>
  Rendering of a rule set: \<open>PortRule.iptables\<close> and the buffer built by \<open>apply\<close>
  (\<open>src/hostports/watcher.go\<close>), and the transactional nft batch (\<open>src/hostports/nft.go\<close>).
\<close>

definition unlines :: "string list \<Rightarrow> string" where
  "unlines ls = concat (map (\<lambda>l. l @ nl) ls)"

abbreviation hostPortsPostRoutingChain :: string where
  "hostPortsPostRoutingChain \<equiv> ''CATTLE_HOSTPORTS_POSTROUTING''"

abbreviation hostPortsRawChain :: string where
  "hostPortsRawChain \<equiv> ''CATTLE_HOSTPORTS_RAW''"

abbreviation nftHostportsTable :: string where
  "nftHostportsTable \<equiv> ''pasturestack_hostports''"

section \<open>iptables-restore input\<close>

definition port_prefix :: "PortRule \<Rightarrow> string" where
  "port_prefix p =
     ''-A CATTLE_PREROUTING'' @ (if pr_Bridge p \<noteq> [] then '' ! -i '' @ pr_Bridge p else [])
     @ '' -p '' @ pr_Protocol p @ '' -m '' @ pr_Protocol p
     @ (if pr_SourceIP p \<noteq> ''0.0.0.0'' then '' -d '' @ pr_SourceIP p else [])
     @ '' --dport '' @ pr_SourcePort p"

definition port_target :: "PortRule \<Rightarrow> string" where
  "port_target p = pr_TargetIP p @ '':'' @ pr_TargetPort p"

text \<open>The six rules of a port, as lines.\<close>

definition iptables_rules :: "PortRule \<Rightarrow> string list" where
  "iptables_rules p =
     [port_prefix p @ '' -j MARK --set-mark 4200'',
      port_prefix p @ '' -j DNAT --to '' @ port_target p,
      (if pr_SourceIP p = ''0.0.0.0''
       then ''-A CATTLE_PREROUTING -p '' @ pr_Protocol p @ '' -m '' @ pr_Protocol p @ '' --dport '' @ pr_SourcePort p
         @ '' -m addrtype --dst-type LOCAL -j DNAT --to-destination '' @ port_target p
       else ''-A CATTLE_PREROUTING -p '' @ pr_Protocol p @ '' -m '' @ pr_Protocol p @ '' --dport '' @ pr_SourcePort p
         @ '' -d '' @ pr_SourceIP p @ '' -j DNAT --to-destination '' @ port_target p),
      ''-A CATTLE_OUTPUT -p '' @ pr_Protocol p @ '' -m '' @ pr_Protocol p @ '' --dport '' @ pr_SourcePort p
        @ '' -m addrtype --dst-type LOCAL''
        @ (if pr_SourceIP p \<noteq> ''0.0.0.0'' then '' -d '' @ pr_SourceIP p else [])
        @ '' -j DNAT --to-destination '' @ port_target p,
      ''-A '' @ hostPortsPostRoutingChain @ '' -s '' @ pr_TargetIP p @ '' -d '' @ pr_TargetIP p @ '' -p '' @ pr_Protocol p
        @ '' -m '' @ pr_Protocol p @ '' --dport '' @ pr_TargetPort p @ '' -j MASQUERADE'',
      (if pr_MasqueradeDNAT p
       then ''-A '' @ hostPortsPostRoutingChain @ '' -m conntrack --ctstate DNAT -d '' @ pr_TargetIP p
         @ '' -p '' @ pr_Protocol p @ '' -m '' @ pr_Protocol p @ '' --dport '' @ pr_TargetPort p @ '' -j MASQUERADE''
       else ''-A '' @ hostPortsPostRoutingChain @ '' -m conntrack --ctstate DNAT -m addrtype --src-type LOCAL -d '' @ pr_TargetIP p
         @ '' -p '' @ pr_Protocol p @ '' -m '' @ pr_Protocol p @ '' --dport '' @ pr_TargetPort p @ '' -j MASQUERADE'')]"

definition iptables :: "PortRule \<Rightarrow> string" where
  "iptables p = str_join nl (iptables_rules p)"

text \<open>The rules of the other chains.\<close>

definition raw_guard :: "string \<Rightarrow> string" where
  "raw_guard bridge = ''-A '' @ hostPortsRawChain @ '' -i '' @ bridge @ '' -d 127.0.0.0/8 -j DROP''"

definition forward_rules :: "forwardNetwork \<Rightarrow> string list" where
  "forward_rules n =
     [''-A CATTLE_FORWARD -i '' @ fn_Bridge n @ '' -s '' @ fn_Subnet n @ '' -m conntrack --ctstate NEW,ESTABLISHED,RELATED -j ACCEPT'',
      ''-A CATTLE_FORWARD -o '' @ fn_Bridge n @ '' -d '' @ fn_Subnet n @ '' -m conntrack --ctstate ESTABLISHED,RELATED -j ACCEPT'']"

definition shared_rule :: "forwardNetwork \<Rightarrow> string" where
  "shared_rule n = ''-A CATTLE_FORWARD -o '' @ fn_Bridge n @ '' -s '' @ fn_Subnet n @ '' -d '' @ fn_Subnet n
     @ '' -m conntrack --ctstate NEW,ESTABLISHED,RELATED -j ACCEPT''"

definition peer_rule :: "forwardPair \<Rightarrow> string" where
  "peer_rule p = ''-A CATTLE_FORWARD -o '' @ fp_Bridge p @ '' -s '' @ fp_Peer p @ '' -d '' @ fp_Local p @ '' -j ACCEPT''"

definition admit_rule :: "PortRule \<Rightarrow> string" where
  "admit_rule p = ''-A CATTLE_FORWARD -m conntrack --ctstate DNAT -d '' @ pr_TargetIP p @ '' -p '' @ pr_Protocol p
     @ '' -m '' @ pr_Protocol p @ '' --dport '' @ pr_TargetPort p @ '' -j ACCEPT''"

definition sorted_ports :: "ruleSet \<Rightarrow> PortRule list" where
  "sorted_ports rules = map (mget zero_PortRule (rs_Ports rules)) (sorted_keys (rs_Ports rules))"

text \<open>The buffer of \<open>apply\<close>.\<close>

definition apply_text :: "ruleSet \<Rightarrow> string" where
  "apply_text rules =
     unlines ([''*raw'', '':'' @ hostPortsRawChain @ '' -'', ''-F '' @ hostPortsRawChain]
       @ map raw_guard (sortedEnabledBridges (rs_RouteLocalnetBridges rules))
       @ [''COMMIT'', [], ''*nat'', '':CATTLE_PREROUTING -'', '':CATTLE_POSTROUTING -'', '':CATTLE_OUTPUT -'',
          '':'' @ hostPortsPostRoutingChain @ '' -'', ''-F CATTLE_PREROUTING'', ''-F CATTLE_POSTROUTING'',
          ''-F CATTLE_OUTPUT'', ''-F '' @ hostPortsPostRoutingChain])
     @ concat (map (\<lambda>p. nl @ iptables p) (sorted_ports rules))
     @ nl @ unlines ([''COMMIT'', [], ''*filter'', '':CATTLE_FORWARD -'', ''-F CATTLE_FORWARD'']
       @ concat (map forward_rules (sortedForwardNetworks rules))
       @ map shared_rule (sortedSharedIngressNetworks rules)
       @ map peer_rule (sortedForwardPeers rules)
       @ map admit_rule (sorted_ports rules)
       @ [''-A CATTLE_FORWARD -m mark --mark 0x1068 -j ACCEPT'', ''-A CATTLE_FORWARD -m mark --mark 0x4000 -j ACCEPT'',
          [], ''COMMIT''])"

section \<open>nft batch\<close>

definition nftPortMatch :: "PortRule \<Rightarrow> string" where
  "nftPortMatch p =
     ''fib daddr type local'' @ (if pr_SourceIP p \<noteq> ''0.0.0.0'' then '' ip daddr '' @ pr_SourceIP p else [])
     @ '' '' @ pr_Protocol p @ '' dport '' @ pr_SourcePort p"

definition nft_guard :: "string \<Rightarrow> string" where
  "nft_guard bridge = ''  iifname '' @ quote_plain bridge @ '' ip daddr 127.0.0.0/8 drop''"

definition nft_prerouting :: "PortRule \<Rightarrow> string list" where
  "nft_prerouting p =
     (if pr_Bridge p \<noteq> [] then
        [''  '' @ nftPortMatch p @ '' iifname != '' @ quote_plain (pr_Bridge p) @ '' meta mark set meta mark | 0x1068 dnat to '' @ port_target p,
         ''  '' @ nftPortMatch p @ '' iifname '' @ quote_plain (pr_Bridge p) @ '' meta mark set meta mark | 0x1068 dnat to '' @ port_target p]
      else [''  '' @ nftPortMatch p @ '' meta mark set meta mark | 0x1068 dnat to '' @ port_target p])"

definition nft_output :: "PortRule \<Rightarrow> string" where
  "nft_output p =
     ''  fib daddr type local'' @ (if pr_SourceIP p \<noteq> ''0.0.0.0'' then '' ip daddr '' @ pr_SourceIP p else [])
     @ '' '' @ pr_Protocol p @ '' dport '' @ pr_SourcePort p @ '' dnat to '' @ port_target p"

definition nft_postrouting :: "PortRule \<Rightarrow> string list" where
  "nft_postrouting p =
     (let target = pr_TargetIP p @ '' '' @ pr_Protocol p @ '' dport '' @ pr_TargetPort p @ '' masquerade'' in
      (if pr_Bridge p \<noteq> []
       then [''  iifname '' @ quote_plain (pr_Bridge p) @ '' oifname '' @ quote_plain (pr_Bridge p) @ '' ip daddr '' @ target]
       else [])
      @ [''  ip saddr '' @ pr_TargetIP p @ '' ip daddr '' @ target,
         (if pr_MasqueradeDNAT p then ''  ct status dnat ip daddr '' @ target
          else ''  fib saddr type local ct status dnat ip daddr '' @ target)])"

definition nft_forward :: "forwardNetwork \<Rightarrow> string list" where
  "nft_forward n =
     [''  iifname '' @ quote_plain (fn_Bridge n) @ '' ip saddr '' @ fn_Subnet n
        @ '' ct state new,established,related meta mark set meta mark | 0x1068 accept'',
      ''  oifname '' @ quote_plain (fn_Bridge n) @ '' ip daddr '' @ fn_Subnet n
        @ '' ct state established,related meta mark set meta mark | 0x1068 accept'']"

definition nft_shared :: "forwardNetwork \<Rightarrow> string" where
  "nft_shared n = ''  oifname '' @ quote_plain (fn_Bridge n) @ '' ip saddr '' @ fn_Subnet n @ '' ip daddr '' @ fn_Subnet n
     @ '' ct state new,established,related meta mark set meta mark | 0x1068 accept''"

definition nft_peer :: "forwardPair \<Rightarrow> string" where
  "nft_peer p = ''  oifname '' @ quote_plain (fp_Bridge p) @ '' ip saddr '' @ fp_Peer p @ '' ip daddr '' @ fp_Local p
     @ '' meta mark set meta mark | 0x1068 accept''"

definition nft_admit :: "PortRule \<Rightarrow> string" where
  "nft_admit p = ''  ct status dnat ip daddr '' @ pr_TargetIP p @ '' '' @ pr_Protocol p @ '' dport '' @ pr_TargetPort p
     @ '' meta mark set meta mark | 0x1068 accept''"

text \<open>The five chains of the table: header line, and the rules of each.\<close>

definition nft_chain_header :: "string gomap" where
  "nft_chain_header =
     [(''raw_prerouting'', ''  type filter hook prerouting priority -300; policy accept;''),
      (''prerouting'', ''  type nat hook prerouting priority -101; policy accept;''),
      (''output'', ''  type nat hook output priority -101; policy accept;''),
      (''postrouting'', ''  type nat hook postrouting priority 99; policy accept;''),
      (''forward'', ''  type filter hook forward priority -1; policy accept;'')]"

definition nft_chain_rules :: "ruleSet \<Rightarrow> string \<Rightarrow> string list" where
  "nft_chain_rules rules chain =
     (if chain = ''raw_prerouting'' then map nft_guard (sortedEnabledBridges (rs_RouteLocalnetBridges rules))
      else if chain = ''prerouting'' then concat (map nft_prerouting (sorted_ports rules))
      else if chain = ''output'' then map nft_output (sorted_ports rules)
      else if chain = ''postrouting'' then concat (map nft_postrouting (sorted_ports rules))
      else if chain = ''forward'' then
        concat (map nft_forward (sortedForwardNetworks rules)) @ map nft_shared (sortedSharedIngressNetworks rules)
        @ map nft_peer (sortedForwardPeers rules) @ map nft_admit (sorted_ports rules)
        @ [''  meta mark & 0x1068 == 0x1068 accept'', ''  meta mark 0x4000 accept'']
      else [])"

definition nft_chain :: "ruleSet \<Rightarrow> string \<times> string \<Rightarrow> string list" where
  "nft_chain rules c = ['' chain '' @ fst c @ '' {'', snd c] @ nft_chain_rules rules (fst c) @ ['' }'']"

definition nftHostportBatch :: "ruleSet \<Rightarrow> bool \<Rightarrow> string" where
  "nftHostportBatch rules existing =
     unlines ((if existing then [''delete table ip '' @ nftHostportsTable] else [])
       @ [''table ip '' @ nftHostportsTable @ '' {''] @ concat (map (nft_chain rules) nft_chain_header) @ [''}''])"

section \<open>Rendering does not depend on map order\<close>

lemma sort_set_eq:
  "distinct xs \<Longrightarrow> distinct ys \<Longrightarrow> set xs = set ys \<Longrightarrow> sort xs = sort (ys :: 'a :: linorder list)"
  by (rule sorted_distinct_set_unique) auto

lemma mget_meq: "meq m m' \<Longrightarrow> mget d m = mget d m'"
  by (rule ext) (simp add: mget_def meq_iff)

lemma sorted_keys_meq:
  assumes "meq m m'" "wf_map m" "wf_map m'"
  shows "sorted_keys m = sorted_keys m'"
proof -
  have "fst ` set m = fst ` set m'" using assms(1) by (metis dom_map_of_conv_image_fst meq_iff)
  then show ?thesis using assms(2,3) unfolding sorted_keys_def wf_map_def by (intro sort_set_eq) simp_all
qed

lemma sorted_enabled_meq:
  assumes "meq m m'" "wf_map m" "wf_map m'"
  shows "sortedEnabledBridges m = sortedEnabledBridges m'"
proof -
  have d: "distinct (map fst (filter snd x))" if "wf_map x" for x :: "bool gomap"
    using that unfolding wf_map_def by (simp add: distinct_map_filter)
  have s: "set (map fst (filter snd x)) = {k. map_of x k = Some True}" if "wf_map x" for x :: "bool gomap"
    using map_of_in_set [OF that] by force
  have "map_of m = map_of m'" using assms(1) by (simp add: meq_iff)
  then show ?thesis unfolding sortedEnabledBridges_def
    using s [OF assms(2)] s [OF assms(3)] by (intro sort_set_eq d assms) simp
qed

lemma entries_meq: "opt_meq m m' \<Longrightarrow> meq (entries m) (entries m')"
  by (cases m; cases m') (auto simp: entries_def)

lemma forward_loop_cong:
  "(\<And>k. network_of r k = network_of r' k) \<Longrightarrow> forward_loop r seen keys = forward_loop r' seen keys"
  by (induction keys arbitrary: seen) (auto simp: Let_def)

lemma sorted_views_eq:
  assumes "ruleset_eq r r'" "wf_ruleset r" "wf_ruleset r'"
  shows "sortedEnabledBridges (rs_RouteLocalnetBridges r) = sortedEnabledBridges (rs_RouteLocalnetBridges r')"
    and "sorted_ports r = sorted_ports r'"
    and "sortedForwardNetworks r = sortedForwardNetworks r'"
    and "sortedSharedIngressNetworks r = sortedSharedIngressNetworks r'"
    and "sortedForwardPeers r = sortedForwardPeers r'"
proof -
  have eqs: "meq (rs_Ports r) (rs_Ports r')" "meq (rs_ForwardSubnets r) (rs_ForwardSubnets r')"
      "meq (rs_ForwardBridges r) (rs_ForwardBridges r')" "meq (entries (rs_ForwardPeers r)) (entries (rs_ForwardPeers r'))"
      "meq (entries (rs_SharedIngress r)) (entries (rs_SharedIngress r'))"
      "meq (rs_RouteLocalnetBridges r) (rs_RouteLocalnetBridges r')"
    using assms(1) by (simp_all add: ruleset_eq_def entries_meq)
  have wf: "wf_map (rs_Ports x)" "wf_map (rs_ForwardSubnets x)" "wf_map (entries (rs_ForwardPeers x))"
      "wf_map (rs_RouteLocalnetBridges x)" if "wf_ruleset x" for x
    using that by (simp_all add: wf_ruleset_def)
  note wfs = wf [OF assms(2)] wf [OF assms(3)]
  note gets = eqs [THEN mget_meq]
  show "sortedEnabledBridges (rs_RouteLocalnetBridges r) = sortedEnabledBridges (rs_RouteLocalnetBridges r')"
    using eqs(6) wfs by (intro sorted_enabled_meq)
  show "sorted_ports r = sorted_ports r'"
    unfolding sorted_ports_def gets(1) sorted_keys_meq [OF eqs(1) wfs(1,5)] ..
  have n: "network_of r = network_of r'"
    by (rule ext) (simp add: network_of_def gets(2,3))
  show f: "sortedForwardNetworks r = sortedForwardNetworks r'"
    unfolding sortedForwardNetworks_def sorted_keys_meq [OF eqs(2) wfs(2,6)]
    by (rule forward_loop_cong) (simp add: n)
  show "sortedSharedIngressNetworks r = sortedSharedIngressNetworks r'"
    unfolding sortedSharedIngressNetworks_def f gets(5) ..
  show "sortedForwardPeers r = sortedForwardPeers r'"
    unfolding sortedForwardPeers_def gets(2,3,4) sorted_keys_meq [OF eqs(4) wfs(3,7)] ..
qed

text \<open>Rendering is a function of the rule set, not of Go's map iteration order: two rule sets that
  \<open>reflect.DeepEqual\<close> considers equal give the same \<open>iptables-restore\<close> input and the same nft
  batch, so an unchanged configuration is rewritten byte for byte.\<close>

theorem rendering_deterministic:
  assumes "ruleset_eq r r'" and "wf_ruleset r" and "wf_ruleset r'"
  shows "apply_text r = apply_text r' \<and> nftHostportBatch r existing = nftHostportBatch r' existing"
  using sorted_views_eq [OF assms]
  by (simp add: apply_text_def nftHostportBatch_def nft_chain_def nft_chain_rules_def nft_chain_header_def)

definition ex_port :: PortRule where
  "ex_port = \<lparr>pr_Bridge = ''docker0'', pr_SourceIP = ''0.0.0.0'', pr_SourcePort = ''80'', pr_TargetIP = ''10.42.0.2'',
     pr_TargetPort = ''8080'', pr_Protocol = ''tcp'', pr_MasqueradeDNAT = False\<rparr>"

definition ex_rules :: ruleSet where
  "ex_rules = \<lparr>rs_Ports = [(''c1/0.0.0.0:80:8080'', ex_port), (''a/b'', ex_port\<lparr>pr_SourcePort := ''81''\<rparr>)],
     rs_ForwardSubnets = [(''n1'', ''10.42.0.0/16'')], rs_ForwardBridges = [(''n1'', ''docker0'')],
     rs_ForwardPeers = Some [(''n1'', [''10.43.0.0/16''])], rs_SharedIngress = None,
     rs_RouteLocalnetBridges = [(''docker0'', True)]\<rparr>"

theorem rendering_deterministic_witness:
  "apply_text ex_rules = apply_text (ex_rules\<lparr>rs_Ports := rev (rs_Ports ex_rules)\<rparr>)"
proof -
  have "ruleset_eq ex_rules (ex_rules\<lparr>rs_Ports := rev (rs_Ports ex_rules)\<rparr>)" by code_simp
  moreover have "wf_ruleset ex_rules" "wf_ruleset (ex_rules\<lparr>rs_Ports := rev (rs_Ports ex_rules)\<rparr>)" by code_simp+
  ultimately show ?thesis using rendering_deterministic by blast
qed

section \<open>Validated rule sets cannot inject rules\<close>

text \<open>Characters with a meaning of their own to nft or to the shell-like rule parsers.\<close>

definition special :: "char \<Rightarrow> bool" where
  "special c \<longleftrightarrow> c = CHR 0x0A \<or> c = CHR 0x0D \<or> c = CHR '';'' \<or> c = CHR ''{'' \<or> c = CHR ''}'' \<or> c = CHR ''#''
     \<or> c = CHR ''$'' \<or> c = CHR ''@'' \<or> c = CHR 0x5C"

definition clean :: "string \<Rightarrow> bool" where
  "clean s \<longleftrightarrow> (\<forall>c \<in> set s. \<not> special c)"

lemma clean_append [simp]: "clean (s @ t) \<longleftrightarrow> clean s \<and> clean t"
  by (auto simp: clean_def)

lemma clean_Nil [simp]: "clean []"
  by (simp add: clean_def)

lemma clean_Cons [simp]: "clean (c # s) \<longleftrightarrow> \<not> special c \<and> clean s"
  by (simp add: clean_def)

lemma alnum_not_special: "is_alnum c \<Longrightarrow> \<not> special c"
  by (auto simp: is_alnum_def is_lower_def is_upper_def is_digit_def special_def less_eq_char_def)

lemma cidr_char_not_special: "cidr_char c \<Longrightarrow> \<not> special c"
  using alnum_not_special by (auto simp: cidr_char_def addr_char_def is_alnum_def) (auto simp: special_def)

lemma bridge_char_not_special: "bridge_char c \<Longrightarrow> \<not> special c"
  using alnum_not_special by (auto simp: bridge_char_def) (simp_all add: special_def)

lemma bridge_clean: "validateBridgeName b = Inr () \<Longrightarrow> clean b"
  using bridge_char_not_special
  by (simp add: validateBridgeName_def clean_def list_all_iff split: if_splits)

lemma clean_cidr: "(\<And>c. c \<in> set s \<Longrightarrow> cidr_char c) \<Longrightarrow> clean s"
  using cidr_char_not_special by (simp add: clean_def)

lemma validPort_clean: "validPort p \<Longrightarrow> clean p"
proof (rule clean_cidr)
  fix c
  assume "validPort p" "c \<in> set p"
  then obtain n where "atoi p = Some n" by (auto simp: validPort_def split: if_splits option.splits)
  from atoi_chars [OF this] \<open>c \<in> set p\<close> show "cidr_char c" by (auto simp: cidr_char_def addr_char_def)
qed

lemma addr4_clean: "valid_addr4 s \<Longrightarrow> clean s"
proof (rule clean_cidr)
  fix c
  assume "valid_addr4 s" "c \<in> set s"
  then obtain a where "parse_addr s = Some (V4 a)" by (auto simp: valid_addr4_def split: option.splits addr.splits)
  from parse_ipv4_chars [OF parse_addr_V4 [OF this] \<open>c \<in> set s\<close>] show "cidr_char c" by (simp add: cidr_char_def)
qed

lemma subnet4_clean: "valid_subnet4 s \<Longrightarrow> clean s"
proof (rule clean_cidr)
  fix c
  assume "valid_subnet4 s" "c \<in> set s"
  then show "cidr_char c" using parse_prefix4_chars by (auto simp: valid_subnet4_def split: option.splits)
qed

lemma validatePortRule_clean:
  assumes "validatePortRule p = Inr ()"
  shows "clean (pr_Bridge p)" "clean (pr_SourceIP p)" "clean (pr_SourcePort p)" "clean (pr_TargetIP p)"
    "clean (pr_TargetPort p)" "clean (pr_Protocol p)"
proof -
  note h = assms [unfolded validatePortRule_ok]
  show "clean (pr_Bridge p)" using h bridge_clean by (cases "pr_Bridge p = []") auto
  show "clean (pr_SourceIP p)" "clean (pr_TargetIP p)" using h addr4_clean by auto
  show "clean (pr_SourcePort p)" "clean (pr_TargetPort p)" using h validPort_clean by auto
  show "clean (pr_Protocol p)" using h by (auto simp: special_def)
qed

lemma validateRuleSet_ok:
  assumes "validateRuleSet r = Inr ()"
  shows "\<forall>(k, p) \<in> set (rs_Ports r). validatePortRule p = Inr ()"
    and "\<forall>(k, s) \<in> set (rs_ForwardSubnets r). valid_subnet4 s \<and> validateBridgeName (mget [] (rs_ForwardBridges r) k) = Inr ()"
    and "\<forall>(k, ps) \<in> set (entries (rs_ForwardPeers r)). k \<in> set (map fst (rs_ForwardSubnets r)) \<and> (\<forall>p \<in> set ps. valid_subnet4 p)"
    and "\<forall>(b, e) \<in> set (rs_RouteLocalnetBridges r). validateBridgeName b = Inr ()"
proof -
  note h = assms [unfolded validateRuleSet_def bindR_eq_Inr checkR_ok]
  show "\<forall>(k, p) \<in> set (rs_Ports r). validatePortRule p = Inr ()" using h by auto
  show "\<forall>(k, s) \<in> set (rs_ForwardSubnets r). valid_subnet4 s \<and> validateBridgeName (mget [] (rs_ForwardBridges r) k) = Inr ()"
    using h by (auto simp: checkR_ok)
  have in_dom: "k \<in> set (map fst (rs_ForwardSubnets r))" if "mget [] (rs_ForwardSubnets r) k \<noteq> []" for k
    using that by (auto simp: mget_def split: option.splits dest: map_of_SomeD intro: rev_image_eqI)
  then show "\<forall>(k, ps) \<in> set (entries (rs_ForwardPeers r)). k \<in> set (map fst (rs_ForwardSubnets r)) \<and> (\<forall>p \<in> set ps. valid_subnet4 p)"
    using h by (fastforce simp: checkR_ok)
  show "\<forall>(b, e) \<in> set (rs_RouteLocalnetBridges r). validateBridgeName b = Inr ()" using h by (auto simp: checkR_ok)
qed

lemma sorted_ports_valid:
  assumes "validateRuleSet r = Inr ()" and "p \<in> set (sorted_ports r)"
  shows "validatePortRule p = Inr ()"
proof -
  from assms(2) obtain k where k: "k \<in> set (map fst (rs_Ports r))" "p = mget zero_PortRule (rs_Ports r) k"
    by (auto simp: sorted_ports_def)
  have "(k, p) \<in> set (rs_Ports r)" unfolding k(2) using k(1) by (rule mget_in)
  then show ?thesis using validateRuleSet_ok(1) [OF assms(1)] by auto
qed

lemma forward_loop_sound: "n \<in> set (forward_loop r seen keys) \<Longrightarrow> \<exists>k \<in> set keys. n = network_of r k"
  by (induction keys arbitrary: seen) (auto simp: Let_def split: if_splits)

lemma network_of_clean:
  assumes "validateRuleSet r = Inr ()" and "k \<in> set (map fst (rs_ForwardSubnets r))"
  shows "clean (mget [] (rs_ForwardBridges r) k)" "clean (mget [] (rs_ForwardSubnets r) k)"
  using validateRuleSet_ok(2) [OF assms(1)] mget_in [OF assms(2), of "[]"] bridge_clean subnet4_clean by auto

lemma forward_networks_clean:
  assumes "validateRuleSet r = Inr ()" and "n \<in> set (sortedForwardNetworks r)"
  shows "clean (fn_Bridge n)" "clean (fn_Subnet n)"
proof -
  from assms(2) obtain k where k: "k \<in> set (map fst (rs_ForwardSubnets r))" "n = network_of r k"
    using forward_loop_sound [of n r "[]" "sorted_keys (rs_ForwardSubnets r)"] by (auto simp: sortedForwardNetworks_def)
  with network_of_clean [OF assms(1) k(1)] show "clean (fn_Bridge n)" "clean (fn_Subnet n)"
    by (simp_all add: network_of_def)
qed

lemma forward_peers_clean:
  assumes "validateRuleSet r = Inr ()" and "p \<in> set (sortedForwardPeers r)"
  shows "clean (fp_Bridge p)" "clean (fp_Peer p)" "clean (fp_Local p)"
proof -
  from assms(2) obtain k q where k: "k \<in> set (map fst (entries (rs_ForwardPeers r)))"
    and q: "q \<in> set (mget [] (entries (rs_ForwardPeers r)) k)"
    and p: "p = \<lparr>fp_Peer = q, fp_Local = mget [] (rs_ForwardSubnets r) k, fp_Bridge = mget [] (rs_ForwardBridges r) k\<rparr>"
    by (auto simp: sortedForwardPeers_def)
  have "k \<in> set (map fst (rs_ForwardSubnets r))" "valid_subnet4 q"
    using validateRuleSet_ok(3) [OF assms(1)] mget_in [OF k, of "[]"] q by auto
  then show "clean (fp_Bridge p)" "clean (fp_Peer p)" "clean (fp_Local p)"
    using network_of_clean [OF assms(1)] subnet4_clean by (simp_all add: p)
qed

lemma bridges_clean: "validateRuleSet r = Inr () \<Longrightarrow> b \<in> set (sortedEnabledBridges (rs_RouteLocalnetBridges r)) \<Longrightarrow> clean b"
  using validateRuleSet_ok(4) [of r] bridge_clean by (auto simp: sortedEnabledBridges_def)

lemmas shape_defs = iptables_rules_def port_prefix_def port_target_def raw_guard_def forward_rules_def shared_rule_def
  peer_rule_def admit_rule_def nftPortMatch_def nft_guard_def nft_prerouting_def nft_output_def nft_postrouting_def
  nft_forward_def nft_shared_def nft_peer_def nft_admit_def quote_plain_def Let_def

lemma port_lines_clean:
  assumes "validatePortRule p = Inr ()"
  shows "\<forall>l \<in> set (iptables_rules p). clean l" "\<forall>l \<in> set (nft_prerouting p). clean l" "clean (nft_output p)"
    "\<forall>l \<in> set (nft_postrouting p). clean l" "clean (nft_admit p)" "clean (admit_rule p)"
  using validatePortRule_clean [OF assms] by (simp_all add: shape_defs special_def)

lemma network_lines_clean:
  "clean (fn_Bridge n) \<Longrightarrow> clean (fn_Subnet n) \<Longrightarrow>
    (\<forall>l \<in> set (forward_rules n). clean l) \<and> clean (shared_rule n) \<and> (\<forall>l \<in> set (nft_forward n). clean l) \<and> clean (nft_shared n)"
  "clean (fp_Bridge q) \<Longrightarrow> clean (fp_Peer q) \<Longrightarrow> clean (fp_Local q) \<Longrightarrow> clean (peer_rule q) \<and> clean (nft_peer q)"
  "clean b \<Longrightarrow> clean (raw_guard b) \<and> clean (nft_guard b)"
  by (simp_all add: shape_defs special_def)

lemma nft_chain_rules_clean:
  assumes "validateRuleSet r = Inr ()" and "l \<in> set (nft_chain_rules r chain)"
  shows "clean l"
proof -
  note ports = port_lines_clean [OF sorted_ports_valid [OF assms(1)]]
  have nets: "(\<forall>l \<in> set (nft_forward n). clean l) \<and> clean (nft_shared n)" if "n \<in> set (sortedForwardNetworks r)" for n
    using network_lines_clean(1) forward_networks_clean [OF assms(1) that] by blast
  have peers: "clean (nft_peer q)" if "q \<in> set (sortedForwardPeers r)" for q
    using network_lines_clean(2) forward_peers_clean [OF assms(1) that] by blast
  have guards: "clean (nft_guard b)" if "b \<in> set (sortedEnabledBridges (rs_RouteLocalnetBridges r))" for b
    using network_lines_clean(3) bridges_clean [OF assms(1) that] by blast
  have fin: "clean ''  meta mark & 0x1068 == 0x1068 accept''" "clean ''  meta mark 0x4000 accept''"
    by (simp_all add: special_def)
  show ?thesis
    using assms(2) ports nets peers guards fin
    by (auto simp: nft_chain_rules_def sortedSharedIngressNetworks_def simp del: clean_Cons split: if_splits)
qed

lemma str_lines_unlines: "\<forall>l \<in> set ls. CHR 0x0A \<notin> set l \<Longrightarrow> str_lines (unlines ls) = ls @ [[]]"
  by (induction ls) (auto simp: str_lines_def unlines_def str_split_append)

lemma clean_no_nl: "clean l \<Longrightarrow> CHR 0x0A \<notin> set l"
  by (auto simp: clean_def special_def)

lemma nft_batch_lines:
  assumes "validateRuleSet rules = Inr ()"
  shows "str_lines (nftHostportBatch rules existing) =
    (if existing then [''delete table ip pasturestack_hostports''] else []) @ [''table ip pasturestack_hostports {'']
    @ concat (map (nft_chain rules) nft_chain_header) @ [''}'', []]"
proof -
  have "\<forall>l \<in> set (concat (map (nft_chain rules) nft_chain_header)). CHR 0x0A \<notin> set l"
    using clean_no_nl [OF nft_chain_rules_clean [OF assms]] by (auto simp: nft_chain_def nft_chain_header_def)
  then have "str_lines (nftHostportBatch rules existing) =
      ((if existing then [''delete table ip pasturestack_hostports''] else []) @ [''table ip pasturestack_hostports {'']
        @ concat (map (nft_chain rules) nft_chain_header) @ [''}'']) @ [[]]"
    unfolding nftHostportBatch_def by (subst str_lines_unlines) auto
  then show ?thesis by simp
qed

lemma nft_guard_in_batch:
  assumes "validateRuleSet rules = Inr ()" and "b \<in> set (sortedEnabledBridges (rs_RouteLocalnetBridges rules))"
  shows "nft_guard b \<in> set (str_lines (nftHostportBatch rules existing))"
  using assms(2) by (auto simp: nft_batch_lines [OF assms(1)] nft_chain_header_def nft_chain_def nft_chain_rules_def)

text \<open>C6: No host-supplied text can add, split or comment out a rule of the native batch: for a validated
  rule set every rule is free of newlines, statement separators, braces, comment, variable and set
  characters, and the batch splits into exactly the lines it was assembled from.\<close>

theorem nft_batch_no_injection:
  assumes "validateRuleSet rules = Inr ()"
  shows "(\<forall>chain l c. l \<in> set (nft_chain_rules rules chain) \<and> c \<in> set l \<longrightarrow> \<not> special c)
    \<and> str_lines (nftHostportBatch rules existing) =
        (if existing then [''delete table ip pasturestack_hostports''] else []) @ [''table ip pasturestack_hostports {'']
        @ concat (map (nft_chain rules) nft_chain_header) @ [''}'', []]"
  using nft_batch_lines [OF assms] nft_chain_rules_clean [OF assms] unfolding clean_def by blast

theorem nft_batch_no_injection_witness:
  "validateRuleSet ex_rules = Inr ()
   \<and> length (str_lines (nftHostportBatch ex_rules True)) = 39"
proof -
  have v: "validateRuleSet ex_rules = Inr ()" by code_simp
  have "length (concat (map (nft_chain ex_rules) nft_chain_header)) = 35" by code_simp
  then show ?thesis using nft_batch_no_injection [OF v, of True] v by simp
qed

section \<open>The iptables-restore input\<close>

definition apply_lines :: "ruleSet \<Rightarrow> string list" where
  "apply_lines rules =
     [''*raw'', '':CATTLE_HOSTPORTS_RAW -'', ''-F CATTLE_HOSTPORTS_RAW'']
     @ map raw_guard (sortedEnabledBridges (rs_RouteLocalnetBridges rules))
     @ [''COMMIT'', [], ''*nat'', '':CATTLE_PREROUTING -'', '':CATTLE_POSTROUTING -'', '':CATTLE_OUTPUT -'',
        '':CATTLE_HOSTPORTS_POSTROUTING -'', ''-F CATTLE_PREROUTING'', ''-F CATTLE_POSTROUTING'',
        ''-F CATTLE_OUTPUT'', ''-F CATTLE_HOSTPORTS_POSTROUTING'', []]
     @ concat (map iptables_rules (sorted_ports rules))
     @ [''COMMIT'', [], ''*filter'', '':CATTLE_FORWARD -'', ''-F CATTLE_FORWARD'']
     @ concat (map forward_rules (sortedForwardNetworks rules))
     @ map shared_rule (sortedSharedIngressNetworks rules)
     @ map peer_rule (sortedForwardPeers rules)
     @ map admit_rule (sorted_ports rules)
     @ [''-A CATTLE_FORWARD -m mark --mark 0x1068 -j ACCEPT'', ''-A CATTLE_FORWARD -m mark --mark 0x4000 -j ACCEPT'',
        [], ''COMMIT'']"

lemma unlines_append: "unlines (a @ b) = unlines a @ unlines b"
  by (simp add: unlines_def)

lemma join_unlines: "ls \<noteq> [] \<Longrightarrow> str_join nl ls @ nl = unlines ls"
  by (induction "nl" ls rule: str_join.induct) (auto simp: unlines_def)

lemma ports_text: "concat (map (\<lambda>p. nl @ iptables p) ps) @ nl = nl @ unlines (concat (map iptables_rules ps))"
proof (induction ps)
  case (Cons p ps)
  have "iptables p @ nl = unlines (iptables_rules p)"
    unfolding iptables_def by (rule join_unlines) (simp add: iptables_rules_def)
  with Cons show ?case by (simp add: unlines_append)
qed (simp add: unlines_def)

lemma apply_text_lines: "apply_text rules = unlines (apply_lines rules)"
proof -
  have "apply_text rules = unlines ([''*raw'', '':CATTLE_HOSTPORTS_RAW -'', ''-F CATTLE_HOSTPORTS_RAW'']
       @ map raw_guard (sortedEnabledBridges (rs_RouteLocalnetBridges rules))
       @ [''COMMIT'', [], ''*nat'', '':CATTLE_PREROUTING -'', '':CATTLE_POSTROUTING -'', '':CATTLE_OUTPUT -'',
          '':CATTLE_HOSTPORTS_POSTROUTING -'', ''-F CATTLE_PREROUTING'', ''-F CATTLE_POSTROUTING'',
          ''-F CATTLE_OUTPUT'', ''-F CATTLE_HOSTPORTS_POSTROUTING''])
     @ (concat (map (\<lambda>p. nl @ iptables p) (sorted_ports rules)) @ nl)
     @ unlines ([''COMMIT'', [], ''*filter'', '':CATTLE_FORWARD -'', ''-F CATTLE_FORWARD'']
       @ concat (map forward_rules (sortedForwardNetworks rules))
       @ map shared_rule (sortedSharedIngressNetworks rules)
       @ map peer_rule (sortedForwardPeers rules)
       @ map admit_rule (sorted_ports rules)
       @ [''-A CATTLE_FORWARD -m mark --mark 0x1068 -j ACCEPT'', ''-A CATTLE_FORWARD -m mark --mark 0x4000 -j ACCEPT'',
          [], ''COMMIT''])"
    by (simp add: apply_text_def)
  moreover have "nl = unlines [[]]" by (simp add: unlines_def)
  ultimately show ?thesis unfolding ports_text apply_lines_def
    by (simp only: unlines_append [symmetric] append_assoc append_Cons append_Nil)
qed

lemma apply_lines_clean:
  assumes "validateRuleSet r = Inr ()" and "l \<in> set (apply_lines r)"
  shows "clean l"
proof -
  note ports = port_lines_clean [OF sorted_ports_valid [OF assms(1)]]
  have nets: "(\<forall>l \<in> set (forward_rules n). clean l) \<and> clean (shared_rule n)" if "n \<in> set (sortedForwardNetworks r)" for n
    using network_lines_clean(1) forward_networks_clean [OF assms(1) that] by blast
  have peers: "clean (peer_rule q)" if "q \<in> set (sortedForwardPeers r)" for q
    using network_lines_clean(2) forward_peers_clean [OF assms(1) that] by blast
  have guards: "clean (raw_guard b)" if "b \<in> set (sortedEnabledBridges (rs_RouteLocalnetBridges r))" for b
    using network_lines_clean(3) bridges_clean [OF assms(1) that] by blast
  from assms(2) have "l \<in> set (map raw_guard (sortedEnabledBridges (rs_RouteLocalnetBridges r)))
      \<or> l \<in> set (concat (map iptables_rules (sorted_ports r)) @ map admit_rule (sorted_ports r))
      \<or> l \<in> set (concat (map forward_rules (sortedForwardNetworks r)) @ map shared_rule (sortedSharedIngressNetworks r))
      \<or> l \<in> set (map peer_rule (sortedForwardPeers r))
      \<or> clean l"
    unfolding apply_lines_def set_append Un_iff by (auto simp: special_def)
  then show ?thesis using ports nets peers guards
    by (auto simp: sortedSharedIngressNetworks_def simp del: clean_Cons)
qed

lemma apply_text_split:
  "validateRuleSet rules = Inr () \<Longrightarrow> str_lines (apply_text rules) = apply_lines rules @ [[]]"
  unfolding apply_text_lines using apply_lines_clean clean_no_nl by (intro str_lines_unlines) blast

lemma raw_guard_in_text:
  assumes "validateRuleSet rules = Inr ()" and "b \<in> set (sortedEnabledBridges (rs_RouteLocalnetBridges rules))"
  shows "raw_guard b \<in> set (str_lines (apply_text rules))"
  using assms(2) by (simp add: apply_text_split [OF assms(1)] apply_lines_def)

text \<open>C7: The same for the xtables frontends: for a validated rule set the \<open>iptables-restore\<close> input splits
  into exactly the assembled lines, six per published port plus the guard, forward, shared-ingress,
  peer and admit rules, and none of them contains a character that could end or comment out a
  rule.\<close>

theorem apply_text_no_injection:
  assumes "validateRuleSet rules = Inr ()"
  shows "str_lines (apply_text rules) = apply_lines rules @ [[]]
    \<and> (\<forall>l c. l \<in> set (apply_lines rules) \<and> c \<in> set l \<longrightarrow> \<not> special c)
    \<and> length (concat (map iptables_rules (sorted_ports rules))) = 6 * length (rs_Ports rules)"
proof -
  have "str_lines (apply_text rules) = apply_lines rules @ [[]]" by (rule apply_text_split [OF assms])
  moreover have "length (concat (map iptables_rules ps)) = 6 * length ps" for ps
    by (induction ps) (simp_all add: iptables_rules_def)
  moreover have "length (sorted_ports rules) = length (rs_Ports rules)"
    by (simp add: sorted_ports_def sorted_keys_def)
  ultimately show ?thesis using apply_lines_clean [OF assms] by (auto simp: clean_def)
qed

theorem apply_text_no_injection_witness:
  "validateRuleSet ex_rules = Inr () \<and> str_lines (apply_text ex_rules) = apply_lines ex_rules @ [[]]
   \<and> length (apply_lines ex_rules) = 42"
proof -
  have v: "validateRuleSet ex_rules = Inr ()" "length (apply_lines ex_rules) = 42" by code_simp+
  then show ?thesis using apply_text_no_injection [OF v(1)] by simp
qed

section \<open>The counts checkNFTRules expects\<close>

definition bump :: "string \<Rightarrow> int gomap \<Rightarrow> int gomap" where
  "bump name m = mput name (mget 0 m name + 1) m"

definition count_port :: "int gomap \<Rightarrow> string \<times> PortRule \<Rightarrow> int gomap" where
  "count_port m kp =
     (let m1 = bump ''prerouting'' m;
          m2 = (if pr_Bridge (snd kp) \<noteq> [] then bump ''postrouting'' (bump ''prerouting'' m1) else m1)
      in bump ''postrouting'' (bump ''postrouting'' (bump ''output'' m2)))"

definition nft_rule_count :: "ruleSet \<Rightarrow> int gomap" where
  "nft_rule_count applied =
     (let m0 = mput ''raw_prerouting'' (int (length (sortedEnabledBridges (rs_RouteLocalnetBridges applied)))) [];
          m1 = foldl count_port m0 (rs_Ports applied)
      in mput ''forward'' (2 + 2 * int (length (sortedForwardNetworks applied))
           + int (length (sortedSharedIngressNetworks applied)) + int (length (sortedForwardPeers applied))
           + int (length (rs_Ports applied))) m1)"

lemma mget_bump: "mget 0 (bump n m) k = mget 0 m k + (if k = n then 1 else 0)"
  by (simp add: bump_def)

lemma mget_singleton: "mget d [(n, v)] k = (if k = n then v else d)"
  by (simp add: mget_def)

lemma count_port_get:
  "mget 0 (count_port m kp) k = mget 0 m k
    + (if k = ''prerouting'' then int (length (nft_prerouting (snd kp))) else 0)
    + (if k = ''output'' then 1 else 0)
    + (if k = ''postrouting'' then int (length (nft_postrouting (snd kp))) else 0)"
  by (simp add: count_port_def mget_bump Let_def nft_prerouting_def nft_postrouting_def)

lemma count_ports_get:
  "mget 0 (foldl count_port m ps) k = mget 0 m k
    + (if k = ''prerouting'' then int (sum_list (map (length \<circ> nft_prerouting \<circ> snd) ps)) else 0)
    + (if k = ''output'' then int (length ps) else 0)
    + (if k = ''postrouting'' then int (sum_list (map (length \<circ> nft_postrouting \<circ> snd) ps)) else 0)"
  by (induction ps arbitrary: m) (simp_all add: count_port_get)

lemma length_concat_ports:
  "wf_map (rs_Ports r) \<Longrightarrow>
    length (concat (map f (sorted_ports r))) = sum_list (map (length \<circ> f \<circ> snd) (rs_Ports r))"
  using length_emit_sorted [of "rs_Ports r" zero_PortRule f]
  by (simp add: emit_sorted_def sorted_ports_def comp_def)

lemma length_sorted_ports: "length (sorted_ports r) = length (rs_Ports r)"
  by (simp add: sorted_ports_def sorted_keys_def)

text \<open>C10: The periodic check looks for the right number of rules: for every chain of the table, the count
  \<open>checkNFTRules\<close> computes from the applied rule set is the number of rules the batch puts into
  that chain.\<close>

theorem nft_rule_count_exact:
  assumes "wf_map (rs_Ports rules)" and "chain \<in> set (map fst nft_chain_header)"
  shows "mget 0 (nft_rule_count rules) chain = int (length (nft_chain_rules rules chain))"
proof -
  have fwd: "length (concat (map nft_forward ns)) = 2 * length ns" for ns
    by (induction ns) (simp_all add: nft_forward_def)
  note ports = length_concat_ports [OF assms(1)] length_sorted_ports
  have "chain = ''raw_prerouting'' \<or> chain = ''prerouting'' \<or> chain = ''output''
      \<or> chain = ''postrouting'' \<or> chain = ''forward''"
    using assms(2) by (simp add: nft_chain_header_def)
  then show ?thesis
  proof (elim disjE)
    assume "chain = ''raw_prerouting''"
    then show ?thesis by (simp add: mget_singleton nft_rule_count_def Let_def count_ports_get nft_chain_rules_def)
  next
    assume "chain = ''prerouting''"
    then show ?thesis by (simp add: mget_singleton nft_rule_count_def Let_def count_ports_get nft_chain_rules_def ports)
  next
    assume "chain = ''output''"
    then show ?thesis by (simp add: mget_singleton nft_rule_count_def Let_def count_ports_get nft_chain_rules_def ports(2))
  next
    assume "chain = ''postrouting''"
    then show ?thesis by (simp add: mget_singleton nft_rule_count_def Let_def count_ports_get nft_chain_rules_def ports)
  next
    assume "chain = ''forward''"
    then show ?thesis by (simp add: nft_rule_count_def Let_def nft_chain_rules_def fwd ports(2))
  qed
qed

theorem nft_rule_count_exact_witness:
  "mget 0 (nft_rule_count ex_rules) ''postrouting'' = int (length (nft_chain_rules ex_rules ''postrouting''))
   \<and> length (nft_chain_rules ex_rules ''postrouting'') = 6"
proof -
  have "wf_map (rs_Ports ex_rules)" "''postrouting'' \<in> set (map fst nft_chain_header)"
    "length (nft_chain_rules ex_rules ''postrouting'') = 6" by code_simp+
  then show ?thesis using nft_rule_count_exact by blast
qed

end
