(* ===== verification/HostNatRules.thy ===== *)
theory HostNatRules
  imports HostPortRender
begin

text \<open>
  The rules of the outbound NAT watcher (\<open>src/hostnat/watcher.go\<close>): what a network and an IPsec overlay
  container ask for, the check of everything that reaches the privileged commands, and the rule text
  for \<open>iptables-restore\<close> and for nft.
\<close>

abbreviation natChain :: string where "natChain \<equiv> ''CATTLE_NAT_POSTROUTING''"

abbreviation nftNATTable :: string where "nftNATTable \<equiv> ''pasturestack_hostnat''"

section \<open>Rule sets\<close>

text \<open>\<open>Peers\<close> is nil unless the subnet is a host label.\<close>

record MASQRule =
  mq_Subnet :: string
  mq_Bridge :: string
  mq_Peers :: "string list option"

record IKEPortSNATRule =
  ike_SourceIP :: string
  ike_HostIP :: string
  ike_Bridge :: string
  ike_Port :: string

text \<open>The maps of the zero rule set are nil.\<close>

record natRules =
  nr_MASQ :: "MASQRule gomap option"
  nr_IKE :: "IKEPortSNATRule gomap option"

definition zero_natRules :: natRules where
  "zero_natRules = \<lparr>nr_MASQ = None, nr_IKE = None\<rparr>"

definition zero_MASQ :: MASQRule where
  "zero_MASQ = \<lparr>mq_Subnet = [], mq_Bridge = [], mq_Peers = None\<rparr>"

definition zero_IKE :: IKEPortSNATRule where
  "zero_IKE = \<lparr>ike_SourceIP = [], ike_HostIP = [], ike_Bridge = [], ike_Port = []\<rparr>"

abbreviation masq_map :: "natRules \<Rightarrow> MASQRule gomap" where "masq_map r \<equiv> entries (nr_MASQ r)"

abbreviation ike_map :: "natRules \<Rightarrow> IKEPortSNATRule gomap" where "ike_map r \<equiv> entries (nr_IKE r)"

abbreviation masq_peers :: "MASQRule \<Rightarrow> string list" where
  "masq_peers p \<equiv> (case mq_Peers p of None \<Rightarrow> [] | Some ps \<Rightarrow> ps)"

text \<open>\<open>reflect.DeepEqual\<close>.\<close>

definition natrules_eq :: "natRules \<Rightarrow> natRules \<Rightarrow> bool" where
  "natrules_eq r r' \<longleftrightarrow> opt_meq (nr_MASQ r) (nr_MASQ r') \<and> opt_meq (nr_IKE r) (nr_IKE r')"

definition wf_natrules :: "natRules \<Rightarrow> bool" where
  "wf_natrules r \<longleftrightarrow> wf_map (masq_map r) \<and> wf_map (ike_map r)"

section \<open>From networks and containers to rules\<close>

text \<open>The first file, in the order the loop visits the map, that asks for host NAT.\<close>

definition masq_file :: "string \<times> json \<Rightarrow> bool" where
  "masq_file kf = (let file = snd kf in
     as_bool (cni_prop file ''hostNat'') \<and> isBridgeCNIType (as_string (cni_prop file ''type''))
     \<and> as_string (cni_prop file ''bridge'') \<noteq> [] \<and> as_string (cni_prop file ''bridgeSubnet'') \<noteq> [])"

definition networkToRule :: "Network \<Rightarrow> MASQRule option" where
  "networkToRule network =
     (case find masq_file (cni_config network) of
        None \<Rightarrow> None
      | Some (_, file) \<Rightarrow> Some \<lparr>mq_Subnet = as_string (cni_prop file ''bridgeSubnet''),
          mq_Bridge = as_string (cni_prop file ''bridge''), mq_Peers = None\<rparr>)"

definition bridge_file :: "string \<times> json \<Rightarrow> bool" where
  "bridge_file kf \<longleftrightarrow> isBridgeCNIType (as_string (cni_prop (snd kf) ''type'')) \<and> as_string (cni_prop (snd kf) ''bridge'') \<noteq> []"

definition bridgeForNetwork :: "Network \<Rightarrow> string" where
  "bridgeForNetwork network =
     (case find bridge_file (cni_config network) of None \<Rightarrow> [] | Some (_, file) \<Rightarrow> as_string (cni_prop file ''bridge''))"

definition isIPsecOverlayContainer :: "Container \<Rightarrow> bool" where
  "isIPsecOverlayContainer c \<longleftrightarrow> mget [] (ctr_Labels c) ''io.pasturestack.component'' = ''ipsec-overlay''
     \<or> (ctr_StackName c = ''ipsec'' \<and> ctr_ServiceName c = ''ipsec'')"

definition overlay_skipped :: "Host \<Rightarrow> Container \<Rightarrow> bool" where
  "overlay_skipped host c \<longleftrightarrow> ctr_HostUUID c \<noteq> host_UUID host \<or> \<not> isIPsecOverlayContainer c \<or> ctr_PrimaryIp c = []
     \<or> (ctr_State c \<noteq> ''running'' \<and> ctr_State c \<noteq> ''starting'')"

text \<open>The body of the loop of \<open>addIKESNATRules\<close>.\<close>

definition ike_step ::
    "Host \<Rightarrow> Network gomap \<Rightarrow> IKEPortSNATRule gomap \<Rightarrow> Container \<Rightarrow> IKEPortSNATRule gomap" where
  "ike_step host networks rules c =
     (if overlay_skipped host c then rules
      else
        let bridge = (case map_of networks (ctr_NetworkUUID c) of None \<Rightarrow> [] | Some n \<Rightarrow> bridgeForNetwork n) in
        foldl (\<lambda>m port. mput (ctr_ExternalId c @ ''/'' @ port)
            \<lparr>ike_SourceIP = ctr_PrimaryIp c, ike_HostIP = host_AgentIP host, ike_Bridge = bridge, ike_Port = port\<rparr> m)
          rules [''500'', ''4500''])"

section \<open>Validation\<close>

definition isIKEPort :: "string \<Rightarrow> bool" where
  "isIKEPort port \<longleftrightarrow> port = ''500'' \<or> port = ''4500''"

text \<open>The regular expression \<open>^[a-zA-Z0-9_.:-]{1,15}$\<close>.\<close>

definition interfaceName :: "string \<Rightarrow> bool" where
  "interfaceName s \<longleftrightarrow> 1 \<le> length s \<and> length s \<le> 15 \<and> list_all (\<lambda>c. bridge_char c \<or> c = CHR '':'') s"

definition validateMASQ :: "string \<times> MASQRule \<Rightarrow> unit result" where
  "validateMASQ kr =
     (let key = fst kr; rule = snd kr in
      bindR (ensureR (valid_subnet4 (mq_Subnet rule))
               (Errorf ''hostnat MASQ %q has invalid IPv4 subnet %q'' [key, mq_Subnet rule])) (\<lambda>_.
      bindR (ensureR (interfaceName (mq_Bridge rule))
               (Errorf ''hostnat MASQ %q has invalid bridge name %q'' [key, mq_Bridge rule])) (\<lambda>_.
        checkR (\<lambda>peer. ensureR (valid_subnet4 peer) (Errorf ''hostnat MASQ %q has invalid peer subnet %q'' [key, peer]))
          (masq_peers rule))))"

definition validateIKE :: "string \<times> IKEPortSNATRule \<Rightarrow> unit result" where
  "validateIKE kr =
     (let key = fst kr; rule = snd kr in
      bindR (checkR (\<lambda>(name, value). ensureR (valid_addr4 value)
               (Errorf ''hostnat IKE %q has invalid %s IPv4 address %q'' [key, name, value]))
               [(''source'', ike_SourceIP rule), (''host'', ike_HostIP rule)]) (\<lambda>_.
      bindR (ensureR (\<not> (ike_Bridge rule \<noteq> [] \<and> \<not> interfaceName (ike_Bridge rule)))
               (Errorf ''hostnat IKE %q has invalid bridge name %q'' [key, ike_Bridge rule])) (\<lambda>_.
        ensureR (isIKEPort (ike_Port rule)) (Errorf ''hostnat IKE %q has unsupported port %q'' [key, ike_Port rule]))))"

definition validateNATRules :: "natRules \<Rightarrow> unit result" where
  "validateNATRules rules = bindR (checkR validateMASQ (masq_map rules)) (\<lambda>_. checkR validateIKE (ike_map rules))"

section \<open>The iptables-restore input\<close>

definition masq_iptables :: "MASQRule \<Rightarrow> string" where
  "masq_iptables p =
     concat (map (\<lambda>peer. ''-A '' @ natChain @ '' -s '' @ mq_Subnet p @ '' -d '' @ peer @ '' -j RETURN'' @ nl) (masq_peers p))
     @ ''-A '' @ natChain @ '' -p tcp -s '' @ mq_Subnet p @ '' ! -d '' @ mq_Subnet p @ '' ! -o '' @ mq_Bridge p @ '' -j MASQUERADE --to-ports 1024-65535'' @ nl
     @ ''-A '' @ natChain @ '' -p udp -s '' @ mq_Subnet p @ '' ! -d '' @ mq_Subnet p @ '' ! -o '' @ mq_Bridge p @ '' -j MASQUERADE --to-ports 1024-65535'' @ nl
     @ ''-A '' @ natChain @ '' -s '' @ mq_Subnet p @ '' ! -d '' @ mq_Subnet p @ '' ! -o '' @ mq_Bridge p @ '' -j MASQUERADE'' @ nl
     @ ''-A '' @ natChain @ '' -o '' @ mq_Bridge p @ '' -m addrtype --src-type LOCAL --dst-type UNICAST -j MASQUERADE''"

definition ike_iptables :: "IKEPortSNATRule \<Rightarrow> string" where
  "ike_iptables p =
     ''-A '' @ natChain @ '' -p udp -m udp -s '' @ ike_SourceIP p @ ''/32 --sport '' @ ike_Port p
     @ (if ike_Bridge p \<noteq> [] then '' ! -o '' @ ike_Bridge p else [])
     @ '' -j SNAT --to-source '' @ ike_HostIP p @ '':'' @ ike_Port p"

definition nat_text :: "natRules \<Rightarrow> string" where
  "nat_text rules =
     ''*nat'' @ nl @ '':'' @ natChain @ '' -'' @ nl @ ''-F '' @ natChain @ nl
     @ emit_sorted zero_IKE (\<lambda>p. nl @ ike_iptables p) (ike_map rules)
     @ emit_sorted zero_MASQ (\<lambda>p. nl @ masq_iptables p) (masq_map rules)
     @ nl @ ''COMMIT'' @ nl"

section \<open>The nft script\<close>

definition nft_ike :: "string \<Rightarrow> IKEPortSNATRule \<Rightarrow> string" where
  "nft_ike table rule =
     ''add rule ip '' @ table @ '' postrouting ip saddr '' @ ike_SourceIP rule @ '' udp sport '' @ ike_Port rule
     @ (if ike_Bridge rule \<noteq> [] then '' oifname != '' @ quote_plain (ike_Bridge rule) else [])
     @ '' snat to '' @ ike_HostIP rule @ '':'' @ ike_Port rule"

definition nft_return :: "string \<Rightarrow> MASQRule \<Rightarrow> string \<Rightarrow> string" where
  "nft_return table rule peer =
     ''add rule ip '' @ table @ '' postrouting ip saddr '' @ mq_Subnet rule @ '' ip daddr '' @ peer @ '' return''"

definition nft_masq :: "string \<Rightarrow> MASQRule \<Rightarrow> string list" where
  "nft_masq table rule =
     map (nft_return table rule) (masq_peers rule)
     @ map (\<lambda>protocol. ''add rule ip '' @ table @ '' postrouting ip saddr '' @ mq_Subnet rule @ '' ip daddr != '' @ mq_Subnet rule
           @ '' oifname != '' @ quote_plain (mq_Bridge rule) @ '' meta l4proto '' @ protocol @ '' masquerade to :1024-65535'')
         [''tcp'', ''udp'']
     @ [''add rule ip '' @ table @ '' postrouting ip saddr '' @ mq_Subnet rule @ '' ip daddr != '' @ mq_Subnet rule
           @ '' oifname != '' @ quote_plain (mq_Bridge rule) @ '' masquerade'',
        ''add rule ip '' @ table @ '' postrouting oifname '' @ quote_plain (mq_Bridge rule) @ '' fib saddr type local fib daddr type unicast masquerade'']"

text \<open>The rule lines, in order: one per IKE port, then those of each network, by sorted key.\<close>

definition nft_nat_rules :: "string \<Rightarrow> natRules \<Rightarrow> string list" where
  "nft_nat_rules table rules =
     emit_sorted zero_IKE (\<lambda>r. [nft_ike table r]) (ike_map rules) @ emit_sorted zero_MASQ (nft_masq table) (masq_map rules)"

definition nft_nat_header :: "string \<Rightarrow> string list" where
  "nft_nat_header table =
     [''add table ip '' @ table,
      ''add chain ip '' @ table @ '' postrouting { type nat hook postrouting priority 99; policy accept; }'',
      ''flush chain ip '' @ table @ '' postrouting'']"

definition nftNATScriptForTable :: "natRules \<Rightarrow> string \<Rightarrow> string" where
  "nftNATScriptForTable rules table = unlines (nft_nat_header table @ nft_nat_rules table rules)"

definition nftNATScript :: "natRules \<Rightarrow> string" where
  "nftNATScript rules = nftNATScriptForTable rules nftNATTable"

definition nftNATReplaceScript :: "natRules \<Rightarrow> string" where
  "nftNATReplaceScript rules = ''delete table ip '' @ nftNATTable @ nl @ nftNATScript rules"

text \<open>The number of rules \<open>checkNativeState\<close> wants to see.\<close>

definition nat_want_rules :: "natRules \<Rightarrow> int" where
  "nat_want_rules applied =
     foldl (\<lambda>n kr. n + int (length (masq_peers (snd kr))))
       (int (length (ike_map applied)) + 4 * int (length (masq_map applied))) (masq_map applied)"

end
