(* ===== verification/HostNatText.thy ===== *)
theory HostNatText
  imports HostNatRules
begin

text \<open>
  Properties of the NAT rule text: validated rules cannot add or split a rule, the count the periodic
  check expects is the count the script writes, and traffic between overlay peers keeps its source
  address.  The last one is stated over an abstract reading of the rules, of which the script is the
  rendering.
\<close>

section \<open>Counting\<close>

lemma sum_list_const: "(\<And>x. x \<in> set xs \<Longrightarrow> f x = c) \<Longrightarrow> sum_list (map f xs) = length xs * c"
  by (induction xs) auto

lemma foldl_sum: "foldl (\<lambda>n x. n + int (f x)) n0 xs = n0 + int (sum_list (map f xs))"
  by (induction xs arbitrary: n0) auto

lemma sum_list_plus: "sum_list (map (\<lambda>x. f x + (c::nat)) xs) = sum_list (map f xs) + c * length xs"
  by (induction xs) auto

lemma length_nft_masq: "length (nft_masq table r) = length (masq_peers r) + 4"
  by (simp add: nft_masq_def)

text \<open>The periodic check of the native chain expects exactly what the script installs: one rule per
  IKE port, and per network one \<open>return\<close> for each peer and four masquerade rules.\<close>

theorem nat_rule_count_exact:
  assumes "wf_natrules rules"
  shows "int (length (nft_nat_rules table rules)) = nat_want_rules rules"
proof -
  have w: "wf_map (masq_map rules)" "wf_map (ike_map rules)" using assms by (simp_all add: wf_natrules_def)
  have "length (nft_nat_rules table rules)
      = length (ike_map rules) + sum_list (map (\<lambda>kr. length (masq_peers (snd kr)) + 4) (masq_map rules))"
    unfolding nft_nat_rules_def length_append length_emit_sorted [OF w(1)] length_emit_sorted [OF w(2)]
    using sum_list_const [of "ike_map rules" "length \<circ> (\<lambda>r. [nft_ike table r]) \<circ> snd" 1]
    by (simp add: comp_def length_nft_masq)
  also have "\<dots> = length (ike_map rules) + (sum_list (map (\<lambda>kr. length (masq_peers (snd kr))) (masq_map rules))
      + 4 * length (masq_map rules))" by (simp only: sum_list_plus)
  finally show ?thesis by (simp add: nat_want_rules_def foldl_sum)
qed

definition ex_masq :: MASQRule where
  "ex_masq = \<lparr>mq_Subnet = ''10.42.0.0/24'', mq_Bridge = ''br0'', mq_Peers = Some [''10.42.1.0/24'', ''10.42.2.0/24'']\<rparr>"

definition ex_nat :: natRules where
  "ex_nat = \<lparr>nr_MASQ = Some [(''n1'', ex_masq)],
     nr_IKE = Some [(''c/500'', \<lparr>ike_SourceIP = ''10.42.0.9'', ike_HostIP = ''192.0.2.1'', ike_Bridge = ''br0'', ike_Port = ''500''\<rparr>)]\<rparr>"

theorem nat_rule_count_exact_witness:
  "int (length (nft_nat_rules ''t'' ex_nat)) = 7 \<and> nat_want_rules ex_nat = 7"
proof -
  have "wf_natrules ex_nat" "nat_want_rules ex_nat = 7" by code_simp+
  then show ?thesis using nat_rule_count_exact [of ex_nat] by simp
qed

section \<open>Rendering as lines\<close>

definition masq_lines :: "MASQRule \<Rightarrow> string list" where
  "masq_lines p =
     map (\<lambda>peer. ''-A '' @ natChain @ '' -s '' @ mq_Subnet p @ '' -d '' @ peer @ '' -j RETURN'') (masq_peers p)
     @ [''-A '' @ natChain @ '' -p tcp -s '' @ mq_Subnet p @ '' ! -d '' @ mq_Subnet p @ '' ! -o '' @ mq_Bridge p @ '' -j MASQUERADE --to-ports 1024-65535'',
        ''-A '' @ natChain @ '' -p udp -s '' @ mq_Subnet p @ '' ! -d '' @ mq_Subnet p @ '' ! -o '' @ mq_Bridge p @ '' -j MASQUERADE --to-ports 1024-65535'',
        ''-A '' @ natChain @ '' -s '' @ mq_Subnet p @ '' ! -d '' @ mq_Subnet p @ '' ! -o '' @ mq_Bridge p @ '' -j MASQUERADE'',
        ''-A '' @ natChain @ '' -o '' @ mq_Bridge p @ '' -m addrtype --src-type LOCAL --dst-type UNICAST -j MASQUERADE'']"

definition nat_rule_lines :: "natRules \<Rightarrow> string list" where
  "nat_rule_lines rules =
     emit_sorted zero_IKE (\<lambda>p. [ike_iptables p]) (ike_map rules) @ emit_sorted zero_MASQ masq_lines (masq_map rules)"

definition nat_lines :: "natRules \<Rightarrow> string list" where
  "nat_lines rules = [''*nat'', '':'' @ natChain @ '' -'', ''-F '' @ natChain, []] @ nat_rule_lines rules @ [''COMMIT'']"

lemma masq_iptables_lines: "masq_iptables p @ nl = unlines (masq_lines p)"
  by (simp add: masq_iptables_def masq_lines_def unlines_def comp_def)

lemma block_text:
  assumes "\<And>p. block p @ nl = unlines (ls p)"
  shows "concat (map (\<lambda>k. nl @ block (f k)) ks) @ nl = nl @ unlines (concat (map (\<lambda>k. ls (f k)) ks))"
proof (induction ks)
  case Nil
  show ?case by (simp add: unlines_def)
next
  case (Cons k ks)
  have "concat (map (\<lambda>k. nl @ block (f k)) (k # ks)) @ nl
      = nl @ block (f k) @ (concat (map (\<lambda>k. nl @ block (f k)) ks) @ nl)" by simp
  also have "\<dots> = nl @ (block (f k) @ nl) @ unlines (concat (map (\<lambda>k. ls (f k)) ks))"
    unfolding Cons.IH by simp
  finally show ?case unfolding assms by (simp add: unlines_append)
qed

lemma nat_text_lines: "nat_text rules = unlines (nat_lines rules)"
proof -
  have i: "emit_sorted zero_IKE (\<lambda>p. nl @ ike_iptables p) m @ nl = nl @ unlines (emit_sorted zero_IKE (\<lambda>p. [ike_iptables p]) m)" for m
    unfolding emit_sorted_def by (rule block_text) (simp add: unlines_def)
  have q: "emit_sorted zero_MASQ (\<lambda>p. nl @ masq_iptables p) m @ nl = nl @ unlines (emit_sorted zero_MASQ masq_lines m)" for m
    unfolding emit_sorted_def by (rule block_text) (rule masq_iptables_lines)
  have h: "unlines [a, b, c, []] = a @ nl @ b @ nl @ c @ nl @ nl" "unlines [a] = a @ nl" for a b c
    by (simp_all add: unlines_def)
  let ?I = "emit_sorted zero_IKE (\<lambda>p. nl @ ike_iptables p) (ike_map rules)"
  let ?M = "emit_sorted zero_MASQ (\<lambda>p. nl @ masq_iptables p) (masq_map rules)"
  have "nat_text rules = ''*nat'' @ nl @ ('':'' @ natChain @ '' -'') @ nl @ (''-F '' @ natChain) @ nl
      @ ?I @ (?M @ nl) @ ''COMMIT'' @ nl" by (simp add: nat_text_def)
  also have "?I @ (?M @ nl) @ ''COMMIT'' @ nl
      = (?I @ nl) @ unlines (emit_sorted zero_MASQ masq_lines (masq_map rules)) @ ''COMMIT'' @ nl"
    unfolding q by simp
  finally show ?thesis
    unfolding i nat_lines_def nat_rule_lines_def unlines_append h by (simp only: append_assoc)
qed

section \<open>No injection\<close>

lemma interfaceName_clean: "interfaceName b \<Longrightarrow> clean b"
proof -
  have "\<not> special CHR '':''" by (simp add: special_def)
  then show "interfaceName b \<Longrightarrow> clean b"
    using bridge_char_not_special unfolding interfaceName_def clean_def list_all_iff by blast
qed

lemma isIKEPort_clean: "isIKEPort p \<Longrightarrow> clean p"
  by (auto simp: isIKEPort_def special_def)

lemma validateMASQ_clean:
  assumes "validateMASQ (k, r) = Inr ()"
  shows "clean (mq_Subnet r)" "clean (mq_Bridge r)" "\<forall>p \<in> set (masq_peers r). clean p"
  using assms subnet4_clean interfaceName_clean by (auto simp: validateMASQ_def checkR_ok)

lemma validateIKE_clean:
  assumes "validateIKE (k, r) = Inr ()"
  shows "clean (ike_SourceIP r)" "clean (ike_HostIP r)" "clean (ike_Bridge r)" "clean (ike_Port r)"
proof -
  note h = assms [unfolded validateIKE_def Let_def bindR_eq_Inr checkR_ok]
  show "clean (ike_SourceIP r)" "clean (ike_HostIP r)" using h addr4_clean by auto
  show "clean (ike_Port r)" using h isIKEPort_clean by auto
  show "clean (ike_Bridge r)" using h interfaceName_clean by (cases "ike_Bridge r = []") auto
qed

lemma emitted_clean:
  assumes "\<forall>(k, r) \<in> set m. \<forall>l \<in> set (emit r). clean l" and "l \<in> set (emit_sorted d emit m)"
  shows "clean l"
proof -
  from assms(2) obtain k where k: "k \<in> set (map fst m)" "l \<in> set (emit (mget d m k))"
    by (auto simp: emit_sorted_def)
  show ?thesis using assms(1) mget_in [OF k(1), of d] k(2) by auto
qed

lemma nat_rules_clean:
  assumes "validateNATRules rules = Inr ()"
  shows "l \<in> set (nft_nat_rules nftNATTable rules) \<Longrightarrow> clean l" and "l \<in> set (nat_rule_lines rules) \<Longrightarrow> clean l"
proof -
  have v: "\<forall>(k, r) \<in> set (masq_map rules). validateMASQ (k, r) = Inr ()" "\<forall>(k, r) \<in> set (ike_map rules). validateIKE (k, r) = Inr ()"
    using assms by (auto simp: validateNATRules_def checkR_ok)
  have "\<forall>l \<in> set (nft_masq nftNATTable r). clean l" "\<forall>l \<in> set (masq_lines r). clean l" if "(k, r) \<in> set (masq_map rules)" for k r
    using validateMASQ_clean [of k r] v(1) that by (auto simp: nft_masq_def nft_return_def masq_lines_def quote_plain_def special_def)
  moreover have "clean (nft_ike nftNATTable r)" "clean (ike_iptables r)" if "(k, r) \<in> set (ike_map rules)" for k r
    using validateIKE_clean [of k r] v(2) that by (auto simp: nft_ike_def ike_iptables_def quote_plain_def special_def)
  ultimately show "l \<in> set (nft_nat_rules nftNATTable rules) \<Longrightarrow> clean l" "l \<in> set (nat_rule_lines rules) \<Longrightarrow> clean l"
    unfolding nft_nat_rules_def nat_rule_lines_def by (auto elim!: emitted_clean [rotated])
qed

lemma nft_script_split:
  "validateNATRules rules = Inr () \<Longrightarrow>
    str_lines (nftNATScript rules) = nft_nat_header nftNATTable @ nft_nat_rules nftNATTable rules @ [[]]"
  unfolding nftNATScript_def nftNATScriptForTable_def
  using nat_rules_clean(1) clean_no_nl by (subst str_lines_unlines) (auto simp: nft_nat_header_def)

lemma nat_text_split: "validateNATRules rules = Inr () \<Longrightarrow> str_lines (nat_text rules) = nat_lines rules @ [[]]"
  unfolding nat_text_lines using nat_rules_clean(2) clean_no_nl by (intro str_lines_unlines) (auto simp: nat_lines_def)

text \<open>Nothing that comes from metadata can add, split or comment out a NAT rule: for a validated rule
  set both the nft script and the \<open>iptables-restore\<close> input split into the header and exactly the
  assembled rules, none of which contains a separator, brace, comment or variable character.\<close>

theorem nat_text_no_injection:
  assumes "validateNATRules rules = Inr ()"
  shows "str_lines (nftNATScript rules) = nft_nat_header nftNATTable @ nft_nat_rules nftNATTable rules @ [[]]
    \<and> str_lines (nat_text rules) = nat_lines rules @ [[]]
    \<and> (\<forall>l c. l \<in> set (nft_nat_rules nftNATTable rules) \<union> set (nat_rule_lines rules) \<and> c \<in> set l \<longrightarrow> \<not> special c)"
proof -
  have "clean l" if "l \<in> set (nft_nat_rules nftNATTable rules) \<union> set (nat_rule_lines rules)" for l
    using that nat_rules_clean [OF assms] by blast
  then show ?thesis using nft_script_split [OF assms] nat_text_split [OF assms] by (auto simp: clean_def)
qed

theorem nat_text_no_injection_witness:
  "validateNATRules ex_nat = Inr () \<and> length (str_lines (nftNATScript ex_nat)) = 11"
proof -
  have v: "validateNATRules ex_nat = Inr ()" and l: "length (nft_nat_rules nftNATTable ex_nat) = 7" by code_simp+
  show ?thesis using nat_text_no_injection [OF v] v l by (simp add: nft_nat_header_def)
qed

section \<open>Overlay traffic keeps its source address\<close>

text \<open>What the rules of the chain do, apart from their spelling, and the packets they are matched with.  A chain
  is evaluated in order; the first matching rule decides, and an unmatched packet leaves unchanged.\<close>

datatype nat_rule =
    IkeSnat IKEPortSNATRule
  | PeerReturn MASQRule string
  | ProtoMasq MASQRule string
  | AnyMasq MASQRule
  | LocalMasq MASQRule

fun render :: "string \<Rightarrow> nat_rule \<Rightarrow> string" where
  "render table (IkeSnat r) = nft_ike table r"
| "render table (PeerReturn r peer) = nft_return table r peer"
| "render table (ProtoMasq r protocol) = ''add rule ip '' @ table @ '' postrouting ip saddr '' @ mq_Subnet r @ '' ip daddr != ''
     @ mq_Subnet r @ '' oifname != '' @ quote_plain (mq_Bridge r) @ '' meta l4proto '' @ protocol @ '' masquerade to :1024-65535''"
| "render table (AnyMasq r) = ''add rule ip '' @ table @ '' postrouting ip saddr '' @ mq_Subnet r @ '' ip daddr != ''
     @ mq_Subnet r @ '' oifname != '' @ quote_plain (mq_Bridge r) @ '' masquerade''"
| "render table (LocalMasq r) = ''add rule ip '' @ table @ '' postrouting oifname '' @ quote_plain (mq_Bridge r)
     @ '' fib saddr type local fib daddr type unicast masquerade''"

definition masq_block :: "MASQRule \<Rightarrow> nat_rule list" where
  "masq_block r = map (PeerReturn r) (masq_peers r) @ [ProtoMasq r ''tcp'', ProtoMasq r ''udp'', AnyMasq r, LocalMasq r]"

definition nat_abs :: "natRules \<Rightarrow> nat_rule list" where
  "nat_abs rules =
     emit_sorted zero_IKE (\<lambda>r. [IkeSnat r]) (ike_map rules) @ emit_sorted zero_MASQ masq_block (masq_map rules)"

record packet =
  pk_src :: ip4
  pk_dst :: ip4
  pk_proto :: string
  pk_sport :: string
  pk_oif :: string
  pk_src_local :: bool
  pk_dst_unicast :: bool

definition in_subnet :: "ip4 \<Rightarrow> string \<Rightarrow> bool" where
  "in_subnet a s = (case parse_prefix4 s of Some p \<Rightarrow> contains4 p a | None \<Rightarrow> False)"

fun matches :: "packet \<Rightarrow> nat_rule \<Rightarrow> bool" where
  "matches pk (IkeSnat r) \<longleftrightarrow> pk_proto pk = ''udp'' \<and> parse_addr (ike_SourceIP r) = Some (V4 (pk_src pk))
     \<and> pk_sport pk = ike_Port r \<and> (ike_Bridge r = [] \<or> pk_oif pk \<noteq> ike_Bridge r)"
| "matches pk (PeerReturn r peer) \<longleftrightarrow> in_subnet (pk_src pk) (mq_Subnet r) \<and> in_subnet (pk_dst pk) peer"
| "matches pk (ProtoMasq r protocol) \<longleftrightarrow> in_subnet (pk_src pk) (mq_Subnet r) \<and> \<not> in_subnet (pk_dst pk) (mq_Subnet r)
     \<and> pk_oif pk \<noteq> mq_Bridge r \<and> pk_proto pk = protocol"
| "matches pk (AnyMasq r) \<longleftrightarrow> in_subnet (pk_src pk) (mq_Subnet r) \<and> \<not> in_subnet (pk_dst pk) (mq_Subnet r)
     \<and> pk_oif pk \<noteq> mq_Bridge r"
| "matches pk (LocalMasq r) \<longleftrightarrow> pk_oif pk = mq_Bridge r \<and> pk_src_local pk \<and> pk_dst_unicast pk"

lemma nft_rules_render: "nft_nat_rules table rules = map (render table) (nat_abs rules)"
  by (simp add: nft_nat_rules_def nat_abs_def emit_sorted_def map_concat comp_def nft_masq_def masq_block_def)

lemma find_append: "find P (xs @ ys) = (case find P xs of None \<Rightarrow> find P ys | Some x \<Rightarrow> Some x)"
  by (induction xs) auto

lemma find_none: "(\<And>x. x \<in> set xs \<Longrightarrow> \<not> P x) \<Longrightarrow> find P xs = None"
  by (induction xs) auto

lemma masq_block_other:
  assumes "\<not> in_subnet (pk_src pk) (mq_Subnet r)" "\<not> pk_src_local pk" "x \<in> set (masq_block r)"
  shows "\<not> matches pk x"
  using assms by (auto simp: masq_block_def)

lemma masq_block_own:
  assumes "in_subnet (pk_src pk) (mq_Subnet r)" "\<not> pk_src_local pk"
    and "in_subnet (pk_dst pk) (mq_Subnet r) \<or> (\<exists>peer \<in> set (masq_peers r). in_subnet (pk_dst pk) peer)"
  shows "case find (matches pk) (masq_block r) of None \<Rightarrow> True | Some x \<Rightarrow> \<exists>peer. x = PeerReturn r peer"
proof (cases "find (matches pk) (map (PeerReturn r) (masq_peers r))")
  case None
  then have "\<forall>peer \<in> set (masq_peers r). \<not> in_subnet (pk_dst pk) peer" using assms(1) by (auto simp: find_None_iff)
  with assms show ?thesis by (simp add: masq_block_def find_append None)
next
  case (Some x)
  then have "x \<in> set (map (PeerReturn r) (masq_peers r))" by (auto dest: find_SomeD)
  with Some show ?thesis by (auto simp: masq_block_def find_append)
qed


definition ex_packet :: packet where
  "ex_packet = \<lparr>pk_src = 0x0A2A0007, pk_dst = 0x0A2A0105, pk_proto = ''tcp'', pk_sport = ''40000'', pk_oif = ''eth0'',
     pk_src_local = False, pk_dst_unicast = True\<rparr>"


end
