(* ===== verification/World.thy ===== *)
theory World
  imports HostPortRules
begin

text \<open>
  The outside world as the program sees it: commands, files, the clock, the metadata service and the
  Docker daemon.  Every interaction is a \<open>call\<close>; the history of calls with their outcomes is the
  trace.  The environment \<open>env\<close> decides, from the whole history so far, whether a call fails and what
  it answers, so a property proved for every \<open>env\<close> holds whatever the outside does and whenever it
  does it.

  The files the program owns are part of the state: a failed write may leave any content behind, a
  rename replaces its target at once.
\<close>

section \<open>Calls\<close>

datatype component = HostNAT | HostPorts

text \<open>What the CNI library is run with (\<open>libcni.RuntimeConf\<close>), an entry of the addresses a plugin returns (no
  address, one that \<open>To4\<close> recognises, another one), and a neighbour table entry with its IP and MAC as
  text.\<close>

record cni_runtime =
  cr_ContainerID :: string
  cr_NetNS :: string
  cr_IfName :: string
  cr_Args :: "(string \<times> string) list"

datatype cni_ip = NilIP | IPv4 string | IPv6 string

record neigh =
  ne_LinkIndex :: int
  ne_IP :: "string option"
  ne_HardwareAddr :: string
  ne_State :: int

datatype call =
    Run "string list"
  | Output "string list"
  | Pipe string "string list" string
  | ReadFile string
  | WriteFile string string
  | MkdirAll string
  | CreateTemp string
  | ChmodFile string int
  | WriteTemp string string
  | SyncFile string
  | CloseFile string
  | RenameFile string string
  | RemoveFile string
  | StatFile string
  | GetNetworks
  | GetHosts
  | GetSelfHost
  | GetContainers
  | GetServices
  | ContainerInspect string
  | OpenNamespace int
  | NetlinkHandle int
  | ReadNamespace int
  | Sleep int
  | ContainerList
  | ContainerRemove string
  | Lstat string
  | LstatDir string
  | StatDir string
  | RemoveAll string
  | Symlink string string
  | LinkList int
  | ConfFiles string
  | ConfFromFile string
  | Setenv string string
  | CniAdd string cni_runtime
  | CniDel string cni_runtime
  | NsEnter int
  | NsLeave
  | NeighList
  | NeighSet neigh
  | NeighDel neigh
  | RouteGet string
  | RouteAdd string int
  | HostLinks
  | HostAddrs nat
  | LinkByName string
  | LinkSetMAC string string
  | GetVersion
  | WaitVersion int string
  | Callback string
  | Clock
  | Report component "gerr option"

type_synonym event = "call \<times> gerr option"

text \<open>What the program reads of a Docker inspection.  A nil \<open>Config\<close> is \<open>None\<close> in \<open>dk_Labels\<close>, a nil \<open>State\<close>
  is \<open>None\<close> in \<open>dk_State\<close> (running, pid), a nil \<open>HostConfig\<close> is \<open>None\<close> in \<open>dk_HostConfig\<close> (network mode,
  DNS search list).\<close>

record DockerContainer =
  dk_ID :: string
  dk_Labels :: "string gomap option"
  dk_State :: "(bool \<times> int) option"
  dk_StartedAt :: string
  dk_HostConfig :: "(string \<times> string list) option"
  dk_Hostname :: string
  dk_HostsPath :: string
  dk_ResolvConfPath :: string

definition zero_DockerContainer :: DockerContainer where
  "zero_DockerContainer = \<lparr>dk_ID = [], dk_Labels = None, dk_State = None, dk_StartedAt = [], dk_HostConfig = None,
     dk_Hostname = [], dk_HostsPath = [], dk_ResolvConfPath = []\<rparr>"

text \<open>A Docker event.\<close>

record docker_event =
  de_Action :: string
  de_ActorID :: string
  de_Attributes :: "string gomap"

text \<open>What \<open>os.Lstat\<close> tells: regular file, directory, symbolic link; permission bits.\<close>

record fileinfo =
  fi_Regular :: bool
  fi_Dir :: bool
  fi_Symlink :: bool
  fi_Perm :: int

record env =
  e_fail :: "event list \<Rightarrow> call \<Rightarrow> gerr option"
  e_text :: "event list \<Rightarrow> call \<Rightarrow> string"
  e_torn :: "event list \<Rightarrow> call \<Rightarrow> string option"
  e_rand :: "event list \<Rightarrow> string"
  e_order :: "event list \<Rightarrow> string list \<Rightarrow> string list"
  e_now :: "event list \<Rightarrow> int"
  e_networks :: "event list \<Rightarrow> Network list"
  e_hosts :: "event list \<Rightarrow> Host list"
  e_selfHost :: "event list \<Rightarrow> Host"
  e_containers :: "event list \<Rightarrow> Container list"
  e_services :: "event list \<Rightarrow> Service list"
  e_inspect :: "event list \<Rightarrow> string \<Rightarrow> DockerContainer"
  e_addrs :: "event list \<Rightarrow> int \<Rightarrow> link_addr list"
  e_list :: "event list \<Rightarrow> string list"
  e_lstat :: "event list \<Rightarrow> string \<Rightarrow> fileinfo"
  e_samefile :: "event list \<Rightarrow> string \<Rightarrow> string \<Rightarrow> bool"
  e_links :: "event list \<Rightarrow> int \<Rightarrow> nat"
  e_dir :: "event list \<Rightarrow> string \<Rightarrow> string list"
  e_cni :: "event list \<Rightarrow> call \<Rightarrow> cni_ip list"
  e_neigh :: "event list \<Rightarrow> neigh list"
  e_routes :: "event list \<Rightarrow> string \<Rightarrow> int list"
  e_hostlinks :: "event list \<Rightarrow> nat"
  e_hostaddrs :: "event list \<Rightarrow> nat \<Rightarrow> string option list"
  e_link :: "event list \<Rightarrow> string \<Rightarrow> int \<times> string"
  e_version :: "event list \<Rightarrow> string"

record world =
  trace :: "event list"
  files :: "string \<Rightarrow> string option"

section \<open>Files\<close>

fun fs_error :: "(string \<Rightarrow> string option) \<Rightarrow> call \<Rightarrow> gerr option" where
  "fs_error fs (ReadFile p) = (if fs p = None then Some (NotExist p) else None)"
| "fs_error fs (StatFile p) = (if fs p = None then Some (NotExist p) else None)"
| "fs_error fs (RemoveFile p) = (if fs p = None then Some (NotExist p) else None)"
| "fs_error fs (RenameFile p q) = (if fs p = None then Some (NotExist p) else None)"
| "fs_error fs (Lstat p) = (if fs p = None then Some (NotExist p) else None)"
| "fs_error fs (CreateTemp p) = (if fs p \<noteq> None then Some (EnvErr ''file exists'') else None)"
| "fs_error fs (Symlink t p) = (if fs p \<noteq> None then Some (EnvErr ''file exists'') else None)"
| "fs_error fs _ = None"

text \<open>A path at or below a directory.\<close>

definition under :: "string \<Rightarrow> string \<Rightarrow> bool" where
  "under d p \<longleftrightarrow> p = d \<or> has_prefix p (d @ ''/'')"

text \<open>A symbolic link holds its target.  The map holds files and links; whether a directory exists is the
  environment's answer to \<open>LstatDir\<close> and \<open>StatDir\<close>.\<close>

fun fs_done :: "call \<Rightarrow> (string \<Rightarrow> string option) \<Rightarrow> string \<Rightarrow> string option" where
  "fs_done (WriteFile p d) fs = fs(p := Some d)"
| "fs_done (CreateTemp p) fs = fs(p := Some [])"
| "fs_done (WriteTemp p d) fs = fs(p := Some ((case fs p of None \<Rightarrow> [] | Some old \<Rightarrow> old) @ d))"
| "fs_done (RenameFile p q) fs = (fs(p := None))(q := fs p)"
| "fs_done (RemoveFile p) fs = fs(p := None)"
| "fs_done (RemoveAll d) fs = (\<lambda>p. if under d p then None else fs p)"
| "fs_done (Symlink t p) fs = fs(p := Some t)"
| "fs_done _ fs = fs"

fun fs_failed :: "string option \<Rightarrow> call \<Rightarrow> (string \<Rightarrow> string option) \<Rightarrow> string \<Rightarrow> string option" where
  "fs_failed (Some d) (WriteFile p _) fs = fs(p := Some d)"
| "fs_failed (Some d) (WriteTemp p _) fs = fs(p := Some d)"
| "fs_failed _ _ fs = fs"

section \<open>Performing a call\<close>

definition outcome :: "env \<Rightarrow> call \<Rightarrow> 'a world_scheme \<Rightarrow> gerr option" where
  "outcome e c s = (case e_fail e (trace s) c of Some er \<Rightarrow> Some er | None \<Rightarrow> fs_error (files s) c)"

definition after :: "env \<Rightarrow> call \<Rightarrow> 'a world_scheme \<Rightarrow> 'a world_scheme" where
  "after e c s = s\<lparr>trace := trace s @ [(c, outcome e c s)],
     files := (if outcome e c s = None then fs_done c (files s) else fs_failed (e_torn e (trace s) c) c (files s))\<rparr>"

text \<open>A call with an answer computed from the state before it.\<close>

definition ask :: "env \<Rightarrow> call \<Rightarrow> ('a world_scheme \<Rightarrow> 'b) \<Rightarrow> ('a world_scheme, 'b) proc" where
  "ask e c f = (\<lambda>s. (case outcome e c s of None \<Rightarrow> Inr (f s) | Some er \<Rightarrow> Inl er, after e c s))"

definition perform :: "env \<Rightarrow> call \<Rightarrow> ('a world_scheme, unit) proc" where
  "perform e c = ask e c (\<lambda>_. ())"

definition text_of :: "env \<Rightarrow> call \<Rightarrow> ('a world_scheme, string) proc" where
  "text_of e c = ask e c (\<lambda>s. e_text e (trace s) c)"

definition os_ReadFile :: "env \<Rightarrow> string \<Rightarrow> ('a world_scheme, string) proc" where
  "os_ReadFile e p = ask e (ReadFile p) (\<lambda>s. case files s p of None \<Rightarrow> [] | Some d \<Rightarrow> d)"

text \<open>\<open>os.CreateTemp(dir, prefix + "*")\<close>.\<close>

definition os_CreateTemp :: "env \<Rightarrow> string \<Rightarrow> string \<Rightarrow> ('a world_scheme, string) proc" where
  "os_CreateTemp e dir pre =
     bindP (getP (\<lambda>s. dir @ ''/'' @ pre @ e_rand e (trace s))) (\<lambda>name.
     bindP (perform e (CreateTemp name)) (\<lambda>_. retP name))"

text \<open>A duration is in nanoseconds.\<close>

definition second :: int where "second = 1000000000"

text \<open>\<open>time.Now()\<close>, in nanoseconds; it cannot fail.\<close>

definition time_Now :: "env \<Rightarrow> ('a world_scheme, int) proc" where
  "time_Now e = (\<lambda>s. (Inr (e_now e (trace s)), s\<lparr>trace := trace s @ [(Clock, None)]\<rparr>))"

text \<open>\<open>time.Sleep\<close> cannot fail.\<close>

definition time_Sleep :: "int \<Rightarrow> ('a world_scheme, unit) proc" where
  "time_Sleep d = (\<lambda>s. (Inr (), s\<lparr>trace := trace s @ [(Sleep d, None)]\<rparr>))"

text \<open>Docker and file system queries.\<close>

definition dc_ContainerInspect :: "env \<Rightarrow> string \<Rightarrow> ('a world_scheme, DockerContainer) proc" where
  "dc_ContainerInspect e cid = ask e (ContainerInspect cid) (\<lambda>s. e_inspect e (trace s) cid)"

definition dc_ContainerList :: "env \<Rightarrow> ('a world_scheme, string list) proc" where
  "dc_ContainerList e = ask e ContainerList (\<lambda>s. e_list e (trace s))"

definition os_Lstat :: "env \<Rightarrow> string \<Rightarrow> ('a world_scheme, fileinfo) proc" where
  "os_Lstat e p = ask e (Lstat p) (\<lambda>s. e_lstat e (trace s) p)"

definition os_LstatDir :: "env \<Rightarrow> string \<Rightarrow> ('a world_scheme, fileinfo) proc" where
  "os_LstatDir e p = ask e (LstatDir p) (\<lambda>s. e_lstat e (trace s) p)"

text \<open>Reporting to the readiness tracker cannot fail either: the caller logs the tracker's error.\<close>

definition report :: "component \<Rightarrow> gerr option \<Rightarrow> ('a world_scheme, unit) proc" where
  "report cpt err = (\<lambda>s. (Inr (), s\<lparr>trace := trace s @ [(Report cpt err, None)]\<rparr>))"

text \<open>\<open>defer cleanup\<close> with an ignored result.\<close>

definition finallyP :: "('s, 'a) proc \<Rightarrow> ('s, unit) proc \<Rightarrow> ('s, 'a) proc" where
  "finallyP m c = (\<lambda>s. case m s of (r, s') \<Rightarrow> (r, snd (c s')))"

text \<open>The error of a procedure as Go sees it: nil or not.\<close>

definition err_of :: "'a result \<Rightarrow> gerr option" where
  "err_of r = (case r of Inl e \<Rightarrow> Some e | Inr _ \<Rightarrow> None)"

text \<open>\<open>filepath.Dir\<close> of a clean absolute path.\<close>

definition path_dir :: "string \<Rightarrow> string" where
  "path_dir p = (let d = rev (drop 1 (dropWhile (\<lambda>c. c \<noteq> CHR ''/'') (rev p))) in if d = [] then ''/'' else d)"

text \<open>The order in which a \<open>range\<close> loop visits the keys of a map: any permutation the environment likes.\<close>

definition range_keys :: "env \<Rightarrow> 'v gomap \<Rightarrow> ('a world_scheme, string list) proc" where
  "range_keys e m = getP (\<lambda>s. let ks = map fst m; o' = e_order e (trace s) ks in if mset o' = mset ks then o' else ks)"

text \<open>Metadata queries.\<close>

definition getNetworks :: "env \<Rightarrow> ('a world_scheme, Network list) proc" where
  "getNetworks e = ask e GetNetworks (\<lambda>s. e_networks e (trace s))"

definition getHosts :: "env \<Rightarrow> ('a world_scheme, Host list) proc" where
  "getHosts e = ask e GetHosts (\<lambda>s. e_hosts e (trace s))"

definition getSelfHost :: "env \<Rightarrow> ('a world_scheme, Host) proc" where
  "getSelfHost e = ask e GetSelfHost (\<lambda>s. e_selfHost e (trace s))"

definition getContainers :: "env \<Rightarrow> ('a world_scheme, Container list) proc" where
  "getContainers e = ask e GetContainers (\<lambda>s. e_containers e (trace s))"

definition getServices :: "env \<Rightarrow> ('a world_scheme, Service list) proc" where
  "getServices e = ask e GetServices (\<lambda>s. e_services e (trace s))"

section \<open>Reasoning\<close>

text \<open>Which calls only look: their success or failure changes nothing outside.\<close>

fun reads_only :: "call \<Rightarrow> bool" where
  "reads_only (Output _) = True"
| "reads_only (ReadFile _) = True"
| "reads_only (StatFile _) = True"
| "reads_only GetNetworks = True"
| "reads_only GetHosts = True"
| "reads_only GetSelfHost = True"
| "reads_only GetContainers = True"
| "reads_only GetServices = True"
| "reads_only (ContainerInspect _) = True"
| "reads_only (OpenNamespace _) = True"
| "reads_only (NetlinkHandle _) = True"
| "reads_only (ReadNamespace _) = True"
| "reads_only ContainerList = True"
| "reads_only (Lstat _) = True"
| "reads_only (LstatDir _) = True"
| "reads_only (StatDir _) = True"
| "reads_only (LinkList _) = True"
| "reads_only (ConfFiles _) = True"
| "reads_only (ConfFromFile _) = True"
| "reads_only (NsEnter _) = True"
| "reads_only NsLeave = True"
| "reads_only NeighList = True"
| "reads_only (RouteGet _) = True"
| "reads_only HostLinks = True"
| "reads_only (HostAddrs _) = True"
| "reads_only (LinkByName _) = True"
| "reads_only GetVersion = True"
| "reads_only (WaitVersion _ _) = True"
| "reads_only (Sleep _) = True"
| "reads_only Clock = True"
| "reads_only _ = False"

text \<open>The part of a state's trace beyond a given history satisfies \<open>P\<close>.\<close>

definition since :: "event list \<Rightarrow> (event list \<Rightarrow> bool) \<Rightarrow> 'a world_scheme \<Rightarrow> bool" where
  "since t P s \<longleftrightarrow> (\<exists>u. trace s = t @ u \<and> P u)"

text \<open>Only calls in \<open>C\<close> were made since \<open>t\<close>.\<close>

abbreviation only_since :: "event list \<Rightarrow> (call \<Rightarrow> bool) \<Rightarrow> 'a world_scheme \<Rightarrow> bool" where
  "only_since t C \<equiv> since t (\<lambda>u. \<forall>ev \<in> set u. C (fst ev))"

lemma since_refl: "P [] \<Longrightarrow> since (trace s) P s"
  by (simp add: since_def)

lemma only_since_refl [simp]: "only_since (trace s) C s"
  by (simp add: since_def)

lemma trace_after [simp]: "trace (after e c s) = trace s @ [(c, outcome e c s)]"
  by (simp add: after_def)

lemma more_after [simp]: "world.more (after e c s) = world.more s"
  by (simp add: after_def)

lemma since_step:
  "since t P s \<Longrightarrow> trace s' = trace s @ [ev] \<Longrightarrow> (\<And>u. P u \<Longrightarrow> Q (u @ [ev])) \<Longrightarrow> since t Q s'"
  by (auto simp: since_def)

lemma hoare_ask [hoare_rules]:
  "(\<And>s. P s \<Longrightarrow> outcome e c s = None \<Longrightarrow> Q (f s) (after e c s)) \<Longrightarrow>
   (\<And>s er. P s \<Longrightarrow> outcome e c s = Some er \<Longrightarrow> E er (after e c s)) \<Longrightarrow> hoare P (ask e c f) Q E"
  by (auto simp: hoare_def ask_def split: option.splits)

lemma hoare_perform [hoare_rules]:
  "(\<And>s. P s \<Longrightarrow> outcome e c s = None \<Longrightarrow> Q () (after e c s)) \<Longrightarrow>
   (\<And>s er. P s \<Longrightarrow> outcome e c s = Some er \<Longrightarrow> E er (after e c s)) \<Longrightarrow> hoare P (perform e c) Q E"
  unfolding perform_def by (rule hoare_ask)

lemma keepsD_any: "hoare P m (\<lambda>_. Q) (\<lambda>_. Q) \<Longrightarrow> P s \<Longrightarrow> m s = (r, s') \<Longrightarrow> Q s'"
  by (cases r) (auto dest: hoare_okD hoare_errD)

lemma hoare_finally [hoare_rules]:
  "hoare P m Q' E' \<Longrightarrow> (\<And>x. hoare (Q' x) c (\<lambda>_. Q x) (\<lambda>_. Q x)) \<Longrightarrow>
   (\<And>er. hoare (E' er) c (\<lambda>_. E er) (\<lambda>_. E er)) \<Longrightarrow> hoare P (finallyP m c) Q E"
proof -
  assume m: "hoare P m Q' E'" and q: "\<And>x. hoare (Q' x) c (\<lambda>_. Q x) (\<lambda>_. Q x)"
    and e: "\<And>er. hoare (E' er) c (\<lambda>_. E er) (\<lambda>_. E er)"
  have "case finallyP m c s of (Inr x, s') \<Rightarrow> Q x s' | (Inl er, s') \<Rightarrow> E er s'" if P: "P s" for s
  proof -
    obtain r t where mt: "m s = (r, t)" by fastforce
    obtain r' t' where ct: "c t = (r', t')" by fastforce
    show ?thesis
    proof (cases r)
      case (Inr x)
      have "Q' x t" using hoare_okD [OF m P] mt Inr by blast
      then have "Q x t'" using keepsD_any [OF q _ ct] by blast
      then show ?thesis by (simp add: finallyP_def mt ct Inr)
    next
      case (Inl er)
      have "E' er t" using hoare_errD [OF m P] mt Inl by blast
      then have "E er t'" using keepsD_any [OF e _ ct] by blast
      then show ?thesis by (simp add: finallyP_def mt ct Inl)
    qed
  qed
  then show ?thesis by (simp add: hoare_def)
qed

lemma hoare_report [hoare_rules]:
  "(\<And>s. P s \<Longrightarrow> Q () (s\<lparr>trace := trace s @ [(Report c er, None)]\<rparr>)) \<Longrightarrow> hoare P (report c er) Q E"
  by (simp add: hoare_def report_def)

lemma hoare_now [hoare_rules]:
  "(\<And>s. P s \<Longrightarrow> Q (e_now e (trace s)) (s\<lparr>trace := trace s @ [(Clock, None)]\<rparr>)) \<Longrightarrow> hoare P (time_Now e) Q E"
  by (simp add: hoare_def time_Now_def)

text \<open>The files a call can change.\<close>

fun touches :: "call \<Rightarrow> string set" where
  "touches (WriteFile p _) = {p}"
| "touches (CreateTemp p) = {p}"
| "touches (WriteTemp p _) = {p}"
| "touches (RenameFile p q) = {p, q}"
| "touches (RemoveFile p) = {p}"
| "touches (RemoveAll d) = {p. under d p}"
| "touches (Symlink _ p) = {p}"
| "touches _ = {}"

lemma after_untouched: "p \<notin> touches c \<Longrightarrow> files (after e c s) p = files s p"
  by (cases c; cases "e_torn e (trace s) c") (auto simp: after_def)

lemma hoare_untouched:
  "p \<notin> touches c \<Longrightarrow> hoare (\<lambda>s. R (files s p)) (perform e c) (\<lambda>_ s. R (files s p)) (\<lambda>_ s. R (files s p))"
  by (rule hoare_perform) (simp_all add: after_untouched)

subsection \<open>Procedures that keep the program's own state and make only some calls\<close>

text \<open>\<open>calls_only C m\<close>: however \<open>m\<close> returns, it extended the trace by calls in \<open>C\<close> only and left the
  fields that extend \<open>world\<close> alone.\<close>

definition calls_only :: "(call \<Rightarrow> bool) \<Rightarrow> ('a world_scheme, 'b) proc \<Rightarrow> bool" where
  "calls_only C m \<longleftrightarrow> (\<forall>s r s'. m s = (r, s') \<longrightarrow>
     only_since (trace s) C s' \<and> world.more s' = world.more s)"

named_theorems calls_rules \<open>introduction rules for calls_only\<close>

lemma calls_onlyD:
  "calls_only C m \<Longrightarrow> m s = (r, s') \<Longrightarrow> only_since (trace s) C s' \<and> world.more s' = world.more s"
  by (auto simp: calls_only_def)

lemma calls_mono: "calls_only C m \<Longrightarrow> (\<And>c. C c \<Longrightarrow> D c) \<Longrightarrow> calls_only D m"
  by (fastforce simp: calls_only_def since_def)

lemma only_since_trans:
  "only_since (trace s) C s' \<Longrightarrow> only_since (trace s') C s'' \<Longrightarrow> only_since (trace s) C s''"
  by (auto simp: since_def)

lemma calls_ask [calls_rules]: "C c \<Longrightarrow> calls_only C (ask e c f)"
  by (auto simp: calls_only_def ask_def since_def)

lemma calls_perform [calls_rules]: "C c \<Longrightarrow> calls_only C (perform e c)"
  unfolding perform_def by (rule calls_ask)

lemma calls_text_of [calls_rules]: "C c \<Longrightarrow> calls_only C (text_of e c)"
  unfolding text_of_def by (rule calls_ask)

lemma calls_ret [calls_rules]: "calls_only C (retP x)"
  by (auto simp: calls_only_def retP_def since_def)

lemma calls_raise [calls_rules]: "calls_only C (raiseP x)"
  by (auto simp: calls_only_def raiseP_def since_def)

lemma calls_lift [calls_rules]: "calls_only C (liftP x)"
  by (auto simp: calls_only_def liftP_def since_def)

lemma calls_get [calls_rules]: "calls_only C (getP f)"
  by (auto simp: calls_only_def getP_def since_def)

lemma calls_range [calls_rules]: "calls_only C (range_keys e m)"
  unfolding range_keys_def by (rule calls_get)

lemma calls_bind [calls_rules]: "calls_only C m \<Longrightarrow> (\<And>x. calls_only C (f x)) \<Longrightarrow> calls_only C (bindP m f)"
proof -
  assume m: "calls_only C m" and f: "\<And>x. calls_only C (f x)"
  have "only_since (trace s) C s' \<and> world.more s' = world.more s" if h: "bindP m f s = (r, s')" for s r s'
  proof (cases "m s")
    case (Pair q t)
    note t = calls_onlyD [OF m Pair]
    show ?thesis
    proof (cases q)
      case (Inr x)
      with h Pair have "f x t = (r, s')" by (simp add: bindP_def)
      note s' = calls_onlyD [OF f this]
      show ?thesis using only_since_trans [OF conjunct1 [OF t] conjunct1 [OF s']] t s' by simp
    qed (use h Pair t in \<open>simp add: bindP_def\<close>)
  qed
  then show ?thesis by (auto simp: calls_only_def)
qed

lemma calls_try [calls_rules]: "calls_only C m \<Longrightarrow> calls_only C (tryP m)"
  by (auto simp: calls_only_def tryP_def split: prod.splits)

lemma calls_wrap [calls_rules]: "calls_only C m \<Longrightarrow> calls_only C (wrapP g m)"
  by (auto simp: calls_only_def wrapP_def split: prod.splits)

lemma calls_when [calls_rules]: "(b \<Longrightarrow> calls_only C m) \<Longrightarrow> calls_only C (whenP b m)"
  by (auto simp: whenP_def calls_ret)

lemma calls_if [calls_rules]: "(b \<Longrightarrow> calls_only C m) \<Longrightarrow> (\<not> b \<Longrightarrow> calls_only C m') \<Longrightarrow> calls_only C (if b then m else m')"
  by simp

lemma calls_let [calls_rules]: "calls_only C (f x) \<Longrightarrow> calls_only C (Let x f)"
  by simp

lemma calls_option [calls_rules]:
  "(x = None \<Longrightarrow> calls_only C m) \<Longrightarrow> (\<And>y. x = Some y \<Longrightarrow> calls_only C (f y)) \<Longrightarrow> calls_only C (case x of None \<Rightarrow> m | Some y \<Rightarrow> f y)"
  by (cases x) auto

lemma calls_sum [calls_rules]:
  "(\<And>y. x = Inl y \<Longrightarrow> calls_only C (m y)) \<Longrightarrow> (\<And>y. x = Inr y \<Longrightarrow> calls_only C (f y)) \<Longrightarrow> calls_only C (case x of Inl y \<Rightarrow> m y | Inr y \<Rightarrow> f y)"
  by (cases x) auto

lemma calls_prod [calls_rules]:
  "(\<And>a b. x = (a, b) \<Longrightarrow> calls_only C (f a b)) \<Longrightarrow> calls_only C (case x of (a, b) \<Rightarrow> f a b)"
  by (cases x) auto

lemma calls_for [calls_rules]: "(\<And>x. x \<in> set xs \<Longrightarrow> calls_only C (f x)) \<Longrightarrow> calls_only C (forP f xs)"
  by (induction xs) (auto intro: calls_ret calls_bind)

lemma calls_fold [calls_rules]:
  "(\<And>x acc. x \<in> set xs \<Longrightarrow> calls_only C (f x acc)) \<Longrightarrow> calls_only C (foldP f xs acc)"
  by (induction xs arbitrary: acc) (auto intro: calls_ret calls_bind)

lemma calls_finally [calls_rules]: "calls_only C m \<Longrightarrow> calls_only C c \<Longrightarrow> calls_only C (finallyP m c)"
proof -
  assume h: "calls_only C m" "calls_only C c"
  have "calls_only C (bindP (tryP m) (\<lambda>r. bindP (tryP c) (\<lambda>_. liftP r)))"
    using h by (intro calls_rules)
  moreover have "finallyP m c s = bindP (tryP m) (\<lambda>r. bindP (tryP c) (\<lambda>_. liftP r)) s" for s
    by (simp add: finallyP_def bindP_def tryP_def liftP_def split: prod.splits)
  ultimately show ?thesis by (simp add: calls_only_def)
qed

lemma calls_report [calls_rules]: "C (Report c er) \<Longrightarrow> calls_only C (report c er)"
  by (auto simp: calls_only_def report_def since_def)

lemma calls_now [calls_rules]: "C Clock \<Longrightarrow> calls_only C (time_Now e)"
  by (auto simp: calls_only_def time_Now_def since_def)

lemma calls_sleep [calls_rules]: "C (Sleep d) \<Longrightarrow> calls_only C (time_Sleep d)"
  by (auto simp: calls_only_def time_Sleep_def since_def)

lemma hoare_sleep [hoare_rules]:
  "(\<And>s. P s \<Longrightarrow> Q () (s\<lparr>trace := trace s @ [(Sleep d, None)]\<rparr>)) \<Longrightarrow> hoare P (time_Sleep d) Q E"
  by (simp add: hoare_def time_Sleep_def)

lemma calls_docker [calls_rules]:
  "C (ContainerInspect cid) \<Longrightarrow> calls_only C (dc_ContainerInspect e cid)"
  "C ContainerList \<Longrightarrow> calls_only C (dc_ContainerList e)" "C (Lstat p) \<Longrightarrow> calls_only C (os_Lstat e p)"
  "C (LstatDir p) \<Longrightarrow> calls_only C (os_LstatDir e p)"
  by (simp_all add: dc_ContainerInspect_def dc_ContainerList_def os_Lstat_def os_LstatDir_def calls_ask)

lemma calls_queries [calls_rules]:
  "C GetNetworks \<Longrightarrow> calls_only C (getNetworks e)" "C GetHosts \<Longrightarrow> calls_only C (getHosts e)"
  "C GetSelfHost \<Longrightarrow> calls_only C (getSelfHost e)" "C GetContainers \<Longrightarrow> calls_only C (getContainers e)"
  "C GetServices \<Longrightarrow> calls_only C (getServices e)" "C (ReadFile p) \<Longrightarrow> calls_only C (os_ReadFile e p)"
  by (simp_all add: getNetworks_def getHosts_def getSelfHost_def getContainers_def getServices_def os_ReadFile_def calls_ask)

subsection \<open>Procedures that emit only some calls\<close>

definition emits :: "(call \<Rightarrow> bool) \<Rightarrow> ('a world_scheme, 'b) proc \<Rightarrow> bool" where
  "emits C m \<longleftrightarrow> (\<forall>s r s'. m s = (r, s') \<longrightarrow> only_since (trace s) C s')"

named_theorems emits_rules \<open>introduction rules for emits\<close>

lemma emitsD: "emits C m \<Longrightarrow> m s = (r, s') \<Longrightarrow> only_since (trace s) C s'"
  by (auto simp: emits_def)

lemma emits_calls: "calls_only C m \<Longrightarrow> emits C m"
  by (auto simp: emits_def calls_only_def)

lemma emits_basic [emits_rules]:
  "emits C (retP x)" "emits C (raiseP er)" "emits C (liftP r)" "emits C (getP f)"
  "C c \<Longrightarrow> emits C (perform e c)" "C c \<Longrightarrow> emits C (text_of e c)" "C c \<Longrightarrow> emits C (ask e c g)"
  "C Clock \<Longrightarrow> emits C (time_Now e)" "C (Sleep d) \<Longrightarrow> emits C (time_Sleep d)" "emits C (range_keys e m)"
  "C (Report cpt rep) \<Longrightarrow> emits C (report cpt rep)"
  by (auto intro!: emits_calls calls_rules)

lemma emits_queries [emits_rules]:
  "C (ContainerInspect cid) \<Longrightarrow> emits C (dc_ContainerInspect e cid)" "C ContainerList \<Longrightarrow> emits C (dc_ContainerList e)"
  "C (Lstat p) \<Longrightarrow> emits C (os_Lstat e p)" "C (LstatDir q) \<Longrightarrow> emits C (os_LstatDir e q)" "C GetNetworks \<Longrightarrow> emits C (getNetworks e)"
  "C GetHosts \<Longrightarrow> emits C (getHosts e)" "C GetSelfHost \<Longrightarrow> emits C (getSelfHost e)" "C GetContainers \<Longrightarrow> emits C (getContainers e)"
  "C GetServices \<Longrightarrow> emits C (getServices e)" "C (ReadFile f) \<Longrightarrow> emits C (os_ReadFile e f)"
  by (auto intro!: emits_calls calls_rules)

lemma emits_modify [emits_rules]: "(\<And>s. trace (f s) = trace s) \<Longrightarrow> emits C (modifyP f)"
  by (auto simp: emits_def modifyP_def since_def)

lemma emits_bind [emits_rules]: "emits C m \<Longrightarrow> (\<And>x. emits C (f x)) \<Longrightarrow> emits C (bindP m f)"
proof -
  assume m: "emits C m" and f: "\<And>x. emits C (f x)"
  have "only_since (trace s) C s'" if h: "bindP m f s = (r, s')" for s r s'
  proof (cases "m s")
    case (Pair q t)
    show ?thesis
    proof (cases q)
      case (Inr x)
      with h Pair have "f x t = (r, s')" by (simp add: bindP_def)
      then show ?thesis using only_since_trans [OF emitsD [OF m Pair] emitsD [OF f]] by blast
    qed (use h Pair emitsD [OF m Pair] in \<open>simp add: bindP_def\<close>)
  qed
  then show ?thesis by (auto simp: emits_def)
qed

lemma emits_wrap [emits_rules]: "emits C m \<Longrightarrow> emits C (wrapP g m)"
  by (auto simp: emits_def wrapP_def split: prod.splits)

lemma emits_try [emits_rules]: "emits C m \<Longrightarrow> emits C (tryP m)"
  by (auto simp: emits_def tryP_def split: prod.splits)

lemma emits_control [emits_rules]:
  "emits C m0 \<Longrightarrow> emits C (whenP b m0)" "emits C m \<Longrightarrow> emits C m' \<Longrightarrow> emits C (if b then m else m')"
  "emits C m \<Longrightarrow> (\<And>y. emits C (f y)) \<Longrightarrow> emits C (case x of None \<Rightarrow> m | Some y \<Rightarrow> f y)"
  "(\<And>y. emits C (g y)) \<Longrightarrow> (\<And>z. emits C (h z)) \<Longrightarrow> emits C (case w of Inl y \<Rightarrow> g y | Inr z \<Rightarrow> h z)"
  "(\<And>a b. emits C (k a b)) \<Longrightarrow> emits C (case p of (a, b) \<Rightarrow> k a b)" "emits C (j v) \<Longrightarrow> emits C (Let v j)"
  by (auto simp: whenP_def emits_basic(1) split: option.split sum.split prod.split)

lemma emits_for [emits_rules]: "(\<And>x. emits C (f x)) \<Longrightarrow> emits C (forP f xs)"
  by (induction xs) (auto intro: emits_basic(1) emits_bind)

lemma emits_fold [emits_rules]: "(\<And>x acc. emits C (f x acc)) \<Longrightarrow> emits C (foldP f xs acc)"
  by (induction xs arbitrary: acc) (auto intro: emits_basic(1) emits_bind)

lemma emits_finally [emits_rules]: "emits C m \<Longrightarrow> emits C c \<Longrightarrow> emits C (finallyP m c)"
proof -
  assume h: "emits C m" "emits C c"
  have "emits C (bindP (tryP m) (\<lambda>r. bindP (tryP c) (\<lambda>_. liftP r)))" using h by (intro emits_rules)
  moreover have "finallyP m c s = bindP (tryP m) (\<lambda>r. bindP (tryP c) (\<lambda>_. liftP r)) s" for s
    by (simp add: finallyP_def bindP_def tryP_def liftP_def split: prod.splits)
  ultimately show ?thesis by (simp add: emits_def)
qed

subsection \<open>Order of events\<close>

text \<open>Every event of a history satisfies \<open>K\<close> with respect to the events before it.\<close>

definition each_after :: "(event list \<Rightarrow> event \<Rightarrow> bool) \<Rightarrow> event list \<Rightarrow> bool" where
  "each_after K u \<longleftrightarrow> (\<forall>a ev c. u = a @ ev # c \<longrightarrow> K a ev)"

lemma each_after_Nil [simp]: "each_after K []"
  by (simp add: each_after_def)

lemma each_after_snoc [simp]: "each_after K (u @ [ev]) \<longleftrightarrow> each_after K u \<and> K u ev"
proof
  assume h: "each_after K (u @ [ev])"
  have "K u ev" using h unfolding each_after_def by blast
  moreover have "each_after K u"
    unfolding each_after_def
  proof (intro allI impI)
    fix a ev' c
    assume "u = a @ ev' # c"
    then have "u @ [ev] = a @ ev' # (c @ [ev])" by simp
    then show "K a ev'" using h unfolding each_after_def by blast
  qed
  ultimately show "each_after K u \<and> K u ev" by blast
next
  assume h: "each_after K u \<and> K u ev"
  show "each_after K (u @ [ev])"
    unfolding each_after_def
  proof (intro allI impI)
    fix a ev' c
    assume e: "u @ [ev] = a @ ev' # c"
    show "K a ev'"
    proof (cases c rule: rev_cases)
      case Nil
      with e h show ?thesis by simp
    next
      case (snoc c' x)
      with e have "u = a @ ev' # c'" by simp
      with h show ?thesis unfolding each_after_def by blast
    qed
  qed
qed

text \<open>Facts about a history that later events cannot undo.\<close>

definition stable :: "(event list \<Rightarrow> bool) \<Rightarrow> bool" where
  "stable A \<longleftrightarrow> (\<forall>u v. A u \<longrightarrow> A (u @ v))"

named_theorems stable_rules \<open>stability of facts about histories\<close>

lemma stable_in [stable_rules]: "stable (\<lambda>u. ev \<in> set u)"
  by (simp add: stable_def)

lemma stable_const [stable_rules]: "stable (\<lambda>u. b)"
  by (simp add: stable_def)

lemma stable_conj [stable_rules]: "stable A \<Longrightarrow> stable B \<Longrightarrow> stable (\<lambda>u. A u \<and> B u)"
  by (simp add: stable_def)

lemma stable_disj [stable_rules]: "stable A \<Longrightarrow> stable B \<Longrightarrow> stable (\<lambda>u. A u \<or> B u)"
  by (auto simp: stable_def)

lemma stable_imp [stable_rules]: "(b \<Longrightarrow> stable A) \<Longrightarrow> stable (\<lambda>u. b \<longrightarrow> A u)"
  by (auto simp: stable_def)

lemma stable_if [stable_rules]: "stable A \<Longrightarrow> stable B \<Longrightarrow> stable (\<lambda>u. if b then A u else B u)"
  by (auto simp: stable_def)

lemma stable_ex [stable_rules]: "(\<And>x. stable (A x)) \<Longrightarrow> stable (\<lambda>u. \<exists>x. A x u)"
  by (fastforce simp: stable_def)

lemma stable_all [stable_rules]: "(\<And>x. stable (A x)) \<Longrightarrow> stable (\<lambda>u. \<forall>x. A x u)"
  by (auto simp: stable_def)

lemma stable_ball [stable_rules]: "(\<And>x. x \<in> X \<Longrightarrow> stable (A x)) \<Longrightarrow> stable (\<lambda>u. \<forall>x \<in> X. A x u)"
  by (auto simp: stable_def)

text \<open>The history since \<open>t\<close> is well ordered and satisfies \<open>A\<close>.\<close>

definition hist :: "event list \<Rightarrow> (event list \<Rightarrow> event \<Rightarrow> bool) \<Rightarrow> (event list \<Rightarrow> bool) \<Rightarrow> 'a world_scheme \<Rightarrow> bool" where
  "hist t K A = since t (\<lambda>u. A u \<and> each_after K u)"

lemma hist_emits:
  assumes "emits C m" and "stable A" and "\<And>a c r. A a \<Longrightarrow> C c \<Longrightarrow> K a (c, r)"
  shows "hoare (hist t K A) m (\<lambda>_. hist t K A) (\<lambda>_. hist t K A)"
proof -
  have ext: "A (u @ v) \<and> each_after K (u @ v)"
    if "A u" "each_after K u" "\<forall>ev \<in> set v. C (fst ev)" for u v
    using that(3)
  proof (induction v rule: rev_induct)
    case Nil
    then show ?case using that by simp
  next
    case (snoc ev v)
    then have ih: "A (u @ v)" "each_after K (u @ v)" and C: "C (fst ev)" by auto
    have "A ((u @ v) @ [ev])" using ih(1) assms(2) unfolding stable_def by blast
    moreover have "K (u @ v) ev" using assms(3) [OF ih(1) C] by (cases ev) auto
    ultimately show ?case using ih(2) by (simp flip: append_assoc)
  qed
  have "hist t K A s'" if h: "hist t K A s" "m s = (r, s')" for s r s'
  proof -
    from emitsD [OF assms(1) h(2)] obtain v where v: "trace s' = trace s @ v" "\<forall>ev \<in> set v. C (fst ev)"
      by (auto simp: since_def)
    from h(1) obtain u where u: "trace s = t @ u" "A u" "each_after K u" by (auto simp: hist_def since_def)
    have "trace s' = t @ (u @ v)" using u v by simp
    then show ?thesis using ext [OF u(2,3) v(2)] unfolding hist_def since_def by blast
  qed
  then show ?thesis unfolding hoare_def by (auto split: prod.splits sum.splits)
qed

lemma hist_calls:
  assumes "calls_only C m" and "stable A" and "\<And>a c r. A a \<Longrightarrow> C c \<Longrightarrow> K a (c, r)"
  shows "hoare (hist t K A) m (\<lambda>_. hist t K A) (\<lambda>_. hist t K A)"
  by (rule hist_emits [OF emits_calls [OF assms(1)] assms(2)]) (rule assms(3))

lemma hist_perform:
  assumes "\<And>a r. A a \<Longrightarrow> K a (c, r)" and "\<And>u. A u \<Longrightarrow> A' (u @ [(c, None)])"
    and "\<And>u er. A u \<Longrightarrow> E er (u @ [(c, Some er)])"
  shows "hoare (hist t K A) (perform e c) (\<lambda>_. hist t K A') (\<lambda>er. hist t K (E er))"
  using assms
  by (intro hoare_perform) (fastforce simp: hist_def since_def)+

lemma hist_weaken: "hist t K A s \<Longrightarrow> (\<And>u. A u \<Longrightarrow> B u) \<Longrightarrow> hist t K B s"
  by (auto simp: hist_def since_def)

lemma hist_start: "A [] \<Longrightarrow> hist (trace s) K A s"
  by (simp add: hist_def since_def)

lemma histD: "hist t K A s \<Longrightarrow> \<exists>u. trace s = t @ u \<and> A u \<and> each_after K u"
  by (auto simp: hist_def since_def)

section \<open>An environment for examples\<close>

text \<open>Nothing fails and everything asked for is empty.\<close>

definition quiet_env :: env where
  "quiet_env = \<lparr>e_fail = (\<lambda>_ _. None), e_text = (\<lambda>_ _. []), e_torn = (\<lambda>_ _. None), e_rand = (\<lambda>_. ''1''), e_order = (\<lambda>_ ks. ks),
     e_now = (\<lambda>_. 0), e_networks = (\<lambda>_. []), e_hosts = (\<lambda>_. []), e_selfHost = (\<lambda>_. zero_Host),
     e_containers = (\<lambda>_. []), e_services = (\<lambda>_. []),
     e_inspect = (\<lambda>_ cid. zero_DockerContainer\<lparr>dk_ID := cid, dk_Labels := Some []\<rparr>), e_addrs = (\<lambda>_ _. []),
     e_list = (\<lambda>_. []), e_lstat = (\<lambda>_ _. \<lparr>fi_Regular = True, fi_Dir = False, fi_Symlink = False, fi_Perm = 420\<rparr>), e_samefile = (\<lambda>_ _ _. False),
     e_links = (\<lambda>_ _. 1), e_dir = (\<lambda>_ _. []), e_cni = (\<lambda>_ _. []), e_neigh = (\<lambda>_. []), e_routes = (\<lambda>_ _. [1]),
     e_hostlinks = (\<lambda>_. 0), e_hostaddrs = (\<lambda>_ _. []), e_link = (\<lambda>_ _. (1, [])), e_version = (\<lambda>_. [])\<rparr>"

end
