(* ===== verification/Identity.thy ===== *)
theory Identity
  imports World
begin

text \<open>
  \<open>src/identity/identity.go\<close>: which host this manager runs on.  The container id is read from
  \<open>/proc/self/mountinfo\<close>, the container's labels from Docker, and the host from the metadata services;
  the \<open>/self/host\<close> answer is a fallback only.
\<close>

section \<open>The container id\<close>

definition containerMountPrefix :: string where
  "containerMountPrefix = ''/var/lib/docker/containers/''"

definition mount_line_id :: "string \<Rightarrow> string option" where
  "mount_line_id line =
     (if \<not> str_contains line ''/etc/hosts'' \<and> \<not> str_contains line ''/etc/hostname'' \<and> \<not> str_contains line ''/etc/resolv.conf''
      then None
      else (case str_index line containerMountPrefix of
          None \<Rightarrow> None
        | Some idx \<Rightarrow>
            let rest = drop (idx + length containerMountPrefix) line in
            (case str_index rest ''/'' of
               None \<Rightarrow> None
             | Some slash \<Rightarrow> if slash = 0 then None else Some (take slash rest))))"

fun first_id :: "string list \<Rightarrow> string option" where
  "first_id [] = None"
| "first_id (l # ls) = (case mount_line_id l of None \<Rightarrow> first_id ls | Some i \<Rightarrow> Some i)"

definition currentContainerID :: "env \<Rightarrow> ('a world_scheme, string) proc" where
  "currentContainerID e =
     bindP (wrapP (Wrapf ''read /proc/self/mountinfo: %w'' []) (os_ReadFile e ''/proc/self/mountinfo'')) (\<lambda>content.
       case first_id (str_lines content) of
         Some i \<Rightarrow> retP i
       | None \<Rightarrow> raiseP (Errorf ''current container id not found in mountinfo'' []))"

section \<open>The host\<close>

text \<open>The identity of the container: uuid, name and external id, each possibly empty.\<close>

definition is_own :: "string \<Rightarrow> string \<Rightarrow> string \<Rightarrow> Container \<Rightarrow> bool" where
  "is_own ownUUID ownName ownExternalID c \<longleftrightarrow>
     ownUUID \<noteq> [] \<and> ctr_UUID c = ownUUID
     \<or> ownExternalID \<noteq> [] \<and> ctr_ExternalId c = ownExternalID
     \<or> ownName \<noteq> [] \<and> ctr_Name c = ownName"

definition own_host :: "string \<Rightarrow> string \<Rightarrow> string \<Rightarrow> Service list \<Rightarrow> string result" where
  "own_host ownUUID ownName ownExternalID services =
     (case find (is_own ownUUID ownName ownExternalID) (concat (map svc_Containers services)) of
        Some c \<Rightarrow> Inr (ctr_HostUUID c)
      | None \<Rightarrow> Inl (Errorf ''current container not found in metadata services uuid=%s name=%s id=%s''
          [ownUUID, ownName, ownExternalID]))"

definition localHostUUIDFromDockerLabels :: "env \<Rightarrow> ('a world_scheme, string) proc" where
  "localHostUUIDFromDockerLabels e =
     bindP (currentContainerID e) (\<lambda>cid.
     bindP (wrapP (Wrapf ''inspect current container %s: %w'' [cid])
              (dc_ContainerInspect e cid)) (\<lambda>inspect.
     case dk_Labels inspect of
       None \<Rightarrow> raiseP (Errorf ''current container inspect has no config'' [])
     | Some labels \<Rightarrow>
         let ownUUID = mget [] labels ''io.rancher.container.uuid'';
             ownName = mget [] labels ''io.rancher.container.name'';
             ownExternalID = dk_ID inspect
         in if ownUUID = [] \<and> ownName = [] \<and> ownExternalID = []
            then raiseP (Errorf ''current container has no compatible identity labels'' [])
            else
              bindP (wrapP (Wrapf ''get services: %w'' []) (getServices e)) (\<lambda>services.
                liftP (own_host ownUUID ownName ownExternalID services))))"

definition LocalHostUUID :: "env \<Rightarrow> ('a world_scheme, string) proc" where
  "LocalHostUUID e =
     bindP (tryP (localHostUUIDFromDockerLabels e)) (\<lambda>r.
       case r of
         Inr hostUUID \<Rightarrow> if hostUUID \<noteq> [] then retP hostUUID
           else bindP (wrapP (Wrapf ''get self host: %w'' []) (getSelfHost e)) (\<lambda>host.
             if host_UUID host = [] then raiseP (Errorf ''metadata self host has empty uuid'' []) else retP (host_UUID host))
       | Inl _ \<Rightarrow> bindP (wrapP (Wrapf ''get self host: %w'' []) (getSelfHost e)) (\<lambda>host.
             if host_UUID host = [] then raiseP (Errorf ''metadata self host has empty uuid'' []) else retP (host_UUID host)))"

definition LocalHost :: "env \<Rightarrow> ('a world_scheme, Host) proc" where
  "LocalHost e =
     bindP (LocalHostUUID e) (\<lambda>hostUUID.
     bindP (wrapP (Wrapf ''get hosts: %w'' []) (getHosts e)) (\<lambda>hosts.
     case find (\<lambda>h. host_UUID h = hostUUID) hosts of
       Some host \<Rightarrow> retP host
     | None \<Rightarrow>
         bindP (getSelfHost e) (\<lambda>selfHost.
           if host_UUID selfHost = hostUUID then retP selfHost
           else raiseP (Errorf ''local host UUID %s not found in metadata hosts'' [hostUUID]))))"

section \<open>Properties\<close>

text \<open>Looking up the host changes nothing.\<close>

lemma calls_LocalHostUUID [calls_rules]: "calls_only reads_only (LocalHostUUID e)"
  unfolding LocalHostUUID_def localHostUUIDFromDockerLabels_def currentContainerID_def Let_def
  by (intro calls_rules) simp_all

lemma calls_LocalHost [calls_rules]: "calls_only reads_only (LocalHost e)"
  unfolding LocalHost_def by (intro calls_rules) simp_all

text \<open>The id is the whole path component that follows Docker's container directory.\<close>

lemma mount_line_id_ok:
  assumes "mount_line_id line = Some i"
  shows "i \<noteq> [] \<and> CHR ''/'' \<notin> set i \<and> (\<exists>a b. line = a @ containerMountPrefix @ i @ ''/'' @ b)"
proof -
  from assms obtain idx slash where idx: "str_index line containerMountPrefix = Some idx"
    and slash: "str_index (drop (idx + length containerMountPrefix) line) ''/'' = Some slash" "slash \<noteq> 0"
    and i: "i = take slash (drop (idx + length containerMountPrefix) line)"
    by (auto simp: mount_line_id_def Let_def split: if_splits option.splits)
  let ?rest = "drop (idx + length containerMountPrefix) line"
  have rest: "?rest = i @ ''/'' @ drop (slash + 1) ?rest"
    using str_index_Some [OF slash(1)] i by simp
  have line: "line = take idx line @ containerMountPrefix @ i @ ''/'' @ drop (slash + 1) ?rest"
    using str_index_Some [OF idx] rest by (metis (no_types))
  have "?rest \<noteq> []" using slash(1,2) by (cases ?rest) auto
  then have "i \<noteq> []" using slash(2) i by simp
  then show ?thesis using str_index_char [OF slash(1)] i line by metis
qed

text \<open>The Docker labels of the manager's own container decide which host it is on.  If the labels (or
  the container's external id) identify it in the metadata services, the host returned is the one of
  that service container, whatever \<open>/self/host\<close> answers; and no lookup ever returns a host without a
  UUID.\<close>

theorem LocalHost_from_labels:
  assumes "LocalHost e s = (Inr host, s')"
  shows "host_UUID host \<noteq> []
    \<and> (\<forall>u s1. localHostUUIDFromDockerLabels e s = (Inr u, s1) \<and> u \<noteq> [] \<longrightarrow> host_UUID host = u)"
proof -
  obtain r s1 where l: "localHostUUIDFromDockerLabels e s = (r, s1)" by fastforce
  from assms obtain u s2 where u: "LocalHostUUID e s = (Inr u, s2)"
    by (auto simp: LocalHost_def bindP_def split: prod.splits sum.splits)
  have h: "host_UUID host = u"
    using assms u by (auto simp: LocalHost_def bindP_def retP_def raiseP_def wrapP_def dest!: find_SomeD
        split: prod.splits sum.splits option.splits if_splits)
  have ne: "u \<noteq> []"
    using u by (auto simp: LocalHostUUID_def bindP_def tryP_def retP_def raiseP_def wrapP_def
        split: prod.splits sum.splits if_splits)
  have "u = v" if "r = Inr v" "v \<noteq> []" for v
    using u that l by (auto simp: LocalHostUUID_def bindP_def tryP_def retP_def)
  with h ne l show ?thesis by auto
qed

definition ex_services :: "Service list" where
  "ex_services = [zero_Service\<lparr>svc_Containers := [zero_Container\<lparr>ctr_ExternalId := ''abc'', ctr_HostUUID := ''host-1''\<rparr>]\<rparr>]"

text \<open>A manager in container \<open>abc\<close> of host 1, whose metadata says \<open>/self/host\<close> is another host.\<close>

definition ex_env :: env where
  "ex_env = quiet_env\<lparr>e_hosts := (\<lambda>_. [zero_Host\<lparr>host_UUID := ''host-2''\<rparr>, zero_Host\<lparr>host_UUID := ''host-1'', host_AgentIP := ''192.0.2.1''\<rparr>]),
     e_selfHost := (\<lambda>_. zero_Host\<lparr>host_UUID := ''host-2''\<rparr>), e_services := (\<lambda>_. ex_services)\<rparr>"

definition ex_world :: world where
  "ex_world = \<lparr>trace = [], files = [''/proc/self/mountinfo'' \<mapsto>
     ''1 2 0:1 /var/lib/docker/containers/abc/hostname /etc/hostname rw'']\<rparr>"

lemma ex_LocalHost:
  "fst (localHostUUIDFromDockerLabels ex_env ex_world) = Inr ''host-1''"
  "fst (LocalHost ex_env ex_world) = Inr (zero_Host\<lparr>host_UUID := ''host-1'', host_AgentIP := ''192.0.2.1''\<rparr>)"
  by code_simp+

theorem LocalHost_from_labels_witness:
  "\<exists>host s'. LocalHost ex_env ex_world = (Inr host, s') \<and> host_UUID host = ''host-1''
    \<and> host_UUID (e_selfHost ex_env []) = ''host-2''"
proof -
  obtain host s' where s': "LocalHost ex_env ex_world = (Inr host, s')"
    using ex_LocalHost(2) by (cases "LocalHost ex_env ex_world") simp
  have "host_UUID host = ''host-1''"
    using LocalHost_from_labels [OF s'] ex_LocalHost(1)
    by (cases "localHostUUIDFromDockerLabels ex_env ex_world") auto
  then show ?thesis using s' by (simp add: ex_env_def)
qed

end
