(* ===== verification/AtomicFile.thy ===== *)
theory AtomicFile
  imports World
begin

text \<open>
  Replacing a file by writing a temporary file next to it and renaming it into place: the idiom of the
  route_localnet ownership file, the readiness marker, the container network state, the CNI driver
  wrappers and the CNI configuration.  The steps are proved once; \<open>atomic_writer\<close> is the contract the
  clients rely on.
\<close>

section \<open>Steps\<close>

text \<open>A step whose error is handled.\<close>

lemma hoare_tryE:
  "hoare P m (\<lambda>x. hoare_post x) E' \<Longrightarrow> (\<And>x. hoare (hoare_post x) (f (Inr x)) Q E) \<Longrightarrow>
    (\<And>er. hoare (E' er) (f (Inl er)) Q E) \<Longrightarrow> hoare P (bindP (tryP m) f) Q E"
  by (rule hoare_bind [where R = "\<lambda>r. case r of Inr x \<Rightarrow> hoare_post x | Inl er \<Rightarrow> E' er"])
    (auto intro!: hoare_try split: sum.split)

text \<open>A failed chmod, write or sync closes the temporary file before returning.\<close>

definition or_close :: "env \<Rightarrow> string \<Rightarrow> ('a world_scheme, unit) proc \<Rightarrow> ('a world_scheme, unit) proc" where
  "or_close e name m =
     bindP (tryP m) (\<lambda>r. case r of Inr _ \<Rightarrow> retP ()
       | Inl er \<Rightarrow> bindP (tryP (perform e (CloseFile name))) (\<lambda>_. raiseP er))"

text \<open>Contents of the state file and of a temporary file next to it.\<close>

definition held :: "string \<Rightarrow> string option \<Rightarrow> string \<Rightarrow> string option \<Rightarrow> 'a world_scheme \<Rightarrow> bool" where
  "held path old name tmp s \<longleftrightarrow> name \<noteq> path \<and> files s path = old \<and> files s name = tmp"

lemma hoare_or_close:
  assumes "hoare P m Q E'" and "\<And>er. hoare (E' er) (perform e (CloseFile name)) (\<lambda>_. E er) (\<lambda>_. E er)"
  shows "hoare P (or_close e name m) Q E"
  unfolding or_close_def
proof (rule hoare_bind)
  show "hoare P (tryP m) (\<lambda>r. case r of Inl er \<Rightarrow> E' er | Inr x \<Rightarrow> Q x) E"
    by (rule hoare_try) (simp add: assms(1))
  show "hoare ((\<lambda>r. case r of Inl er \<Rightarrow> E' er | Inr x \<Rightarrow> Q x) r)
      (case r of Inr _ \<Rightarrow> retP () | Inl er \<Rightarrow> bindP (tryP (perform e (CloseFile name))) (\<lambda>_. raiseP er)) Q E" for r
  proof (cases r)
    case (Inl er)
    have "hoare (E' er) (tryP (perform e (CloseFile name))) (\<lambda>_. E er) E"
      by (rule hoare_try) (rule assms(2))
    then have "hoare (E' er) (bindP (tryP (perform e (CloseFile name))) (\<lambda>_. raiseP er)) Q E"
      by (rule hoare_bind) (simp add: hoare_raise)
    then show ?thesis by (simp add: Inl)
  qed (auto intro: hoare_ret)
qed

lemma close_keeps: "hoare (\<lambda>s. files s path = old \<and> name \<noteq> path) (perform e (CloseFile name))
    (\<lambda>_ s. files s path = old \<and> name \<noteq> path) (\<lambda>_ s. files s path = old \<and> name \<noteq> path)"
  by (rule hoare_perform) (simp_all add: after_untouched)

lemma held_step:
  "path \<notin> touches c \<Longrightarrow> name \<notin> touches c \<Longrightarrow>
    hoare (held path old name tmp) (or_close e name (perform e c)) (\<lambda>_. held path old name tmp) (\<lambda>_ s. files s path = old \<and> name \<noteq> path)"
  by (rule hoare_or_close [OF hoare_perform close_keeps]) (auto simp: held_def after_untouched)

lemma write_step:
  "hoare (held path old name (Some [])) (or_close e name (perform e (WriteTemp name d)))
     (\<lambda>_. held path old name (Some d)) (\<lambda>_ s. files s path = old \<and> name \<noteq> path)"
proof (rule hoare_or_close [OF hoare_perform close_keeps])
  fix s :: "'a world_scheme" and er
  assume h: "held path old name (Some []) s"
  then show "files (after e (WriteTemp name d) s) path = old \<and> name \<noteq> path"
    by (auto simp: held_def after_untouched)
  assume "outcome e (WriteTemp name d) s = None"
  with h show "held path old name (Some d) (after e (WriteTemp name d) s)"
    by (auto simp: held_def after_def)
qed

lemma rename_step:
  "hoare (held path old name (Some d)) (perform e (RenameFile name path))
     (\<lambda>_ s. files s path = Some d \<and> name \<noteq> path) (\<lambda>_ s. files s path = old \<and> name \<noteq> path)"
proof (rule hoare_perform)
  fix s :: "'a world_scheme" and er
  assume h: "held path old name (Some d) s"
  { assume "outcome e (RenameFile name path) s = None"
    then show "files (after e (RenameFile name path) s) path = Some d \<and> name \<noteq> path"
      using h by (simp add: held_def after_def) }
  { assume "outcome e (RenameFile name path) s = Some er"
    then show "files (after e (RenameFile name path) s) path = old \<and> name \<noteq> path"
      using h by (cases "e_torn e (trace s) (RenameFile name path)") (auto simp: held_def after_def) }
qed

lemma create_step:
  assumes "\<And>r. path_dir path @ ''/'' @ pre @ r \<noteq> path"
  shows "hoare (\<lambda>s. files s path = old) (os_CreateTemp e (path_dir path) pre)
    (\<lambda>name. held path old name (Some [])) (\<lambda>_ s. files s path = old)"
proof -
  have "hoare (\<lambda>s. name \<noteq> path \<and> files s path = old) (perform e (CreateTemp name))
      (\<lambda>_. held path old name (Some [])) (\<lambda>_ s. files s path = old)" for name :: string
    by (rule hoare_perform) (auto simp: held_def after_untouched, simp add: after_def)
  then show ?thesis unfolding os_CreateTemp_def
    using assms
    by (intro hoare_bind [where R = "\<lambda>name s. name \<noteq> path \<and> files s path = old"] hoare_get
        hoare_bind [where R = "\<lambda>_. held path old _ (Some [])"] hoare_ret) auto
qed

section \<open>The contract\<close>

text \<open>A writer of \<open>path\<close>: after a success the file holds the new content, after a failure the old one.  A
  reader therefore sees complete contents only, whatever fails and however often it is retried.\<close>

locale atomic_writer =
  fixes path :: string and encode :: "'c \<Rightarrow> string" and store :: "'c \<Rightarrow> ('a world_scheme, unit) proc"
  assumes replaces: "hoare (\<lambda>s. files s path = old) (store d) (\<lambda>_ s. files s path = Some (encode d)) (\<lambda>_ s. files s path = old)"
begin

lemma store_result:
  assumes "store d s = (r, s')"
  shows "files s' path = (if r = Inr () then Some (encode d) else files s path)"
  using hoare_okD [OF replaces [of "files s path" d] refl] hoare_errD [OF replaces [of "files s path" d] refl] assms
  by (cases r) auto

lemma complete_content:
  assumes "store d s = (r, s')"
  shows "files s' path \<in> {files s path, Some (encode d)}"
  using store_result [OF assms] by simp

lemma never_partial:
  "hoare (\<lambda>s. files s path \<in> insert old ((Some \<circ> encode) ` set ds)) (forP (\<lambda>d. bindP (tryP (store d)) (\<lambda>_. retP ())) ds)
     (\<lambda>_ s. files s path \<in> insert old ((Some \<circ> encode) ` set ds)) (\<lambda>_ _. False)"
proof (rule keeps_for)
  fix d
  assume d: "d \<in> set ds"
  let ?I = "\<lambda>s. files s path \<in> insert old ((Some \<circ> encode) ` set ds)"
  have "?I s'" if "?I s" "store d s = (r, s')" for s r s'
    using complete_content [OF that(2)] that(1) d by fastforce
  then have "hoare ?I (store d) (\<lambda>_. ?I) (\<lambda>_. ?I)"
    by (intro hoareI)
  then show "hoare ?I (bindP (tryP (store d)) (\<lambda>_. retP ())) (\<lambda>_. ?I) (\<lambda>_ _. False)"
    by (intro hoare_bind [where R = "\<lambda>_. ?I"] hoare_try) (auto intro: hoare_ret)
qed

end

end
