(* ===== verification/Json.thy ===== *)
theory Json
  imports Metadata
begin

text \<open>
  The part of \<open>encoding/json\<close> the program uses on text of its own or of \<open>nft -j\<close>: the strict grammar
  of \<open>json.Unmarshal\<close>, decoding into typed fields, and \<open>json.Marshal\<close> of a map.  Bytes above 0x7F in
  strings are passed through, which is what Go does for valid UTF-8.

  An object keeps its members in text order; Go gives a repeated key its last value, so lookups go
  through the reversed list.
\<close>

section \<open>Lexical elements\<close>

definition json_space :: "char \<Rightarrow> bool" where
  "json_space c \<longleftrightarrow> c = CHR 0x20 \<or> c = CHR 0x09 \<or> c = CHR 0x0A \<or> c = CHR 0x0D"

definition skip_ws :: "string \<Rightarrow> string" where
  "skip_ws s = dropWhile json_space s"

definition digits_of :: "string \<Rightarrow> string" where
  "digits_of s = takeWhile is_digit s"

text \<open>The rest of a number after its sign: integer part without leading zero, fraction, exponent.\<close>

definition int_part :: "string \<Rightarrow> string option" where
  "int_part s = (case digits_of s of
       [] \<Rightarrow> None
     | d # ds \<Rightarrow> Some (if d = CHR ''0'' then ''0'' else d # ds))"

definition frac_part :: "string \<Rightarrow> string option" where
  "frac_part s =
     (if s = [] \<or> hd s \<noteq> CHR ''.'' then Some []
      else if digits_of (tl s) = [] then None else Some (CHR ''.'' # digits_of (tl s)))"

definition exp_part :: "string \<Rightarrow> string option" where
  "exp_part s =
     (if s = [] \<or> (hd s \<noteq> CHR ''e'' \<and> hd s \<noteq> CHR ''E'') then Some []
      else
        let sign = (if tl s \<noteq> [] \<and> (hd (tl s) = CHR ''+'' \<or> hd (tl s) = CHR ''-'') then [hd (tl s)] else []);
            ds = digits_of (drop (length sign) (tl s))
        in if ds = [] then None else Some (hd s # sign @ ds))"

definition lex_number :: "string \<Rightarrow> (string \<times> string) option" where
  "lex_number s =
     (let sign = (if s \<noteq> [] \<and> hd s = CHR ''-'' then ''-'' else []); s1 = drop (length sign) s in
      case int_part s1 of None \<Rightarrow> None
      | Some ip \<Rightarrow> (case frac_part (drop (length ip) s1) of None \<Rightarrow> None
        | Some fp \<Rightarrow> (case exp_part (drop (length (ip @ fp)) s1) of None \<Rightarrow> None
          | Some ep \<Rightarrow> Some (sign @ ip @ fp @ ep, drop (length (ip @ fp @ ep)) s1))))"

text \<open>The UTF-8 encoding of a code point below 0x10000, and of a surrogate pair.\<close>

definition utf8 :: "int \<Rightarrow> string" where
  "utf8 n =
     (if n < 0x80 then [char_of n]
      else if n < 0x800 then [char_of (0xC0 + n div 64), char_of (0x80 + n mod 64)]
      else if n < 0x10000 then
        [char_of (0xE0 + n div 4096), char_of (0x80 + n div 64 mod 64), char_of (0x80 + n mod 64)]
      else [char_of (0xF0 + n div 262144), char_of (0x80 + n div 4096 mod 64), char_of (0x80 + n div 64 mod 64),
            char_of (0x80 + n mod 64)])"

definition hex4 :: "string \<Rightarrow> int option" where
  "hex4 s =
     (let val = (\<lambda>c. if is_digit c then Some (digit_val c)
         else if CHR ''a'' \<le> c \<and> c \<le> CHR ''f'' then Some (of_char c - 87)
         else if CHR ''A'' \<le> c \<and> c \<le> CHR ''F'' then Some (of_char c - 55) else (None :: int option))
      in case map val (take 4 s) of
           [Some a, Some b, Some c, Some d] \<Rightarrow> Some (((a * 16 + b) * 16 + c) * 16 + d)
         | _ \<Rightarrow> None)"

definition simple_escape :: "char \<Rightarrow> char option" where
  "simple_escape c =
     (if c = CHR 0x22 \<or> c = CHR 0x5C \<or> c = CHR ''/'' then Some c
      else if c = CHR ''b'' then Some (CHR 0x08) else if c = CHR ''f'' then Some (CHR 0x0C)
      else if c = CHR ''n'' then Some (CHR 0x0A) else if c = CHR ''r'' then Some (CHR 0x0D)
      else if c = CHR ''t'' then Some (CHR 0x09) else None)"

text \<open>A \<open>\\u\<close> escape after its code: a high surrogate joins a following low one, any other surrogate
  becomes U+FFFD.  The result is the text and how much of the rest it used.\<close>

definition unicode_escape :: "int \<Rightarrow> string \<Rightarrow> string \<times> nat" where
  "unicode_escape u rest =
     (if 0xD800 \<le> u \<and> u < 0xE000 then
        (if u < 0xDC00 \<and> take 2 rest = [CHR 0x5C, CHR ''u''] then
           (case hex4 (drop 2 rest) of
              Some v \<Rightarrow> if 0xDC00 \<le> v \<and> v < 0xE000
                then (utf8 (0x10000 + (u - 0xD800) * 1024 + (v - 0xDC00)), 6) else (utf8 0xFFFD, 0)
            | None \<Rightarrow> (utf8 0xFFFD, 0))
         else (utf8 0xFFFD, 0))
      else (utf8 u, 0))"

text \<open>The characters up to the closing quote; \<open>acc\<close> holds the decoded text.\<close>

function lex_string :: "string \<Rightarrow> string \<Rightarrow> (string \<times> string) option" where
  "lex_string [] acc = None"
| "lex_string (c # s) acc =
     (if c = CHR 0x22 then Some (acc, s)
      else if c < CHR 0x20 then None
      else if c \<noteq> CHR 0x5C then lex_string s (acc @ [c])
      else (case s of
          [] \<Rightarrow> None
        | e # s1 \<Rightarrow>
            if e = CHR ''u'' then
              (case hex4 s1 of None \<Rightarrow> None
               | Some u \<Rightarrow> lex_string (drop (4 + snd (unicode_escape u (drop 4 s1))) s1)
                   (acc @ fst (unicode_escape u (drop 4 s1))))
            else (case simple_escape e of None \<Rightarrow> None | Some x \<Rightarrow> lex_string s1 (acc @ [x]))))"
  by pat_completeness auto
termination
  by (relation "measure (\<lambda>(s, _). length s)") auto

section \<open>Values\<close>

text \<open>
  The fuel bounds the number of nested calls; two calls use at least one character, so twice the
  length of the text is enough (\<open>parse_fuel\<close>).
\<close>

fun j_value :: "nat \<Rightarrow> string \<Rightarrow> (json \<times> string) option"
  and j_elems :: "nat \<Rightarrow> string \<Rightarrow> json list \<Rightarrow> (json \<times> string) option"
  and j_members :: "nat \<Rightarrow> string \<Rightarrow> (string \<times> json) list \<Rightarrow> (json \<times> string) option" where
  "j_value 0 s = None"
| "j_value (Suc n) s0 =
     (case skip_ws s0 of
        [] \<Rightarrow> None
      | c # s \<Rightarrow>
          if c = CHR 0x22 then map_option (\<lambda>(t, r). (JStr t, r)) (lex_string s [])
          else if c = CHR ''{'' then
            (case skip_ws s of [] \<Rightarrow> None
             | d # r \<Rightarrow> if d = CHR ''}'' then Some (JObj [], r) else j_members n s [])
          else if c = CHR ''['' then
            (case skip_ws s of [] \<Rightarrow> None
             | d # r \<Rightarrow> if d = CHR '']'' then Some (JArr [], r) else j_elems n s [])
          else if has_prefix (c # s) ''true'' then Some (JBool True, drop 3 s)
          else if has_prefix (c # s) ''false'' then Some (JBool False, drop 4 s)
          else if has_prefix (c # s) ''null'' then Some (JNull, drop 3 s)
          else map_option (\<lambda>(l, r). (JNum l, r)) (lex_number (c # s)))"
| "j_elems 0 s acc = None"
| "j_elems (Suc n) s acc =
     (case j_value n s of None \<Rightarrow> None
      | Some (v, s1) \<Rightarrow>
          (case skip_ws s1 of [] \<Rightarrow> None
           | d # r \<Rightarrow> if d = CHR '']'' then Some (JArr (acc @ [v]), r)
               else if d = CHR '','' then j_elems n r (acc @ [v]) else None))"
| "j_members 0 s acc = None"
| "j_members (Suc n) s acc =
     (case skip_ws s of [] \<Rightarrow> None
      | q # s1 \<Rightarrow>
          if q \<noteq> CHR 0x22 then None
          else (case lex_string s1 [] of None \<Rightarrow> None
            | Some (k, s2) \<Rightarrow>
                (case skip_ws s2 of [] \<Rightarrow> None
                 | d # s3 \<Rightarrow>
                     if d \<noteq> CHR '':'' then None
                     else (case j_value n s3 of None \<Rightarrow> None
                       | Some (v, s4) \<Rightarrow>
                           (case skip_ws s4 of [] \<Rightarrow> None
                            | e # r \<Rightarrow> if e = CHR ''}'' then Some (JObj (acc @ [(k, v)]), r)
                                else if e = CHR '','' then j_members n r (acc @ [(k, v)]) else None)))))"

definition json_parse :: "string \<Rightarrow> json option" where
  "json_parse s =
     (case j_value (2 * length s + 1) s of
        Some (v, rest) \<Rightarrow> if skip_ws rest = [] then Some v else None
      | None \<Rightarrow> None)"

section \<open>Decoding into Go values\<close>

text \<open>Go matches a key with a field name exactly or under Unicode case folding; the folds of ASCII
  letters are the other case, the Kelvin sign and the long s.\<close>

fun fold_key :: "string \<Rightarrow> string" where
  "fold_key [] = []"
| "fold_key (c # s) =
     (if is_upper c then char_of ((of_char c :: int) + 32) # fold_key s
      else if c = CHR 0xC5 \<and> prefix [CHR 0xBF] s then CHR ''s'' # fold_key (tl s)
      else if c = CHR 0xE2 \<and> prefix [CHR 0x84, CHR 0xAA] s then CHR ''k'' # fold_key (drop 2 s)
      else c # fold_key s)"

text \<open>The members that set a struct field, in order; \<open>null\<close> leaves a field alone.\<close>

definition field_values :: "string \<Rightarrow> (string \<times> json) list \<Rightarrow> json list" where
  "field_values name ms = filter (\<lambda>v. v \<noteq> JNull) (map snd (filter (\<lambda>m. fold_key (fst m) = name) ms))"

definition type_error :: gerr where
  "type_error = EnvErr ''json: cannot unmarshal value into Go value''"

definition dec_string :: "string \<Rightarrow> (string \<times> json) list \<Rightarrow> string result" where
  "dec_string name ms = foldR (\<lambda>v _. case v of JStr s \<Rightarrow> Inr s | _ \<Rightarrow> Inl type_error) (field_values name ms) []"

text \<open>A number decodes into an \<open>int\<close> only if its literal is an integer that fits.\<close>

definition dec_int :: "string \<Rightarrow> (string \<times> json) list \<Rightarrow> int result" where
  "dec_int name ms =
     foldR (\<lambda>v _. case v of JNum l \<Rightarrow> (case atoi l of Some i \<Rightarrow> Inr i | None \<Rightarrow> Inl type_error)
       | _ \<Rightarrow> Inl type_error) (field_values name ms) 0"

text \<open>Decoding a top-level object into a struct: \<open>null\<close> leaves it zero.\<close>

definition dec_object :: "json \<Rightarrow> (string \<times> json) list result" where
  "dec_object v = (case v of JObj ms \<Rightarrow> Inr ms | JNull \<Rightarrow> Inr [] | _ \<Rightarrow> Inl type_error)"

text \<open>\<open>map[string]T\<close> from members in text order: the last value of a key wins.\<close>

definition go_map :: "(string \<times> 'a) list \<Rightarrow> 'a gomap" where
  "go_map ms = foldl (\<lambda>m (k, v). mput k v m) [] ms"

text \<open>\<open>[]map[string]json.RawMessage\<close>: the raw values of each element; \<open>null\<close> is a nil slice or map.\<close>

definition dec_raw_items :: "json \<Rightarrow> json gomap list result" where
  "dec_raw_items v =
     (case v of
        JNull \<Rightarrow> Inr []
      | JArr vs \<Rightarrow> foldR (\<lambda>x acc. case x of JObj kvs \<Rightarrow> Inr (acc @ [go_map kvs]) | JNull \<Rightarrow> Inr (acc @ [[]])
          | _ \<Rightarrow> Inl type_error) vs []
      | _ \<Rightarrow> Inl type_error)"

text \<open>The listing of \<open>nft -j\<close>: the items of its \<open>nftables\<close> member.\<close>

definition dec_listing :: "json \<Rightarrow> json gomap list result" where
  "dec_listing v =
     bindR (dec_object v) (\<lambda>ms.
       foldR (\<lambda>x _. dec_raw_items x) (map snd (filter (\<lambda>m. fold_key (fst m) = ''nftables'') ms)) [])"

section \<open>Encoding\<close>

definition hex_digit :: "int \<Rightarrow> char" where
  "hex_digit n = (if n < 10 then char_of (n + 48) else char_of (n + 87))"

definition json_escape :: "char \<Rightarrow> string" where
  "json_escape c =
     (if c = CHR 0x22 \<or> c = CHR 0x5C then [CHR 0x5C, c]
      else if c = CHR 0x0A then [CHR 0x5C, CHR ''n''] else if c = CHR 0x0D then [CHR 0x5C, CHR ''r'']
      else if c = CHR 0x09 then [CHR 0x5C, CHR ''t''] else if c = CHR 0x08 then [CHR 0x5C, CHR ''b'']
      else if c = CHR 0x0C then [CHR 0x5C, CHR ''f'']
      else if c < CHR 0x20 \<or> c = CHR ''<'' \<or> c = CHR ''>'' \<or> c = CHR ''&'' then
        [CHR 0x5C, CHR ''u'', CHR ''0'', CHR ''0'', hex_digit (of_char c div 16), hex_digit (of_char c mod 16)]
      else [c])"

definition json_quote :: "string \<Rightarrow> string" where
  "json_quote s = dquote @ concat (map json_escape s) @ dquote"

definition json_bool :: "bool \<Rightarrow> string" where
  "json_bool b = (if b then ''true'' else ''false'')"

text \<open>\<open>json.Marshal\<close> of a \<open>map[string]bool\<close>: members in key order.\<close>

definition marshal_bool_map :: "bool gomap \<Rightarrow> string" where
  "marshal_bool_map m =
     ''{'' @ str_join '','' (map (\<lambda>k. json_quote k @ '':'' @ json_bool (mget False m k)) (sorted_keys m)) @ ''}''"

section \<open>The fuel is enough\<close>

lemma skip_ws_length: "length (skip_ws s) \<le> length s"
  by (simp add: skip_ws_def length_dropWhile_le)

lemma skip_ws_Cons: "skip_ws s = c # r \<Longrightarrow> length r < length s"
  using skip_ws_length [of s] by simp

lemma lex_string_length: "lex_string s acc = Some (t, r) \<Longrightarrow> length r < length s"
proof (induction s acc rule: lex_string.induct)
  case (2 c s acc)
  then show ?case by (cases s) (fastforce split: if_splits option.splits)+
qed simp

lemma lex_number_length:
  assumes "lex_number s = Some (l, r)"
  shows "length r < length s"
proof -
  have d: "length (digits_of t) \<le> length t" for t by (simp add: digits_of_def length_takeWhile_le)
  have ip: "ip \<noteq> [] \<and> length ip \<le> length t" if "int_part t = Some ip" for t ip
  proof (cases "digits_of t")
    case (Cons a list)
    have "length (a # list) \<le> length t" using d [of t] Cons by simp
    moreover have "ip = (if a = CHR ''0'' then ''0'' else a # list)" using that by (simp add: int_part_def Cons)
    ultimately show ?thesis by simp
  qed (use that in \<open>simp add: int_part_def\<close>)
  from assms obtain t ip fp ep where "int_part t = Some ip" "length t \<le> length s" "r = drop (length (ip @ fp @ ep)) t"
    by (auto simp: lex_number_def Let_def split: option.splits if_splits)
  with ip [of t ip] show ?thesis by (cases ip) auto
qed

lemma j_length_all:
  "(\<forall>s v r. j_value n s = Some (v, r) \<longrightarrow> length r < length s)
   \<and> (\<forall>s acc v r. j_elems n s acc = Some (v, r) \<longrightarrow> length r < length s)
   \<and> (\<forall>s ms v r. j_members n s ms = Some (v, r) \<longrightarrow> length r < length s)"
proof (induction n)
  case (Suc n)
  then have V: "j_value n s = Some (v, r) \<Longrightarrow> length r < length s"
    and E: "j_elems n s acc = Some (v, r) \<Longrightarrow> length r < length s"
    and M: "j_members n s ms = Some (v, r) \<Longrightarrow> length r < length s" for s acc ms v r by blast+
  have "length r < length s" if h: "j_value (Suc n) s = Some (v, r)" for s v r
  proof -
    from h obtain c t where c: "skip_ws s = c # t" by (auto split: list.splits)
    have "length r \<le> length t"
    proof (cases "c = CHR 0x22 \<or> c = CHR ''{'' \<or> c = CHR ''[''")
      case True
      then show ?thesis
      proof (elim disjE)
        assume "c = CHR 0x22"
        then show ?thesis using h c lex_string_length [of t "[]" _ r] by auto
      next
        assume "c = CHR ''{''"
        then show ?thesis using h c M [of t "[]" v r] skip_ws_Cons [of t] by (auto split: list.splits if_splits)
      next
        assume "c = CHR ''[''"
        then show ?thesis using h c E [of t "[]" v r] skip_ws_Cons [of t] by (auto split: list.splits if_splits)
      qed
    next
      case False
      then show ?thesis using h c lex_number_length [of "c # t" _ r] by (auto split: if_splits)
    qed
    then show ?thesis using skip_ws_Cons [OF c] by simp
  qed
  moreover have "length r < length s" if h: "j_elems (Suc n) s acc = Some (v, r)" for s acc v r
  proof -
    from h obtain v1 s1 d r1 where v: "j_value n s = Some (v1, s1)" "skip_ws s1 = d # r1"
      and r: "r = r1 \<or> j_elems n r1 (acc @ [v1]) = Some (v, r)"
      by (auto split: option.splits list.splits if_splits)
    show ?thesis using V [OF v(1)] skip_ws_Cons [OF v(2)] r E [of r1 "acc @ [v1]" v r] by auto
  qed
  moreover have "length r < length s" if h: "j_members (Suc n) s ms = Some (v, r)" for s ms v r
  proof -
    from h obtain s1 k s2 s3 v1 s4 d r1 where v: "skip_ws s = CHR 0x22 # s1" "lex_string s1 [] = Some (k, s2)"
      "skip_ws s2 = CHR '':'' # s3" "j_value n s3 = Some (v1, s4)" "skip_ws s4 = d # r1"
      and r: "r = r1 \<or> j_members n r1 (ms @ [(k, v1)]) = Some (v, r)"
      by (auto split: option.splits list.splits if_splits)
    show ?thesis using skip_ws_Cons [OF v(1)] lex_string_length [OF v(2)] skip_ws_Cons [OF v(3)] V [OF v(4)]
        skip_ws_Cons [OF v(5)] r M [of r1 "ms @ [(k, v1)]" v r] by auto
  qed
  ultimately show ?case by blast
qed simp

lemma j_value_length: "j_value n s = Some (v, r) \<Longrightarrow> length r < length s"
  using j_length_all by blast

lemma j_members_bad:
  assumes "\<nexists>s1 key s2 s3. skip_ws s = CHR 0x22 # s1 \<and> lex_string s1 [] = Some (key, s2) \<and> skip_ws s2 = CHR '':'' # s3"
  shows "j_members n s ms = None"
proof (cases n)
  case (Suc k)
  show ?thesis
  proof (cases "\<exists>s1 key s2. skip_ws s = CHR 0x22 # s1 \<and> lex_string s1 [] = Some (key, s2)")
    case True
    then obtain s1 key s2 where w: "skip_ws s = CHR 0x22 # s1" "lex_string s1 [] = Some (key, s2)" by blast
    then show ?thesis using assms by (cases "skip_ws s2") (auto simp: Suc)
  next
    case False
    then show ?thesis by (auto simp: Suc split: list.splits option.splits)
  qed
qed simp

lemma j_fuel_step:
  "(\<forall>s. 2 * length s + 1 \<le> n \<longrightarrow> j_value n s = j_value (Suc n) s)
   \<and> (\<forall>s acc. 2 * length s + 2 \<le> n \<longrightarrow> j_elems n s acc = j_elems (Suc n) s acc)
   \<and> (\<forall>s ms. 2 * length s + 2 \<le> n \<longrightarrow> j_members n s ms = j_members (Suc n) s ms)"
proof (induction n)
  case (Suc n)
  then have V: "2 * length s + 1 \<le> n \<Longrightarrow> j_value n s = j_value (Suc n) s"
    and E: "2 * length s + 2 \<le> n \<Longrightarrow> j_elems n s acc = j_elems (Suc n) s acc"
    and M: "2 * length s + 2 \<le> n \<Longrightarrow> j_members n s ms = j_members (Suc n) s ms" for s acc ms by blast+
  have "j_value (Suc n) s = j_value (Suc (Suc n)) s" if h: "2 * length s + 1 \<le> Suc n" for s
  proof (cases "skip_ws s")
    case (Cons c t)
    have t: "2 * length t + 2 \<le> n" using skip_ws_Cons [OF Cons] h by simp
    show ?thesis using E [OF t] M [OF t]
      by (simp add: Cons del: j_elems.simps j_members.simps cong: list.case_cong if_cong)
  qed simp
  moreover have "j_elems (Suc n) s acc = j_elems (Suc (Suc n)) s acc" if h: "2 * length s + 2 \<le> Suc n" for s acc
  proof -
    have e: "j_value (Suc n) s = j_value n s" using V [of s] h by simp
    show ?thesis
    proof (cases "j_value n s")
      case (Some p)
      obtain v s1 where p: "p = (v, s1)" by fastforce
      have "j_elems (Suc n) r acc' = j_elems n r acc'" if "skip_ws s1 = d # r" for d r acc'
        using E [of r acc'] skip_ws_Cons [OF that] j_value_length [of n s v s1] Some p h by simp
      then show ?thesis using e Some p
        by (auto simp del: j_value.simps j_elems.simps(2) simp: j_elems.simps(2) [of "Suc n"] j_elems.simps(2) [of n] split: list.splits)
    qed (use e in \<open>simp add: j_elems.simps(2) [of "Suc n"] j_elems.simps(2) [of n] del: j_value.simps\<close>)
  qed
  moreover have "j_members (Suc n) s ms = j_members (Suc (Suc n)) s ms" if h: "2 * length s + 2 \<le> Suc n" for s ms
  proof (cases "\<exists>s1 key s2 s3. skip_ws s = CHR 0x22 # s1 \<and> lex_string s1 [] = Some (key, s2) \<and> skip_ws s2 = CHR '':'' # s3")
    case True
    then obtain s1 key s2 s3 where w: "skip_ws s = CHR 0x22 # s1" "lex_string s1 [] = Some (key, s2)" "skip_ws s2 = CHR '':'' # s3"
      by blast
    have l3: "length s3 < length s"
      using skip_ws_Cons [OF w(1)] lex_string_length [OF w(2)] skip_ws_Cons [OF w(3)] by simp
    have e: "j_value (Suc n) s3 = j_value n s3" using V [of s3] h l3 by simp
    show ?thesis
    proof (cases "j_value n s3")
      case (Some p)
      obtain v s4 where p: "p = (v, s4)" by fastforce
      have "j_members (Suc n) r ms' = j_members n r ms'" if "skip_ws s4 = d # r" for d r ms'
        using M [of r ms'] skip_ws_Cons [OF that] j_value_length [of n s3 v s4] Some p h l3 by simp
      then show ?thesis using e Some p w
        by (auto simp del: j_value.simps j_members.simps(2) simp: j_members.simps(2) [of "Suc n"] j_members.simps(2) [of n] split: list.splits)
    qed (use e w in \<open>simp add: j_members.simps(2) [of "Suc n"] j_members.simps(2) [of n] del: j_value.simps\<close>)
  next
    case False
    then show ?thesis using j_members_bad [OF False] by simp
  qed
  ultimately show ?case by blast
qed simp

lemma parse_fuel: "2 * length s + 1 \<le> n \<Longrightarrow> j_value n s = j_value (2 * length s + 1) s"
  by (induction n rule: dec_induct) (use j_fuel_step in metis)+

text \<open>What the parser reads when it is given at least that much fuel.\<close>

definition reads :: "string \<Rightarrow> json \<Rightarrow> string \<Rightarrow> bool" where
  "reads s v r \<longleftrightarrow> (\<forall>n \<ge> 2 * length s + 1. j_value n s = Some (v, r))"

lemma json_parse_reads: "reads s v r \<Longrightarrow> skip_ws r = [] \<Longrightarrow> json_parse s = Some v"
  by (simp add: reads_def json_parse_def del: j_value.simps)

section \<open>A marshalled map is read back\<close>

text \<open>Texts that need no escape.\<close>

definition plain_char :: "char \<Rightarrow> bool" where
  "plain_char c \<longleftrightarrow> CHR 0x20 \<le> c \<and> c \<noteq> CHR 0x22 \<and> c \<noteq> CHR 0x5C \<and> c \<noteq> CHR ''<'' \<and> c \<noteq> CHR ''>'' \<and> c \<noteq> CHR ''&''"

lemma plain_char_ge: "plain_char c \<Longrightarrow> \<not> c < CHR 0x20"
  unfolding plain_char_def not_less by (elim conjE)

lemma plain_char_neq:
  assumes "plain_char c"
  shows "c \<noteq> CHR 0x0A" "c \<noteq> CHR 0x0D" "c \<noteq> CHR 0x09" "c \<noteq> CHR 0x08" "c \<noteq> CHR 0x0C" "c \<noteq> CHR 0x22" "c \<noteq> CHR 0x5C"
    "c \<noteq> CHR ''<''" "c \<noteq> CHR ''>''" "c \<noteq> CHR ''&''"
proof -
  have small: "\<not> plain_char d" if "d < CHR 0x20" for d using that plain_char_ge by blast
  have "CHR 0x0A < CHR 0x20" "CHR 0x0D < CHR 0x20" "CHR 0x09 < CHR 0x20" "CHR 0x08 < CHR 0x20" "CHR 0x0C < CHR 0x20"
    by (simp_all add: less_char_def)
  then show "c \<noteq> CHR 0x0A" "c \<noteq> CHR 0x0D" "c \<noteq> CHR 0x09" "c \<noteq> CHR 0x08" "c \<noteq> CHR 0x0C"
    using small assms by blast+
  show "c \<noteq> CHR 0x22" "c \<noteq> CHR 0x5C" "c \<noteq> CHR ''<''" "c \<noteq> CHR ''>''" "c \<noteq> CHR ''&''"
    using assms unfolding plain_char_def by simp_all
qed

lemma json_quote_plain: "\<forall>c \<in> set s. plain_char c \<Longrightarrow> json_quote s = dquote @ s @ dquote"
proof -
  assume h: "\<forall>c \<in> set s. plain_char c"
  have esc: "json_escape c = [c]" if "plain_char c" for c
    using plain_char_neq [OF that] plain_char_ge [OF that] by (simp add: json_escape_def)
  have "concat (map json_escape s) = s" using h by (induction s) (simp_all add: esc)
  then show ?thesis by (simp add: json_quote_def)
qed

lemma lex_string_plain:
  "\<forall>c \<in> set s. plain_char c \<Longrightarrow> lex_string (s @ CHR 0x22 # r) acc = Some (acc @ s, r)"
proof (induction s arbitrary: acc)
  case (Cons c s)
  then have "c \<noteq> CHR 0x22" "\<not> c < CHR 0x20" "c \<noteq> CHR 0x5C" using plain_char_neq plain_char_ge by simp_all
  with Cons show ?case by simp
qed simp

lemma j_value_bool: "0 < n \<Longrightarrow> j_value n (json_bool b @ r) = Some (JBool b, r)"
  by (cases n; cases b) (simp_all add: json_bool_def skip_ws_def json_space_def has_prefix_def)

definition member_text :: "string \<times> bool \<Rightarrow> string" where
  "member_text kv = dquote @ fst kv @ dquote @ '':'' @ json_bool (snd kv)"

lemma j_members_read:
  assumes "kvs \<noteq> []" and "\<forall>kv \<in> set kvs. \<forall>c \<in> set (fst kv). plain_char c" and "length kvs < n"
  shows "j_members n (str_join '','' (map member_text kvs) @ ''}'' @ r) ms
    = Some (JObj (ms @ map (map_prod id JBool) kvs), r)"
  using assms
proof (induction kvs arbitrary: n ms)
  case (Cons kv kvs)
  obtain k b where kv: "kv = (k, b)" by fastforce
  obtain m where n: "n = Suc m" "0 < m" using Cons.prems(3) by (cases n) auto
  have lex: "lex_string (k @ CHR 0x22 # t) [] = Some (k, t)" for t
    using Cons.prems(2) kv lex_string_plain [of k t "[]"] by simp
  have ws: "skip_ws (CHR 0x22 # t) = CHR 0x22 # t" "skip_ws (CHR '':'' # t) = CHR '':'' # t"
    "skip_ws (CHR '','' # t) = CHR '','' # t" "skip_ws (CHR ''}'' # t) = CHR ''}'' # t" for t
    by (simp_all add: skip_ws_def json_space_def)
  show ?case
  proof (cases "kvs = []")
    case True
    then show ?thesis
      by (simp add: kv n member_text_def ws lex j_value_bool del: j_value.simps)
  next
    case False
    then have j: "str_join '','' (map member_text (kv # kvs)) = member_text kv @ '','' @ str_join '','' (map member_text kvs)"
      by (simp add: str_join_Cons)
    show ?thesis using Cons.IH [OF False, of m "ms @ [(k, JBool b)]"] Cons.prems n
      unfolding j by (simp add: kv member_text_def [of "(k, b)"] ws lex j_value_bool del: j_value.simps)
  qed
qed simp

lemma marshal_bool_map_text:
  assumes "\<forall>k \<in> set (map fst m). \<forall>c \<in> set k. plain_char c"
  shows "marshal_bool_map m = ''{'' @ str_join '','' (map member_text (map (\<lambda>k. (k, mget False m k)) (sorted_keys m))) @ ''}''"
proof -
  have "map (\<lambda>k. json_quote k @ '':'' @ json_bool (mget False m k)) (sorted_keys m)
      = map member_text (map (\<lambda>k. (k, mget False m k)) (sorted_keys m))"
    using assms by (simp add: json_quote_plain member_text_def)
  then show ?thesis unfolding marshal_bool_map_def by (simp only:)
qed

lemma bool_map_read:
  assumes "\<forall>k \<in> set (map fst m). \<forall>c \<in> set k. plain_char c" and "length m + 1 < n"
  shows "j_value n (marshal_bool_map m @ r) = Some (JObj (map (\<lambda>k. (k, JBool (mget False m k))) (sorted_keys m)), r)"
proof -
  obtain k where n: "n = Suc k" using assms(2) by (cases n) auto
  let ?kvs = "map (\<lambda>k. (k, mget False m k)) (sorted_keys m)"
  have ws: "skip_ws (CHR ''{'' # t) = CHR ''{'' # t" "skip_ws (CHR ''}'' # t) = CHR ''}'' # t" for t
    by (simp_all add: skip_ws_def json_space_def)
  show ?thesis
  proof (cases "m = []")
    case True
    then show ?thesis using assms by (simp add: marshal_bool_map_def n ws sorted_keys_def)
  next
    case False
    then have ne: "?kvs \<noteq> []" by (simp add: sorted_keys_def) (metis length_0_conv length_map length_sort)
    obtain q qs where q: "?kvs = q # qs" using ne by (cases ?kvs) auto
    have "j_members k (str_join '','' (map member_text ?kvs) @ ''}'' @ r) [] = Some (JObj ([] @ map (map_prod id JBool) ?kvs), r)"
      using assms n by (intro j_members_read ne) (auto simp: sorted_keys_def)
    moreover have "\<exists>t. str_join '','' (map member_text ?kvs) = CHR 0x22 # t"
      unfolding q by (cases qs) (simp_all add: member_text_def)
    then obtain t where t: "str_join '','' (map member_text ?kvs) = CHR 0x22 # t" by blast
    moreover have "skip_ws (CHR 0x22 # t @ ''}'' @ r) = CHR 0x22 # t @ ''}'' @ r" by (simp add: skip_ws_def json_space_def)
    ultimately show ?thesis
      unfolding marshal_bool_map_text [OF assms(1)] n by (simp add: ws comp_def del: j_members.simps)
  qed
qed

end
