(* ===== verification/RouteLocalnet.thy ===== *)
theory RouteLocalnet
  imports AtomicFile Json HostPortRender
begin

text \<open>
  \<open>src/hostports/route_localnet.go\<close>: ownership of the per-bridge \<open>route_localnet\<close> switches.  The state
  file records the values the switches had before the manager changed them; it is replaced
  atomically and written before any switch is turned on, so that a restart can restore them.

  \<open>hp_state\<close> is the state of the host-port watcher (\<open>watcher\<close> in \<open>watcher.go\<close>): what it last applied and
  when, and the recorded original values.  The test hooks of the Go struct are not part of it; the
  functions below are the ones the production watcher installs.
\<close>

record hp_state = world +
  hp_applied :: ruleSet
  hp_lastApplied :: "int option"
  hp_original :: "bool gomap"

definition routeLocalnetStatePath :: string where
  "routeLocalnetStatePath = ''/run/pasturestack/network-plugin-manager/route-localnet.json''"

section \<open>The state file\<close>

text \<open>\<open>json.Marshal(persistedRouteLocalnetState{Version: 1, Original: original})\<close> and a newline.\<close>

definition marshal_state :: "bool gomap \<Rightarrow> string" where
  "marshal_state original =
     ''{'' @ json_quote ''version'' @ '':1,'' @ json_quote ''original'' @ '':'' @ marshal_bool_map original @ ''}'' @ nl"

text \<open>\<open>json.Unmarshal\<close> of one \<open>original\<close> member: \<open>null\<close> makes the map nil, a \<open>null\<close> value is false, entries
  are added to the map already there.\<close>

definition dec_bool_entry :: "string \<times> json \<Rightarrow> bool gomap \<Rightarrow> bool gomap result" where
  "dec_bool_entry kv m = (case snd kv of JBool b \<Rightarrow> Inr (mput (fst kv) b m) | JNull \<Rightarrow> Inr (mput (fst kv) False m)
     | _ \<Rightarrow> Inl type_error)"

definition dec_original :: "(string \<times> json) list \<Rightarrow> bool gomap option result" where
  "dec_original ms =
     foldR (\<lambda>v cur. case v of JNull \<Rightarrow> Inr None
       | JObj kvs \<Rightarrow> bindR (foldR dec_bool_entry kvs (entries cur)) (\<lambda>m. Inr (Some m))
       | _ \<Rightarrow> Inl type_error)
       (map snd (filter (\<lambda>m. fold_key (fst m) = ''original'') ms)) None"

definition decode_state :: "string \<Rightarrow> (int \<times> bool gomap option) result" where
  "decode_state data =
     (case json_parse data of
        None \<Rightarrow> Inl (EnvErr ''invalid JSON'')
      | Some v \<Rightarrow> bindR (dec_object v) (\<lambda>ms.
          bindR (dec_int ''version'' ms) (\<lambda>version. bindR (dec_original ms) (\<lambda>original. Inr (version, original)))))"

text \<open>What \<open>loadRouteLocalnetState\<close> makes of the file's text.\<close>

definition state_of_text :: "string \<Rightarrow> string \<Rightarrow> bool gomap result" where
  "state_of_text path data =
     bindR (wrapR (Wrapf ''decode %s: %w'' [path]) (decode_state data)) (\<lambda>(version, original).
       case original of
         None \<Rightarrow> Inl (Errorf ''unsupported or incomplete state in %s'' [path])
       | Some m \<Rightarrow>
           if version \<noteq> 1 then Inl (Errorf ''unsupported or incomplete state in %s'' [path])
           else bindR (checkR (\<lambda>(bridge, _). wrapR (Wrapf ''invalid persisted bridge: %w'' []) (validateBridgeName bridge)) m)
             (\<lambda>_. Inr m))"

definition loadRouteLocalnetState :: "env \<Rightarrow> string \<Rightarrow> ('a world_scheme, bool gomap) proc" where
  "loadRouteLocalnetState e path =
     bindP (tryP (os_ReadFile e path)) (\<lambda>r.
       case r of
         Inl er \<Rightarrow> if os_is_not_exist er then retP [] else raiseP er
       | Inr data \<Rightarrow> liftP (state_of_text path data))"

definition saveRouteLocalnetState :: "env \<Rightarrow> string \<Rightarrow> bool gomap \<Rightarrow> ('a world_scheme, unit) proc" where
  "saveRouteLocalnetState e path original =
     (if path = [] then retP ()
      else
        bindP (perform e (MkdirAll (path_dir path))) (\<lambda>_.
        bindP (os_CreateTemp e (path_dir path) ''.route-localnet-'') (\<lambda>name.
          finallyP
            (bindP (or_close e name (perform e (ChmodFile name 384))) (\<lambda>_.
             bindP (or_close e name (perform e (WriteTemp name (marshal_state original)))) (\<lambda>_.
             bindP (or_close e name (perform e (SyncFile name))) (\<lambda>_.
             bindP (perform e (CloseFile name)) (\<lambda>_.
               perform e (RenameFile name path))))))
            (perform e (RemoveFile name)))))"

section \<open>The switches\<close>

definition rl_path :: "string \<Rightarrow> string" where
  "rl_path bridge = ''/proc/sys/net/ipv4/conf/'' @ bridge @ ''/route_localnet''"

definition readBridgeRouteLocalnet :: "env \<Rightarrow> string \<Rightarrow> ('a world_scheme, bool) proc" where
  "readBridgeRouteLocalnet e bridge =
     bindP (liftP (validateBridgeName bridge)) (\<lambda>_.
     bindP (os_ReadFile e (rl_path bridge)) (\<lambda>value.
       if trim_space value = ''0'' then retP False
       else if trim_space value = ''1'' then retP True
       else raiseP (Errorf ''unexpected route_localnet value for bridge %s'' [bridge])))"

definition setBridgeRouteLocalnet :: "env \<Rightarrow> string \<Rightarrow> bool \<Rightarrow> ('a world_scheme, unit) proc" where
  "setBridgeRouteLocalnet e bridge enabled =
     bindP (liftP (validateBridgeName bridge)) (\<lambda>_.
     bindP (tryP (perform e (WriteFile (rl_path bridge) ((if enabled then ''1'' else ''0'') @ nl)))) (\<lambda>r.
       case r of
         Inr _ \<Rightarrow> retP ()
       | Inl er \<Rightarrow> if \<not> enabled \<and> os_is_not_exist er then retP () else raiseP er))"

section \<open>Restoring and activating\<close>

text \<open>The recorded bridges the new rule set no longer needs, sorted.\<close>

definition removed_bridges :: "bool gomap \<Rightarrow> ruleSet \<Rightarrow> string list" where
  "removed_bridges original rules =
     sort (filter (\<lambda>b. \<not> mget False (rs_RouteLocalnetBridges rules) b) (map fst original))"

definition restoreRemovedRouteLocalnet :: "env \<Rightarrow> ruleSet \<Rightarrow> ('a hp_state_scheme, unit) proc" where
  "restoreRemovedRouteLocalnet e rules =
     bindP (getP hp_original) (\<lambda>original.
       forP (\<lambda>bridge. wrapP (Wrapf ''restore route_localnet on bridge %s: %w'' [bridge])
               (setBridgeRouteLocalnet e bridge (mget False original bridge)))
         (removed_bridges original rules))"

text \<open>The value to record for a bridge: the one already recorded, else the one the kernel has now.\<close>

definition next_original :: "env \<Rightarrow> bool gomap \<Rightarrow> string \<Rightarrow> bool gomap \<Rightarrow> ('a world_scheme, bool gomap) proc" where
  "next_original e original bridge acc =
     (case map_of original bridge of
        Some v \<Rightarrow> retP (mput bridge v acc)
      | None \<Rightarrow>
          bindP (wrapP (Wrapf ''read route_localnet on bridge %s: %w'' [bridge]) (readBridgeRouteLocalnet e bridge))
            (\<lambda>v. retP (mput bridge v acc)))"

definition activateRouteLocalnet :: "env \<Rightarrow> ruleSet \<Rightarrow> ('a hp_state_scheme, unit) proc" where
  "activateRouteLocalnet e rules =
     (let bridges = sortedEnabledBridges (rs_RouteLocalnetBridges rules) in
      bindP (getP hp_original) (\<lambda>original.
      bindP (foldP (next_original e original) bridges []) (\<lambda>next.
      bindP (wrapP (Wrapf ''persist route_localnet ownership: %w'' [])
               (saveRouteLocalnetState e routeLocalnetStatePath next)) (\<lambda>_.
      bindP (modifyP (\<lambda>s. s\<lparr>hp_original := next\<rparr>)) (\<lambda>_.
        forP (\<lambda>bridge. wrapP (Wrapf ''enable guarded route_localnet on bridge %s: %w'' [bridge])
                (setBridgeRouteLocalnet e bridge True)) bridges)))))"

section \<open>A saved state is read back\<close>

lemma bridge_char_plain: "bridge_char c \<Longrightarrow> plain_char c"
proof -
  assume "bridge_char c"
  then consider "is_alnum c" | "c = CHR ''_''" | "c = CHR ''-''" | "c = CHR ''.''" by (auto simp: bridge_char_def)
  then show ?thesis
  proof cases
    case 1
    then show ?thesis
      by (auto simp: plain_char_def is_alnum_def is_lower_def is_upper_def is_digit_def less_eq_char_def)
  qed (simp_all add: plain_char_def less_eq_char_def)
qed

lemma valid_bridge_plain: "validateBridgeName b = Inr () \<Longrightarrow> \<forall>c \<in> set b. plain_char c"
  using bridge_char_plain by (simp add: validateBridgeName_def list_all_iff split: if_splits)

lemma length_join:
  assumes "\<And>p. f p \<noteq> []"
  shows "length ps \<le> length (str_join sep (map f ps))"
proof (induction ps rule: induct_list012)
  case (3 x y zs)
  have "1 \<le> length (f x)" using assms [of x] by (cases "f x") auto
  with 3 show ?case by simp
qed (use assms in \<open>auto simp: Suc_le_eq\<close>)

lemma marshal_state_parse:
  assumes "\<forall>k \<in> set (map fst m). \<forall>c \<in> set k. plain_char c"
  shows "json_parse (marshal_state m) = Some (JObj [(''version'', JNum ''1''),
     (''original'', JObj (map (\<lambda>k. (k, JBool (mget False m k))) (sorted_keys m)))])"
proof -
  let ?o = "JObj (map (\<lambda>k. (k, JBool (mget False m k))) (sorted_keys m))"
  have q: "json_quote ''version'' = dquote @ ''version'' @ dquote" "json_quote ''original'' = dquote @ ''original'' @ dquote"
    by code_simp+
  let ?t2 = "dquote @ ''original'' @ dquote @ '':'' @ marshal_bool_map m @ ''}'' @ nl"
  let ?t = "dquote @ ''version'' @ dquote @ '':1,'' @ ?t2"
  have tx: "marshal_state m = ''{'' @ ?t" by (simp add: marshal_state_def q)
  have "length m \<le> length (marshal_bool_map m)"
    using length_join [of "\<lambda>k. json_quote k @ '':'' @ json_bool (mget False m k)" "sorted_keys m" "'',''"]
    by (simp add: marshal_bool_map_def sorted_keys_def)
  then have len: "length m + 10 < length ?t" by simp
  define n where "n = 2 * length ?t"
  have n: "2 * length (marshal_state m) + 1 = Suc (Suc (Suc n))" "length m + 1 < n"
    using len by (simp_all add: n_def tx)
  have ws: "skip_ws (c # t) = c # t" if "\<not> json_space c" for c t using that by (simp add: skip_ws_def)
  have nsp: "\<not> json_space (CHR 0x22)" "\<not> json_space (CHR '':'')" "\<not> json_space (CHR '','')" "\<not> json_space (CHR ''{'')"
    "\<not> json_space (CHR ''}'')" "\<not> json_space (CHR ''1'')" by (simp_all add: json_space_def)
  note ws' = nsp [THEN ws]
  have l1: "lex_string (''version'' @ dquote @ t) [] = Some (''version'', t)"
    and l2: "lex_string (''original'' @ dquote @ t) [] = Some (''original'', t)" for t by simp_all
  have num: "j_value (Suc k) (''1,'' @ t) = Some (JNum ''1'', '','' @ t)" for k t
    by (simp add: skip_ws_def json_space_def has_prefix_def lex_number_def int_part_def frac_part_def exp_part_def
        digits_of_def is_digit_def Let_def less_eq_char_def)
  have "j_value n (marshal_bool_map m @ ''}'' @ nl) = Some (?o, ''}'' @ nl)"
    using assms n(2) by (intro bool_map_read) auto
  then have m2: "j_members (Suc n) ?t2 ms = Some (JObj (ms @ [(''original'', ?o)]), nl)" for ms
    using l2 [of "'':'' @ marshal_bool_map m @ ''}'' @ nl"] by (simp add: ws' del: j_value.simps lex_string.simps)
  have "j_members (Suc (Suc n)) ?t [] = j_members (Suc n) ?t2 [(''version'', JNum ''1'')]"
    using l1 [of "'':1,'' @ ?t2"] num [of n "?t2"] by (simp add: ws' del: j_value.simps lex_string.simps j_members.simps(2) add: j_members.simps(2) [of "Suc n"])
  with m2 have m1: "j_members (Suc (Suc n)) ?t [] = Some (JObj [(''version'', JNum ''1''), (''original'', ?o)], nl)"
    by simp
  have "j_value (Suc (Suc (Suc n))) (''{'' @ ?t) = Some (JObj [(''version'', JNum ''1''), (''original'', ?o)], nl)"
    using m1 by (simp add: ws' del: j_members.simps)
  then show ?thesis
    unfolding json_parse_def n(1) by (simp add: tx skip_ws_def json_space_def del: j_value.simps)
qed

lemma atoi_1: "atoi ''1'' = Some 1"
  by code_simp

lemma dec_bool_entries:
  assumes "distinct ks"
  shows "\<exists>r. foldR dec_bool_entry (map (\<lambda>k. (k, JBool (f k))) ks) acc = Inr r
    \<and> (\<forall>k. map_of r k = (if k \<in> set ks then Some (f k) else map_of acc k)) \<and> (wf_map acc \<longrightarrow> wf_map r)"
  using assms
proof (induction ks arbitrary: acc)
  case (Cons k ks)
  from Cons.IH [of "mput k (f k) acc"] Cons.prems obtain r where
    r: "foldR dec_bool_entry (map (\<lambda>k. (k, JBool (f k))) ks) (mput k (f k) acc) = Inr r"
      "\<forall>j. map_of r j = (if j \<in> set ks then Some (f j) else map_of (mput k (f k) acc) j)"
      "wf_map (mput k (f k) acc) \<longrightarrow> wf_map r" by auto
  have "foldR dec_bool_entry (map (\<lambda>k. (k, JBool (f k))) (k # ks)) acc = Inr r"
    using r(1) by (simp add: dec_bool_entry_def)
  then show ?case using r(2,3) Cons.prems by (auto simp: update_conv)
qed simp

text \<open>C9: Ownership survives a restart: what \<open>saveRouteLocalnetState\<close> writes for a map of valid bridge
  names is read back by \<open>loadRouteLocalnetState\<close> as the same map, so the original switch values of
  an earlier process are never lost or altered.\<close>

theorem route_localnet_roundtrip:
  assumes "wf_map m" and "\<forall>b \<in> set (map fst m). validateBridgeName b = Inr ()"
  shows "\<exists>m'. state_of_text path (marshal_state m) = Inr m' \<and> meq m' m \<and> wf_map m'"
proof -
  have plain: "\<forall>k \<in> set (map fst m). \<forall>c \<in> set k. plain_char c"
    using assms(2) valid_bridge_plain by blast
  have d: "distinct (sorted_keys m)" using assms(1) by (simp add: sorted_keys_def wf_map_def)
  from dec_bool_entries [OF d, of "mget False m" "[]"] obtain r where
    r: "foldR dec_bool_entry (map (\<lambda>k. (k, JBool (mget False m k))) (sorted_keys m)) [] = Inr r"
      "\<forall>k. map_of r k = (if k \<in> set (sorted_keys m) then Some (mget False m k) else None)" "wf_map r" by auto
  have eq: "map_of r = map_of m"
  proof (rule ext)
    fix k
    show "map_of r k = map_of m k"
    proof (cases "map_of m k")
      case None
      then have "k \<notin> set (sorted_keys m)" by (simp add: map_of_eq_None_iff)
      then show ?thesis using r(2) None by simp
    next
      case (Some v)
      then have "k \<in> set (sorted_keys m)" by (auto dest: map_of_SomeD intro: rev_image_eqI)
      then show ?thesis using r(2) Some by (simp add: mget_SomeD)
    qed
  qed
  have folds: "fold_key ''version'' = ''version''" "fold_key ''original'' = ''original''" by code_simp+
  have vers: "dec_int ''version'' [(''version'', JNum ''1''), (''original'', v)] = Inr 1" for v
    by (simp add: dec_int_def field_values_def folds atoi_1 del: fold_key.simps)
  have orig: "map snd (filter (\<lambda>m. fold_key (fst m) = ''original'') [(''version'', JNum ''1''), (''original'', v)]) = [v]" for v
    by (simp add: folds del: fold_key.simps)
  have "decode_state (marshal_state m) = Inr (1, Some r)"
    using r(1)
    by (simp add: decode_state_def marshal_state_parse [OF plain] dec_object_def vers dec_original_def orig entries_def
        del: list.map filter.simps)
  moreover have "validateBridgeName b = Inr ()" if "(b, v) \<in> set r" for b v
  proof -
    have "b \<in> fst ` set r" using that by (rule rev_image_eqI) simp
    then have "b \<in> set (map fst m)" using fun_cong [OF eq, of b] map_of_eq_None_iff [of r b] map_of_eq_None_iff [of m b] by simp
    then show ?thesis using assms(2) by blast
  qed
  then have "checkR (\<lambda>(bridge, _). wrapR (Wrapf ''invalid persisted bridge: %w'' []) (validateBridgeName bridge)) r = Inr ()"
    by (auto simp: checkR_ok)
  ultimately have "state_of_text path (marshal_state m) = Inr r" by (simp add: state_of_text_def)
  then show ?thesis using eq r(3) by (auto simp: meq_iff)
qed

theorem route_localnet_roundtrip_witness:
  "\<exists>m'. state_of_text ''p'' (marshal_state [(''docker0'', True), (''br-1.2'', False)]) = Inr m'
     \<and> map_of m' ''docker0'' = Some True"
proof -
  have "wf_map [(''docker0'', True), (''br-1.2'', False)]"
    "\<forall>b \<in> set (map fst [(''docker0'', True), (''br-1.2'', False)]). validateBridgeName b = Inr ()" by code_simp+
  from route_localnet_roundtrip [OF this, of "''p''"] show ?thesis by (auto simp: meq_iff)
qed

section \<open>Saving is atomic\<close>

lemma save_hoare:
  assumes "path \<noteq> []" and "\<And>r. path_dir path @ ''/.route-localnet-'' @ r \<noteq> path"
  shows "hoare (\<lambda>s. files s path = old) (saveRouteLocalnetState e path m)
    (\<lambda>_ s. files s path = Some (marshal_state m)) (\<lambda>_ s. files s path = old)"
proof -
  have create: "hoare (\<lambda>s. files s path = old) (os_CreateTemp e (path_dir path) ''.route-localnet-'')
    (\<lambda>name. held path old name (Some [])) (\<lambda>_ s. files s path = old)"
    using assms(2) by (intro create_step) simp
  have body: "hoare (held path old name (Some []))
     (finallyP
            (bindP (or_close e name (perform e (ChmodFile name 384))) (\<lambda>_.
             bindP (or_close e name (perform e (WriteTemp name (marshal_state m)))) (\<lambda>_.
             bindP (or_close e name (perform e (SyncFile name))) (\<lambda>_.
             bindP (perform e (CloseFile name)) (\<lambda>_.
               perform e (RenameFile name path))))))
            (perform e (RemoveFile name)))
     (\<lambda>_ s. files s path = Some (marshal_state m)) (\<lambda>_ s. files s path = old)" for name
    by (rule hoare_finally [where Q' = "\<lambda>_ s. files s path = Some (marshal_state m) \<and> name \<noteq> path"
          and E' = "\<lambda>_ s. files s path = old \<and> name \<noteq> path"],
        rule hoare_bind, rule held_step, simp, simp, rule hoare_bind, rule write_step,
        rule hoare_bind, rule held_step, simp, simp,
        rule hoare_bind [where R = "\<lambda>_. held path old name (Some (marshal_state m))"])
      (auto simp: held_def after_untouched intro!: hoare_perform rename_step)
  have mk: "hoare (\<lambda>s. files s path = old) (perform e (MkdirAll (path_dir path)))
      (\<lambda>_ s. files s path = old) (\<lambda>_ s. files s path = old)"
    using hoare_untouched [of path "MkdirAll (path_dir path)" "\<lambda>x. x = old"] by simp
  show ?thesis unfolding saveRouteLocalnetState_def using assms(1)
    by (auto intro!: hoare_bind [OF mk] hoare_bind [OF create] body)
qed

lemma temp_not_state: "path_dir routeLocalnetStatePath @ ''/.route-localnet-'' @ x \<noteq> routeLocalnetStatePath"
  "routeLocalnetStatePath \<noteq> []"
  by (simp_all add: routeLocalnetStatePath_def path_dir_def)

interpretation rl_file: atomic_writer routeLocalnetStatePath marshal_state "saveRouteLocalnetState e routeLocalnetStatePath"
  for e
  by unfold_locales (rule save_hoare [OF temp_not_state(2,1)])

text \<open>C8: Replacing the state file is atomic under every failure: if saving reports success the file holds
  the complete new state, and if it reports an error - whichever of creating, writing, syncing,
  closing or renaming failed, and whatever a failed write left in the temporary file - the state
  file still has its old content.\<close>

theorem save_state_atomic:
  assumes "saveRouteLocalnetState e routeLocalnetStatePath m s = (r, s')"
  shows "files s' routeLocalnetStatePath =
    (if r = Inr () then Some (marshal_state m) else files s routeLocalnetStatePath)"
  using assms by (rule rl_file.store_result)

text \<open>A save on a full disk: the write fails and leaves half of the text in the temporary file.\<close>

definition full_disk :: env where
  "full_disk = quiet_env\<lparr>e_fail := (\<lambda>_ c. case c of WriteTemp _ _ \<Rightarrow> Some (EnvErr ''no space left'') | _ \<Rightarrow> None),
     e_torn := (\<lambda>_ _. Some ''{'')\<rparr>"

theorem save_state_atomic_witness:
  "\<exists>r s'. saveRouteLocalnetState full_disk routeLocalnetStatePath [(''docker0'', False)]
       \<lparr>trace = [], files = [routeLocalnetStatePath \<mapsto> ''old'']\<rparr> = (r, s')
     \<and> r = Inl (EnvErr ''no space left'') \<and> files s' routeLocalnetStatePath = Some ''old''"
proof -
  let ?s = "\<lparr>trace = [], files = [routeLocalnetStatePath \<mapsto> ''old'']\<rparr> :: world"
  obtain r s' where h: "saveRouteLocalnetState full_disk routeLocalnetStatePath [(''docker0'', False)] ?s = (r, s')"
    by fastforce
  have "fst (saveRouteLocalnetState full_disk routeLocalnetStatePath [(''docker0'', False)] ?s)
      = Inl (EnvErr ''no space left'')" by code_simp
  with h have r: "r = Inl (EnvErr ''no space left'')" by simp
  with save_state_atomic [OF h] have "files s' routeLocalnetStatePath = Some ''old''" by simp
  with h r show ?thesis by blast
qed

end
