(* ===== verification/Firewall.thy ===== *)
theory Firewall
  imports GoStrings
begin

text \<open>
  \<open>src/internal/firewall/backend.go\<close>: selection of the single host firewall backend.  The injected
  functions (\<open>lookupFunc\<close>, \<open>versionFunc\<close>, \<open>inspectFunc\<close>, \<open>readFileFunc\<close>) are parameters, as they are
  in the Go code; they answer from the state of the host while the selection runs.  \<open>Detect\<close> gets
  what the Docker daemon reports as parameters too.

  The lemmas show that the reachability search of \<open>platformHook\<close> is exact, that a mode is only ever
  selected on evidence of Docker's own live chain, and that stale hooks of the other frontend block
  startup.
\<close>

section \<open>Modes and backends\<close>

type_synonym Mode = string

definition Auto :: Mode where "Auto = ''auto''"
definition IptablesNFT :: Mode where "IptablesNFT = ''iptables-nft''"
definition IptablesLegacy :: Mode where "IptablesLegacy = ''iptables-legacy''"
definition NFTables :: Mode where "NFTables = ''nftables''"

lemmas mode_defs = Auto_def IptablesNFT_def IptablesLegacy_def NFTables_def

record Backend =
  be_Mode :: Mode
  be_Command :: string
  be_Restore :: string

type_synonym lookupFunc = "string \<Rightarrow> string result"
text \<open>\<open>CombinedOutput\<close> gives the output even when the command fails.\<close>
type_synonym versionFunc = "string \<Rightarrow> string \<times> gerr option"
type_synonym inspectFunc = "string \<Rightarrow> string list \<Rightarrow> string \<times> gerr option"
type_synonym readFileFunc = "string \<Rightarrow> string result"

definition checked :: "string \<times> gerr option \<Rightarrow> string result" where
  "checked r = (case r of (out, None) \<Rightarrow> Inr out | (_, Some e) \<Rightarrow> Inl e)"

lemma checked_ok [simp]: "checked r = Inr out \<longleftrightarrow> r = (out, None)"
  by (cases r) (auto simp: checked_def split: option.splits)

section \<open>The Docker driver\<close>

definition dockerFirewallDriver :: "string \<Rightarrow> string \<Rightarrow> string result" where
  "dockerFirewallDriver reportedDriver serverVersion =
     (if reportedDriver \<noteq> [] then Inr reportedDriver
      else
        let majorText = fst (str_cut CHR ''.'' (trim_prefix serverVersion ''v'')) in
        (case atoi majorText of
           None \<Rightarrow> Inl (Errorf ''Docker did not report FirewallBackend and ServerVersion %q cannot establish a safe fallback'' [serverVersion])
         | Some major \<Rightarrow>
             if major < 1 then
               Inl (Errorf ''Docker did not report FirewallBackend and ServerVersion %q cannot establish a safe fallback'' [serverVersion])
             else if major \<ge> 29 then
               Inl (Errorf ''Docker %s did not report FirewallBackend; refusing to infer its active firewall driver from stale host rules'' [serverVersion])
             else Inr ''iptables''))"

section \<open>Reading rule listings\<close>

text \<open>The fields of every line of a listing.\<close>

definition line_fields :: "string \<Rightarrow> (string \<times> string list) list" where
  "line_fields rules = map (\<lambda>l. (l, str_fields l)) (str_lines rules)"

text \<open>Adjacent pairs of fields from index 2 on: \<open>for i := 2; i+1 < len(fields); i++\<close>.\<close>

fun adjacent :: "'a list \<Rightarrow> ('a \<times> 'a) list" where
  "adjacent (x # y # xs) = (x, y) # adjacent (y # xs)"
| "adjacent _ = []"

definition field_pairs :: "string list \<Rightarrow> (string \<times> string) list" where
  "field_pairs fs = adjacent (drop 2 fs)"

definition declares_docker :: "string list \<Rightarrow> bool" where
  "declares_docker fs \<longleftrightarrow> length fs = 2 \<and> fs ! 0 = ''-N'' \<and> fs ! 1 = ''DOCKER''"

definition hooks_docker :: "string list \<Rightarrow> bool" where
  "hooks_docker fs \<longleftrightarrow> length fs \<ge> 4 \<and> fs ! 0 = ''-A'' \<and> (fs ! 1 = ''PREROUTING'' \<or> fs ! 1 = ''OUTPUT'')
     \<and> (''-j'', ''DOCKER'') \<in> set (field_pairs fs)"

definition hasDockerNATChain :: "string \<Rightarrow> bool" where
  "hasDockerNATChain rules =
     (list_ex (declares_docker \<circ> snd) (line_fields rules) \<and> list_ex (hooks_docker \<circ> snd) (line_fields rules))"

text \<open>The first jump of an append line, as \<open>(chain, (target, trimmed line))\<close>.\<close>

definition is_jump_flag :: "string \<Rightarrow> bool" where
  "is_jump_flag f \<longleftrightarrow> f = ''-j'' \<or> f = ''-g'' \<or> f = ''--jump'' \<or> f = ''--goto''"

definition line_jump :: "string \<times> string list \<Rightarrow> (string \<times> string \<times> string) option" where
  "line_jump lf =
     (let fs = snd lf in
      if length fs < 4 \<or> fs ! 0 \<noteq> ''-A'' then None
      else (case find (is_jump_flag \<circ> fst) (field_pairs fs) of
          None \<Rightarrow> None
        | Some (_, target) \<Rightarrow> Some (fs ! 1, target, trim_space (fst lf))))"

definition rule_jumps :: "string \<Rightarrow> (string \<times> string \<times> string) list" where
  "rule_jumps rules = List.map_filter line_jump (line_fields rules)"

definition jumps_from :: "(string \<times> string \<times> string) list \<Rightarrow> string \<Rightarrow> (string \<times> string) list" where
  "jumps_from js chain = map snd (filter (\<lambda>j. fst j = chain) js)"

text \<open>One chain of the search: the line of a platform jump, or the targets to visit.\<close>

definition cattle_edge :: "(string \<times> string) list \<Rightarrow> string option" where
  "cattle_edge es = map_option snd (find (\<lambda>e. has_prefix (fst e) ''CATTLE_'') es)"

text \<open>
  The breadth-first search of \<open>platformHook\<close>.  Every step either drops a seen chain from the queue
  or marks a new chain as seen; new chains are targets of jumps or built-in, so the search ends.
\<close>

definition unseen :: "(string \<times> string \<times> string) list \<Rightarrow> string list \<Rightarrow> string list \<Rightarrow> nat" where
  "unseen js queue seen = card ((fst ` snd ` set js \<union> set queue) - set seen)"

function hook_search :: "(string \<times> string \<times> string) list \<Rightarrow> string list \<Rightarrow> string list \<Rightarrow> string option" where
  "hook_search js [] seen = None"
| "hook_search js (chain # queue) seen =
     (if chain \<in> set seen then hook_search js queue seen
      else (case cattle_edge (jumps_from js chain) of
          Some line \<Rightarrow> Some line
        | None \<Rightarrow> hook_search js (queue @ map fst (jumps_from js chain)) (chain # seen)))"
  by pat_completeness auto

lemma jumps_from_targets: "fst ` set (jumps_from js chain) \<subseteq> fst ` snd ` set js"
  by (force simp: jumps_from_def)

lemma unseen_drop: "chain \<in> set seen \<Longrightarrow> unseen js (chain # queue) seen = unseen js queue seen"
  unfolding unseen_def by (rule arg_cong [of _ _ card]) auto

lemma unseen_visit:
  assumes "chain \<notin> set seen"
  shows "unseen js (queue @ map fst (jumps_from js chain)) (chain # seen) < unseen js (chain # queue) seen"
proof -
  have "(fst ` snd ` set js \<union> set (queue @ map fst (jumps_from js chain))) - set (chain # seen)
      \<subset> (fst ` snd ` set js \<union> set (chain # queue)) - set seen"
    using assms jumps_from_targets [of js chain] by auto
  then show ?thesis unfolding unseen_def by (intro psubset_card_mono) auto
qed

termination hook_search
  by (relation "measures [\<lambda>(js, q, s). unseen js q s, \<lambda>(js, q, s). length q]")
    (auto simp: unseen_drop intro: unseen_visit)

definition builtin_chains :: "string list" where
  "builtin_chains = [''INPUT'', ''FORWARD'', ''OUTPUT'', ''PREROUTING'', ''POSTROUTING'']"

text \<open>The empty string means that no hook was found.\<close>

definition platformHook :: "string \<Rightarrow> string" where
  "platformHook rules =
     (case hook_search (rule_jumps rules) builtin_chains [] of None \<Rightarrow> [] | Some line \<Rightarrow> line)"

definition hasForwardDropPolicy :: "string \<Rightarrow> bool" where
  "hasForwardDropPolicy rules =
     list_ex (\<lambda>lf. snd lf = [''-P'', ''FORWARD'', ''DROP'']) (line_fields rules)"

definition hasTable :: "string \<Rightarrow> string \<Rightarrow> bool" where
  "hasTable tables name = list_ex (\<lambda>l. trim_space l = name) (str_lines tables)"

definition nftBackendUnavailable :: "string \<Rightarrow> bool" where
  "nftBackendUnavailable output =
     (let message = to_lower output in
      str_contains message ''protocol not supported''
      \<or> str_contains message ''operation not supported''
      \<or> str_contains message ''address family not supported''
      \<or> str_contains message ''could not fetch rule set generation id: invalid argument'')"

section \<open>Inspection commands\<close>

definition legacyInspectionCommand :: "lookupFunc \<Rightarrow> versionFunc \<Rightarrow> string result" where
  "legacyInspectionCommand lookup version =
     bindR (wrapR (Wrapf ''find %s: %w'' [''iptables-legacy'']) (lookup ''iptables-legacy'')) (\<lambda>_.
     bindR (wrapR (Wrapf ''verify %s version: %w'' [''iptables-legacy'']) (checked (version ''iptables-legacy''))) (\<lambda>out.
       if \<not> str_contains out ''(legacy)''
       then Inl (Errorf ''%s is not the legacy frontend: %s'' [''iptables-legacy'', trim_space out])
       else Inr ''iptables-legacy''))"

text \<open>The command and whether the frontend is unavailable.\<close>

definition nftInspectionCommand :: "lookupFunc \<Rightarrow> versionFunc \<Rightarrow> (string \<times> bool) result" where
  "nftInspectionCommand lookup version =
     (case lookup ''iptables-nft'' of
        Inr _ \<Rightarrow>
          bindR (wrapR (Wrapf ''iptables-nft version cannot be verified: %w'' []) (checked (version ''iptables-nft''))) (\<lambda>out.
            if \<not> str_contains out ''nf_tables''
            then Inl (Errorf ''iptables-nft is not the nf_tables frontend: %s'' [trim_space out])
            else Inr (''iptables-nft'', False))
      | Inl e \<Rightarrow>
          if \<not> errors_is_not_exist e then Inl (Wrapf ''find iptables-nft: %w'' [] e)
          else (case lookup ''iptables'' of
              Inl e' \<Rightarrow> if errors_is_not_exist e' then Inr ([], True)
                        else Inl (Wrapf ''find generic iptables: %w'' [] e')
            | Inr _ \<Rightarrow>
                bindR (wrapR (Wrapf ''generic iptables version cannot be verified: %w'' []) (checked (version ''iptables'')))
                  (\<lambda>out. if str_contains out ''nf_tables'' then Inr (''iptables'', False)
                     else if str_contains out ''legacy'' then Inr ([], True)
                     else Inl (Errorf ''unrecognized generic iptables frontend %q'' [trim_space out]))))"

section \<open>Startup checks\<close>

text \<open>The regular expression \<open>meta mark & 0x0*1068 == 0x0*1068\<close>, unanchored.\<close>

definition eat :: "string \<Rightarrow> string option \<Rightarrow> string option" where
  "eat p s = (case s of None \<Rightarrow> None | Some t \<Rightarrow> if has_prefix t p then Some (drop (length p) t) else None)"

definition eat_zeros :: "string option \<Rightarrow> string option" where
  "eat_zeros s = map_option (dropWhile (\<lambda>c. c = CHR ''0'')) s"

definition mark_at :: "string \<Rightarrow> bool" where
  "mark_at s = (eat ''1068'' (eat_zeros (eat ''1068 == 0x'' (eat_zeros (eat ''meta mark & 0x'' (Some s))))) \<noteq> None)"

fun dockerBridgeMark :: "string \<Rightarrow> bool" where
  "dockerBridgeMark [] = False"
| "dockerBridgeMark (c # s) = (mark_at (c # s) \<or> dockerBridgeMark s)"

definition CheckDockerBridgeMark :: "inspectFunc \<Rightarrow> unit result" where
  "CheckDockerBridgeMark inspect =
     bindR (wrapR (Wrapf ''inspect Docker native nft bridge rules: %w'' [])
              (checked (inspect ''nft'' [''list'', ''table'', ''ip'', ''docker-bridges'']))) (\<lambda>out.
       ensureR (dockerBridgeMark out)
         (Errorf ''Docker native nftables requires daemon bridge-accept-fwmark=0x1068/0x1068 for platform host ports; configure Docker and restart it before starting the network manager'' []))"

definition checkPreviousXTRules :: "string \<Rightarrow> string \<Rightarrow> inspectFunc \<Rightarrow> unit result" where
  "checkPreviousXTRules command table inspect =
     bindR (wrapR (Wrapf ''inspect previous %s %s rules before native nftables: %w'' [command, table])
              (checked (inspect command [''-t'', table, ''-S'']))) (\<lambda>out.
          if table = ''filter'' \<and> hasForwardDropPolicy out then
            Inl (Errorf ''Docker native nftables is blocked by a previous %s FORWARD DROP policy; migrate the host firewall explicitly before starting the network manager'' [command])
          else if platformHook out \<noteq> [] then
            Inl (Errorf ''previous %s %s hook is still active (%s); remove the platform-owned old hook explicitly before native nftables'' [command, table, platformHook out])
          else if table = ''nat'' \<and> hasDockerNATChain out then
            Inl (Errorf ''previous %s Docker NAT hook is still active; migrate the host firewall explicitly before native nftables'' [command])
          else Inr ())"

text \<open>\<open>/proc/net/ip_tables_names\<close>; an absent entry means that no legacy table is loaded.\<close>

definition legacy_tables :: "string \<Rightarrow> readFileFunc \<Rightarrow> string result" where
  "legacy_tables fmt readFile =
     (case readFile ''/proc/net/ip_tables_names'' of
        Inr t \<Rightarrow> Inr t
      | Inl e \<Rightarrow> if errors_is_not_exist e then Inr [] else Inl (Wrapf fmt [] e))"

definition CheckNativeMigration ::
    "lookupFunc \<Rightarrow> versionFunc \<Rightarrow> inspectFunc \<Rightarrow> readFileFunc \<Rightarrow> unit result" where
  "CheckNativeMigration lookup version inspect readFile =
     bindR (legacy_tables ''inspect loaded legacy iptables tables before native nftables: %w'' readFile) (\<lambda>legacyTables.
     bindR (wrapR (Wrapf ''find previous iptables-nft rules before native nftables: %w'' [])
              (nftInspectionCommand lookup version)) (\<lambda>(nftCommand, nftUnavailable).
     bindR (if nftUnavailable then Inr ()
            else checkR (\<lambda>table. checkPreviousXTRules nftCommand table inspect) [''filter'', ''nat'']) (\<lambda>_.
       if \<not> hasTable legacyTables ''filter'' \<and> \<not> hasTable legacyTables ''nat'' then Inr ()
       else
         bindR (wrapR (Wrapf ''loaded legacy firewall tables cannot be inspected before native nftables: %w'' [])
                  (legacyInspectionCommand lookup version)) (\<lambda>legacyCommand.
           checkR (\<lambda>table. if hasTable legacyTables table
                           then checkPreviousXTRules legacyCommand table inspect else Inr ())
             [''filter'', ''nat'']))))"

definition SelectDockerXTMode :: "Mode \<Rightarrow> Mode \<Rightarrow> Mode result" where
  "SelectDockerXTMode requested active =
     (if requested = [] \<or> requested = Auto then Inr active
      else if requested \<noteq> active then
        Inl (Errorf ''requested %s frontend differs from Docker's active %s frontend; select %s or correct the host Docker firewall backend'' [requested, active, active])
      else Inr requested)"

text \<open>The nft half of \<open>DetectDockerXTFrontend\<close>: the listing, whether nft is unavailable, whether
  Docker's chain is live in it.\<close>

definition detect_nft :: "string \<Rightarrow> bool \<Rightarrow> inspectFunc \<Rightarrow> (string \<times> bool \<times> bool) result" where
  "detect_nft nftCommand nftUnavailable inspect =
     (if nftUnavailable then Inr ([], True, False)
      else (case inspect nftCommand [''-t'', ''nat'', ''-S''] of
          (rules, Some e) \<Rightarrow>
            if nftBackendUnavailable rules then Inr (rules, True, False)
            else Inl (Wrapf ''inspect Docker iptables-nft NAT rules: %w: %s'' [trim_space rules] e)
        | (rules, None) \<Rightarrow> Inr (rules, False, hasDockerNATChain rules)))"

text \<open>The legacy half: the command (empty if not looked up), the listing, whether Docker's chain is live.\<close>

definition detect_legacy ::
    "bool \<Rightarrow> lookupFunc \<Rightarrow> versionFunc \<Rightarrow> inspectFunc \<Rightarrow> (string \<times> string \<times> bool) result" where
  "detect_legacy legacyNATLoaded lookup version inspect =
     (if \<not> legacyNATLoaded then Inr ([], [], False)
      else
        bindR (wrapR (Wrapf ''legacy NAT table is loaded but its Docker rules cannot be inspected: %w'' [])
                 (legacyInspectionCommand lookup version)) (\<lambda>cmd.
        bindR (wrapR (Wrapf ''inspect Docker iptables-legacy NAT rules: %w'' [])
                 (checked (inspect cmd [''-t'', ''nat'', ''-S'']))) (\<lambda>rules.
          Inr (cmd, rules, hasDockerNATChain rules))))"

text \<open>The check of the opposite frontend's filter table.\<close>

definition opposite_filter_check :: "string \<Rightarrow> string \<Rightarrow> string \<Rightarrow> inspectFunc \<Rightarrow> unit result" where
  "opposite_filter_check cmd fmtErr fmtHook inspect =
     bindR (wrapR (Wrapf fmtErr []) (checked (inspect cmd [''-t'', ''filter'', ''-S'']))) (\<lambda>rules.
       ensureR (\<not> (platformHook rules \<noteq> [] \<or> hasForwardDropPolicy rules)) (Errorf fmtHook []))"

text \<open>The opposite-frontend checks when Docker uses iptables-nft, and when it uses iptables-legacy.\<close>

definition check_legacy_side ::
    "string \<Rightarrow> string \<Rightarrow> string \<Rightarrow> lookupFunc \<Rightarrow> versionFunc \<Rightarrow> inspectFunc \<Rightarrow> unit result" where
  "check_legacy_side legacyTables legacyCommand legacyRules lookup version inspect =
     bindR (ensureR (\<not> (hasTable legacyTables ''nat'' \<and> platformHook legacyRules \<noteq> []))
              (Errorf ''active platform NAT hook remains in iptables-legacy while Docker uses iptables-nft; migrate the old hook explicitly'' [])) (\<lambda>_.
       if hasTable legacyTables ''filter'' then
         bindR (if legacyCommand = [] then
                  wrapR (Wrapf ''loaded legacy filter table cannot be inspected: %w'' [])
                    (legacyInspectionCommand lookup version)
                else Inr legacyCommand) (\<lambda>cmd.
           opposite_filter_check cmd ''inspect opposite iptables-legacy filter rules: %w''
             ''active platform hook or FORWARD DROP remains in iptables-legacy filter while Docker uses iptables-nft; migrate the old rules explicitly'' inspect)
       else Inr ())"

definition check_nft_side :: "bool \<Rightarrow> string \<Rightarrow> string \<Rightarrow> inspectFunc \<Rightarrow> unit result" where
  "check_nft_side nftUnavailable nftCommand nftRules inspect =
     (if nftUnavailable then Inr ()
      else
        bindR (ensureR (platformHook nftRules = [])
          (Errorf ''active platform NAT hook remains in iptables-nft while Docker uses iptables-legacy; migrate the old hook explicitly'' [])) (\<lambda>_.
          opposite_filter_check nftCommand ''inspect opposite iptables-nft filter rules: %w''
            ''active platform hook or FORWARD DROP remains in iptables-nft filter while Docker uses iptables-legacy; migrate the old rules explicitly'' inspect))"

text \<open>The \<open>switch\<close> over the two findings.\<close>

definition select_active :: "bool \<Rightarrow> bool \<Rightarrow> Mode result" where
  "select_active nftActive legacyActive =
     (if nftActive \<and> legacyActive then
        Inl (Errorf ''Docker-owned NAT DOCKER chains are active in both iptables-nft and iptables-legacy; remove the stale backend's Docker rules before starting the network manager'' [])
      else if nftActive then Inr IptablesNFT
      else if legacyActive then Inr IptablesLegacy
      else Inl (Errorf ''no unique active Docker NAT DOCKER chain was found in iptables-nft or loaded iptables-legacy; start Docker's bridge networking and verify its firewall backend before starting the network manager'' []))"

definition DetectDockerXTFrontend ::
    "lookupFunc \<Rightarrow> versionFunc \<Rightarrow> inspectFunc \<Rightarrow> readFileFunc \<Rightarrow> Mode result" where
  "DetectDockerXTFrontend lookup version inspect readFile =
     bindR (legacy_tables ''inspect loaded legacy iptables tables: %w'' readFile) (\<lambda>legacyTables.
     bindR (wrapR (Wrapf ''cannot inspect Docker's iptables-nft rules: %w'' [])
              (nftInspectionCommand lookup version)) (\<lambda>(nftCommand, nftMissing).
     bindR (detect_nft nftCommand nftMissing inspect) (\<lambda>(nftRules, nftUnavailable, nftActive).
     bindR (detect_legacy (hasTable legacyTables ''nat'') lookup version inspect)
       (\<lambda>(legacyCommand, legacyRules, legacyActive).
     bindR (select_active nftActive legacyActive) (\<lambda>active.
     bindR (if active = IptablesNFT
            then check_legacy_side legacyTables legacyCommand legacyRules lookup version inspect
            else check_nft_side nftUnavailable nftCommand nftRules inspect) (\<lambda>_.
       Inr active))))))"

section \<open>Resolving a backend\<close>

definition verify_binary :: "string \<Rightarrow> string \<Rightarrow> lookupFunc \<Rightarrow> versionFunc \<Rightarrow> string \<Rightarrow> unit result" where
  "verify_binary requested marker lookup version binary =
     bindR (wrapR (Wrapf ''%s backend requires %s: %w'' [requested, binary]) (lookup binary)) (\<lambda>_.
       ensureR (snd (version binary) = None \<and> str_contains (fst (version binary)) marker)
         (Errorf ''%s is not the selected %s frontend: %s'' [binary, requested, trim_space (fst (version binary))]))"

definition found :: "lookupFunc \<Rightarrow> string \<Rightarrow> bool" where
  "found lookup name = (case lookup name of Inl _ \<Rightarrow> False | Inr _ \<Rightarrow> True)"

text \<open>The command, restore command and version marker of an xtables mode.\<close>

definition xt_tools :: "Mode \<Rightarrow> (string \<times> string \<times> string) option" where
  "xt_tools m =
     (if m = IptablesNFT then Some (''iptables-nft'', ''iptables-nft-restore'', ''nf_tables'')
      else if m = IptablesLegacy then Some (''iptables-legacy'', ''iptables-legacy-restore'', ''legacy'')
      else None)"

text \<open>The xtables part of \<open>Resolve\<close>: prefer the suffixed binaries, fall back to the generic ones, and
  verify that both are the requested variant.\<close>

definition resolve_xt :: "Mode \<Rightarrow> lookupFunc \<Rightarrow> versionFunc \<Rightarrow> Backend result" where
  "resolve_xt requested lookup version =
     (case xt_tools requested of
        None \<Rightarrow> Inl (Errorf ''unknown firewall backend %q'' [requested])
      | Some (command0, restore0, marker) \<Rightarrow>
          let command = (if found lookup command0 then command0 else ''iptables'');
              restore = (if found lookup restore0 then restore0 else ''iptables-restore'')
          in bindR (checkR (verify_binary requested marker lookup version) [command, restore])
               (\<lambda>_. Inr \<lparr>be_Mode = requested, be_Command = command, be_Restore = restore\<rparr>))"

definition ResolveBackend :: "Mode \<Rightarrow> string \<Rightarrow> lookupFunc \<Rightarrow> versionFunc \<Rightarrow> Backend result" where
  "ResolveBackend requested0 dockerDriver lookup version =
     (let requested1 = (if requested0 = [] then Auto else requested0) in
      if dockerDriver \<noteq> ''iptables'' \<and> dockerDriver \<noteq> ''nftables'' then
        Inl (Errorf ''unsupported Docker firewall backend %q'' [dockerDriver])
      else if requested1 = Auto \<and> dockerDriver \<noteq> ''nftables'' then
        Inl (Errorf ''Docker's active iptables frontend must be inspected before resolving auto mode'' [])
      else
        let requested = (if requested1 = Auto then NFTables else requested1) in
        if requested = NFTables then
          (if dockerDriver \<noteq> ''nftables'' then
             Inl (Errorf ''native nftables requires Docker firewall-backend=nftables (Docker reports %s)'' [dockerDriver])
           else
             bindR (wrapR (Wrapf ''native nftables requires nft executable: %w'' []) (lookup ''nft'')) (\<lambda>_.
               Inr \<lparr>be_Mode = NFTables, be_Command = ''nft'', be_Restore = []\<rparr>))
        else if dockerDriver = ''nftables'' then
          Inl (Errorf ''Docker uses native nftables; refusing the incompatible %s frontend'' [requested])
        else resolve_xt requested lookup version)"

text \<open>What \<open>dc.Info\<close> reports: the firewall driver (empty when the field is absent) and the version.\<close>

definition Detect ::
    "(string \<times> string) result \<Rightarrow> lookupFunc \<Rightarrow> versionFunc \<Rightarrow> inspectFunc \<Rightarrow> readFileFunc \<Rightarrow> Mode
     \<Rightarrow> Backend result" where
  "Detect info lookup version inspect readFile requested0 =
     bindR (wrapR (Wrapf ''read Docker firewall backend: %w'' []) info) (\<lambda>(reportedDriver, serverVersion).
     bindR (dockerFirewallDriver reportedDriver serverVersion) (\<lambda>driver.
     bindR (if driver = ''iptables'' then
              bindR (DetectDockerXTFrontend lookup version inspect readFile) (\<lambda>active.
                SelectDockerXTMode requested0 active)
            else Inr requested0) (\<lambda>requested.
     bindR (ResolveBackend requested driver lookup version) (\<lambda>backend.
     bindR (if be_Mode backend = NFTables then
              bindR (CheckNativeMigration lookup version inspect readFile) (\<lambda>_.
                CheckDockerBridgeMark inspect)
            else Inr ()) (\<lambda>_. Inr backend)))))"

section \<open>The hook search is exact\<close>

text \<open>Chains packets can reach from the chains in \<open>S\<close>.\<close>

inductive reaches :: "(string \<times> string \<times> string) list \<Rightarrow> string set \<Rightarrow> string \<Rightarrow> bool"
  for js S where
  start: "c \<in> S \<Longrightarrow> reaches js S c"
| jump: "reaches js S c \<Longrightarrow> (c, t, l) \<in> set js \<Longrightarrow> reaches js S t"

definition hooked :: "(string \<times> string \<times> string) list \<Rightarrow> string \<Rightarrow> bool" where
  "hooked js c \<longleftrightarrow> (\<exists>t l. (c, t, l) \<in> set js \<and> has_prefix t ''CATTLE_'')"

lemma reaches_mono: "reaches js S c \<Longrightarrow> S \<subseteq> T \<Longrightarrow> reaches js T c"
  by (induction rule: reaches.induct) (auto intro: reaches.intros)

lemma reaches_trans: "reaches js T c \<Longrightarrow> \<forall>d \<in> T. reaches js S d \<Longrightarrow> reaches js S c"
  by (induction rule: reaches.induct) (auto intro: reaches.intros)

lemma in_jumps_from: "(t, l) \<in> set (jumps_from js c) \<longleftrightarrow> (c, t, l) \<in> set js"
  by (force simp: jumps_from_def)

lemma cattle_edge_None: "cattle_edge (jumps_from js c) = None \<longleftrightarrow> \<not> hooked js c"
  by (auto simp: cattle_edge_def find_None_iff hooked_def in_jumps_from)

lemma cattle_edge_Some:
  "cattle_edge (jumps_from js c) = Some l \<Longrightarrow> \<exists>t. (c, t, l) \<in> set js \<and> has_prefix t ''CATTLE_''"
  by (auto simp: cattle_edge_def in_jumps_from [symmetric] dest!: find_SomeD)

lemma hook_search_sound:
  "hook_search js q seen = Some l \<Longrightarrow>
    \<exists>c t. reaches js (set q) c \<and> (c, t, l) \<in> set js \<and> has_prefix t ''CATTLE_''"
proof (induction js q seen rule: hook_search.induct)
  case (2 js chain queue seen)
  show ?case
  proof (cases "chain \<in> set seen")
    case True
    with 2 obtain c t where "reaches js (set queue) c" "(c, t, l) \<in> set js" "has_prefix t ''CATTLE_''" by auto
    then show ?thesis using reaches_mono by (metis list.set(2) subset_insertI)
  next
    case new: False
    show ?thesis
    proof (cases "cattle_edge (jumps_from js chain)")
      case None
      with 2 new obtain c t where c: "reaches js (set (queue @ map fst (jumps_from js chain))) c"
        "(c, t, l) \<in> set js" "has_prefix t ''CATTLE_''" by auto
      have "\<forall>d \<in> set (queue @ map fst (jumps_from js chain)). reaches js (set (chain # queue)) d"
        by (auto simp: in_jumps_from intro: reaches.intros)
      then show ?thesis using c reaches_trans by blast
    next
      case (Some l')
      with 2 new have "l' = l" by simp
      with Some obtain t where "(chain, t, l) \<in> set js" "has_prefix t ''CATTLE_''"
        using cattle_edge_Some by blast
      then show ?thesis using reaches.start by (metis list.set_intros(1))
    qed
  qed
qed simp

lemma hook_search_complete:
  assumes "hook_search js q seen = None"
    and "\<forall>c \<in> set seen. \<not> hooked js c \<and> (\<forall>t l. (c, t, l) \<in> set js \<longrightarrow> t \<in> set seen \<union> set q)"
  shows "\<forall>c. reaches js (set seen \<union> set q) c \<longrightarrow> \<not> hooked js c"
  using assms
proof (induction js q seen rule: hook_search.induct)
  case (1 js seen)
  have "reaches js (set seen \<union> set []) c \<Longrightarrow> c \<in> set seen" for c
    by (induction rule: reaches.induct) (use "1.prems" in auto)
  with "1.prems" show ?case by blast
next
  case (2 js chain queue seen)
  show ?case
  proof (cases "chain \<in> set seen")
    case True
    with 2 have "\<forall>c. reaches js (set seen \<union> set queue) c \<longrightarrow> \<not> hooked js c" by auto
    moreover have "set seen \<union> set (chain # queue) = set seen \<union> set queue" using True by auto
    ultimately show ?thesis by simp
  next
    case False
    let ?ts = "map fst (jumps_from js chain)"
    have e: "cattle_edge (jumps_from js chain) = None"
      using 2(3) False by (auto split: option.splits)
    have targets: "t \<in> set ?ts" if "(chain, t, l) \<in> set js" for t l
      using that by (force simp: in_jumps_from [symmetric])
    have "\<not> hooked js chain" using e by (simp add: cattle_edge_None)
    then have "\<forall>c \<in> set (chain # seen). \<not> hooked js c \<and>
        (\<forall>t l. (c, t, l) \<in> set js \<longrightarrow> t \<in> set (chain # seen) \<union> set (queue @ ?ts))"
      using "2.prems"(2) targets by fastforce
    moreover have "hook_search js (queue @ ?ts) (chain # seen) = None"
      using "2.prems"(1) False e by simp
    ultimately have all: "\<forall>c. reaches js (set (chain # seen) \<union> set (queue @ ?ts)) c \<longrightarrow> \<not> hooked js c"
      using "2.IH"(2) [OF False e] by blast
    have sub: "set seen \<union> set (chain # queue) \<subseteq> set (chain # seen) \<union> set (queue @ ?ts)" by auto
    show ?thesis using all reaches_mono [OF _ sub] by blast
  qed
qed

lemma line_jump_nonempty: "line_jump lf = Some (c, t, l) \<Longrightarrow> snd lf = str_fields (fst lf) \<Longrightarrow> l \<noteq> []"
  using trim_space_nonempty [of "fst lf"]
  by (cases "str_fields (fst lf) = []") (auto simp: line_jump_def Let_def split: if_splits option.splits)

lemma rule_jumps_nonempty: "(c, t, l) \<in> set (rule_jumps rules) \<Longrightarrow> l \<noteq> []"
  using line_jump_nonempty
  by (fastforce simp: rule_jumps_def line_fields_def List.map_filter_def)

text \<open>C12: \<open>platformHook\<close> reports a hook exactly when a chain that packets can reach from one of the five
  built-in chains, by any number of jumps, jumps to a platform (\<open>CATTLE_\<close>) chain: orphaned platform
  chains do not count, indirect references do.\<close>

theorem platformHook_exact:
  "platformHook rules \<noteq> [] \<longleftrightarrow>
    (\<exists>c. reaches (rule_jumps rules) (set builtin_chains) c \<and> hooked (rule_jumps rules) c)"
proof -
  let ?js = "rule_jumps rules"
  show ?thesis
  proof (cases "hook_search ?js builtin_chains []")
    case None
    have "\<forall>c. reaches ?js (set [] \<union> set builtin_chains) c \<longrightarrow> \<not> hooked ?js c"
      by (rule hook_search_complete [OF None]) simp
    then have "\<nexists>c. reaches ?js (set builtin_chains) c \<and> hooked ?js c" by simp
    then show ?thesis by (simp add: platformHook_def None)
  next
    case (Some l)
    then obtain c t where c: "reaches ?js (set builtin_chains) c" "(c, t, l) \<in> set ?js"
      "has_prefix t ''CATTLE_''"
      using hook_search_sound by blast
    then have "l \<noteq> []" "hooked ?js c" using rule_jumps_nonempty by (auto simp: hooked_def)
    with c(1) Some show ?thesis by (auto simp: platformHook_def)
  qed
qed

section \<open>What a selection rests on\<close>

text \<open>The listing of a table by a frontend, and the tables the kernel reports as loaded.\<close>

abbreviation nat_listing :: "inspectFunc \<Rightarrow> string \<Rightarrow> string" where
  "nat_listing inspect cmd \<equiv> fst (inspect cmd [''-t'', ''nat'', ''-S''])"

abbreviation filter_listing :: "inspectFunc \<Rightarrow> string \<Rightarrow> string" where
  "filter_listing inspect cmd \<equiv> fst (inspect cmd [''-t'', ''filter'', ''-S''])"

definition loaded_tables :: "readFileFunc \<Rightarrow> string" where
  "loaded_tables readFile = (case readFile ''/proc/net/ip_tables_names'' of Inr t \<Rightarrow> t | Inl _ \<Rightarrow> [])"

lemma legacy_tables_ok: "legacy_tables fmt readFile = Inr t \<Longrightarrow> t = loaded_tables readFile"
  by (auto simp: legacy_tables_def loaded_tables_def split: sum.splits if_splits)

lemma legacyInspectionCommand_ok: "legacyInspectionCommand lookup version = Inr c \<Longrightarrow> c = ''iptables-legacy''"
  by (auto simp: legacyInspectionCommand_def split: if_splits)

lemma nftInspectionCommand_ok:
  "nftInspectionCommand lookup version = Inr (c, un) \<Longrightarrow> (un \<and> c = []) \<or> (\<not> un \<and> (c = ''iptables-nft'' \<or> c = ''iptables''))"
  by (auto simp: nftInspectionCommand_def split: sum.splits if_splits)

lemma detect_nft_ok:
  "detect_nft c un inspect = Inr (rules, un', act) \<Longrightarrow>
    (act \<longrightarrow> hasDockerNATChain (nat_listing inspect c) \<and> \<not> un)
    \<and> (\<not> un' \<longrightarrow> rules = nat_listing inspect c \<and> act = hasDockerNATChain rules)
    \<and> (un' \<longleftrightarrow> un \<or> snd (inspect c [''-t'', ''nat'', ''-S'']) \<noteq> None)"
  by (auto simp: detect_nft_def split: if_splits prod.splits option.splits)

lemma detect_legacy_ok:
  "detect_legacy ld lookup version inspect = Inr (c, rules, act) \<Longrightarrow>
    (if ld then c = ''iptables-legacy'' \<and> rules = nat_listing inspect c \<and> act = hasDockerNATChain rules
     else c = [] \<and> rules = [] \<and> \<not> act)"
  by (auto simp: detect_legacy_def dest: legacyInspectionCommand_ok split: if_splits prod.splits option.splits)

lemma opposite_filter_ok:
  "opposite_filter_check c f g inspect = Inr () \<Longrightarrow>
    platformHook (filter_listing inspect c) = [] \<and> \<not> hasForwardDropPolicy (filter_listing inspect c)"
  by (auto simp: opposite_filter_check_def)

lemma check_legacy_side_ok:
  assumes "check_legacy_side t c rules lookup version inspect = Inr ()" and "c = [] \<or> c = ''iptables-legacy''"
  shows "(hasTable t ''nat'' \<longrightarrow> platformHook rules = [])
    \<and> (hasTable t ''filter'' \<longrightarrow> platformHook (filter_listing inspect ''iptables-legacy'') = []
        \<and> \<not> hasForwardDropPolicy (filter_listing inspect ''iptables-legacy''))"
  using assms
  by (auto simp: check_legacy_side_def dest!: opposite_filter_ok dest: legacyInspectionCommand_ok split: if_splits)

lemma check_nft_side_ok:
  "check_nft_side un c rules inspect = Inr () \<Longrightarrow> \<not> un \<Longrightarrow>
    platformHook rules = [] \<and> platformHook (filter_listing inspect c) = []
    \<and> \<not> hasForwardDropPolicy (filter_listing inspect c)"
  by (auto simp: check_nft_side_def dest!: opposite_filter_ok)

lemma select_active_ok:
  "select_active n l = Inr m \<longleftrightarrow> (m = IptablesNFT \<and> n \<and> \<not> l) \<or> (m = IptablesLegacy \<and> l \<and> \<not> n)"
  by (auto simp: select_active_def)

lemma IptablesLegacy_neq [simp]: "IptablesLegacy \<noteq> IptablesNFT" "IptablesNFT \<noteq> IptablesLegacy"
  "NFTables \<noteq> IptablesNFT" "NFTables \<noteq> IptablesLegacy" "IptablesNFT \<noteq> NFTables" "IptablesLegacy \<noteq> NFTables"
  by (simp_all add: mode_defs)

lemma DetectDockerXTFrontend_cases:
  assumes "DetectDockerXTFrontend lookup version inspect readFile = Inr m"
  obtains nc un nr nun nact lc lr lact where
    "nftInspectionCommand lookup version = Inr (nc, un)"
    "detect_nft nc un inspect = Inr (nr, nun, nact)"
    "detect_legacy (hasTable (loaded_tables readFile) ''nat'') lookup version inspect = Inr (lc, lr, lact)"
    "select_active nact lact = Inr m"
    "m = IptablesNFT \<longrightarrow> check_legacy_side (loaded_tables readFile) lc lr lookup version inspect = Inr ()"
    "m = IptablesLegacy \<longrightarrow> check_nft_side nun nc nr inspect = Inr ()"
  using assms unfolding DetectDockerXTFrontend_def
  by (auto dest!: legacy_tables_ok split: prod.splits if_splits)

text \<open>C5: A frontend is selected only while the other one is clean.  If Docker's frontend is found to be
  iptables-nft, every loaded legacy table was listed: its nat table has neither a reachable platform
  hook nor Docker's own live chain, its filter table has neither a platform hook nor a FORWARD DROP
  policy.  If it is found to be iptables-legacy and nft can be listed, the same holds of the nft
  tables.\<close>

theorem frontend_opposite_clean:
  assumes "DetectDockerXTFrontend lookup version inspect readFile = Inr m"
  shows "(m = IptablesNFT \<longrightarrow>
      (hasTable (loaded_tables readFile) ''nat'' \<longrightarrow>
         platformHook (nat_listing inspect ''iptables-legacy'') = []
         \<and> \<not> hasDockerNATChain (nat_listing inspect ''iptables-legacy''))
      \<and> (hasTable (loaded_tables readFile) ''filter'' \<longrightarrow>
         platformHook (filter_listing inspect ''iptables-legacy'') = []
         \<and> \<not> hasForwardDropPolicy (filter_listing inspect ''iptables-legacy'')))
    \<and> (m = IptablesLegacy \<longrightarrow>
      (\<exists>nc un. nftInspectionCommand lookup version = Inr (nc, un)
        \<and> (\<not> un \<and> snd (inspect nc [''-t'', ''nat'', ''-S'']) = None \<longrightarrow>
             platformHook (nat_listing inspect nc) = [] \<and> \<not> hasDockerNATChain (nat_listing inspect nc)
             \<and> platformHook (filter_listing inspect nc) = []
             \<and> \<not> hasForwardDropPolicy (filter_listing inspect nc))))"
proof -
  from assms obtain nc un nr nun nact lc lr lact where
    n: "nftInspectionCommand lookup version = Inr (nc, un)" "detect_nft nc un inspect = Inr (nr, nun, nact)"
    and l: "detect_legacy (hasTable (loaded_tables readFile) ''nat'') lookup version inspect = Inr (lc, lr, lact)"
    and sel: "select_active nact lact = Inr m"
    and side: "m = IptablesNFT \<longrightarrow> check_legacy_side (loaded_tables readFile) lc lr lookup version inspect = Inr ()"
      "m = IptablesLegacy \<longrightarrow> check_nft_side nun nc nr inspect = Inr ()"
    by (rule DetectDockerXTFrontend_cases)
  note leg = detect_legacy_ok [OF l] and nft = detect_nft_ok [OF n(2)]
  let ?T = "loaded_tables readFile"
  have lc: "lc = [] \<or> lc = ''iptables-legacy''" using leg by (cases "hasTable ?T ''nat''") simp_all
  have "(hasTable ?T ''nat'' \<longrightarrow> platformHook (nat_listing inspect ''iptables-legacy'') = []
           \<and> \<not> hasDockerNATChain (nat_listing inspect ''iptables-legacy''))
      \<and> (hasTable ?T ''filter'' \<longrightarrow> platformHook (filter_listing inspect ''iptables-legacy'') = []
           \<and> \<not> hasForwardDropPolicy (filter_listing inspect ''iptables-legacy''))" if m: "m = IptablesNFT"
  proof -
    have "\<not> lact" using sel m by (simp add: select_active_ok)
    then show ?thesis using check_legacy_side_ok [OF side(1) [rule_format, OF m] lc] leg
      by (cases "hasTable ?T ''nat''") simp_all
  qed
  moreover have "platformHook (nat_listing inspect nc) = [] \<and> \<not> hasDockerNATChain (nat_listing inspect nc)
      \<and> platformHook (filter_listing inspect nc) = [] \<and> \<not> hasForwardDropPolicy (filter_listing inspect nc)"
    if m: "m = IptablesLegacy" and a: "\<not> un \<and> snd (inspect nc [''-t'', ''nat'', ''-S'']) = None"
  proof -
    have nun: "\<not> nun" using nft a by simp
    have "\<not> nact" using sel m by (simp add: select_active_ok)
    then show ?thesis using check_nft_side_ok [OF side(2) [rule_format, OF m] nun] nft nun by auto
  qed
  ultimately show ?thesis using n(1) by blast
qed

text \<open>A host whose Docker uses iptables-nft and whose legacy tables are loaded but clean.\<close>

definition ex_lookup :: lookupFunc where
  "ex_lookup name = Inr (''/sbin/'' @ name)"

definition ex_version :: versionFunc where
  "ex_version name = (if has_prefix name ''iptables-legacy'' then ''v1.8 (legacy)'' else ''v1.8 (nf_tables)'', None)"

definition ex_inspect :: inspectFunc where
  "ex_inspect cmd args =
     (if cmd = ''iptables-nft'' \<and> args = [''-t'', ''nat'', ''-S'']
      then ''-N DOCKER'' @ nl @ ''-A OUTPUT -j DOCKER'' @ nl else ''-P FORWARD ACCEPT'', None)"

definition ex_tables :: readFileFunc where
  "ex_tables path = Inr (''nat'' @ nl @ ''filter'')"

lemmas fields_simps = str_fields_def ascii_space_def wide_space_def

lemma ex_listings:
  "hasDockerNATChain (''-N DOCKER'' @ nl @ ''-A OUTPUT -j DOCKER'' @ nl)"
  "\<not> hasDockerNATChain ''-P FORWARD ACCEPT''" "platformHook ''-P FORWARD ACCEPT'' = []"
  "\<not> hasForwardDropPolicy ''-P FORWARD ACCEPT''"
  by (simp_all add: hasDockerNATChain_def platformHook_def hasForwardDropPolicy_def line_fields_def str_lines_def
      rule_jumps_def declares_docker_def hooks_docker_def field_pairs_def fields_simps List.map_filter_def
      line_jump_def builtin_chains_def jumps_from_def cattle_edge_def)

lemma ex_tools:
  "nftInspectionCommand ex_lookup ex_version = Inr (''iptables-nft'', False)"
  "legacyInspectionCommand ex_lookup ex_version = Inr ''iptables-legacy''"
  "legacy_tables fmt ex_tables = Inr (''nat'' @ nl @ ''filter'')"
  "hasTable (''nat'' @ nl @ ''filter'') ''nat''" "hasTable (''nat'' @ nl @ ''filter'') ''filter''"
  by (simp_all add: nftInspectionCommand_def legacyInspectionCommand_def legacy_tables_def ex_lookup_def
      ex_version_def ex_tables_def has_prefix_def checked_def) code_simp+

lemma ex_frontend: "DetectDockerXTFrontend ex_lookup ex_version ex_inspect ex_tables = Inr IptablesNFT"
  by (simp add: DetectDockerXTFrontend_def ex_tools [simplified] detect_nft_def detect_legacy_def check_legacy_side_def
      ex_inspect_def checked_def ex_listings [simplified] select_active_def opposite_filter_check_def)

theorem frontend_opposite_clean_witness:
  "DetectDockerXTFrontend ex_lookup ex_version ex_inspect ex_tables = Inr IptablesNFT
   \<and> platformHook (nat_listing ex_inspect ''iptables-legacy'') = []"
  using frontend_opposite_clean [OF ex_frontend] ex_frontend ex_tools(4)
  by (simp add: loaded_tables_def ex_tables_def)

section \<open>The whole selection\<close>

lemma dockerFirewallDriver_ok:
  "dockerFirewallDriver r v = Inr d \<Longrightarrow> d = r \<and> r \<noteq> [] \<or> d = ''iptables'' \<and> r = []"
  by (auto simp: dockerFirewallDriver_def Let_def split: if_splits option.splits)

definition runs_as :: "lookupFunc \<Rightarrow> versionFunc \<Rightarrow> string \<Rightarrow> string \<Rightarrow> bool" where
  "runs_as lookup version marker binary \<longleftrightarrow> (\<exists>path. lookup binary = Inr path)
     \<and> snd (version binary) = None \<and> str_contains (fst (version binary)) marker"

lemma verify_binary_ok: "verify_binary m marker lookup version binary = Inr () \<longleftrightarrow> runs_as lookup version marker binary"
  by (auto simp: verify_binary_def runs_as_def)

lemma resolve_xt_ok:
  assumes "resolve_xt m lookup version = Inr b"
  shows "be_Mode b = m \<and> (\<exists>c r marker. xt_tools m = Some (c, r, marker)
    \<and> runs_as lookup version marker (be_Command b) \<and> runs_as lookup version marker (be_Restore b))"
  using assms unfolding resolve_xt_def Let_def
  by (auto simp: verify_binary_ok simp del: checkR.simps simp: checkR_ok split: option.splits)

lemma ResolveBackend_cases:
  assumes "ResolveBackend req drv lookup version = Inr b"
  shows "(be_Mode b = NFTables \<and> drv = ''nftables'' \<and> be_Command b = ''nft'' \<and> (req = [] \<or> req = Auto \<or> req = NFTables))
    \<or> (drv = ''iptables'' \<and> req \<noteq> NFTables \<and> resolve_xt req lookup version = Inr b)"
  using assms unfolding ResolveBackend_def Let_def by (auto split: if_splits)

lemma frontend_live:
  assumes "DetectDockerXTFrontend lookup version inspect readFile = Inr m"
  shows "(m = IptablesNFT \<and> (\<exists>nc. nftInspectionCommand lookup version = Inr (nc, False) \<and> hasDockerNATChain (nat_listing inspect nc)))
    \<or> (m = IptablesLegacy \<and> hasTable (loaded_tables readFile) ''nat'' \<and> hasDockerNATChain (nat_listing inspect ''iptables-legacy''))"
proof -
  from assms obtain nc un nr nun nact lc lr lact where
    n: "nftInspectionCommand lookup version = Inr (nc, un)" "detect_nft nc un inspect = Inr (nr, nun, nact)"
    and l: "detect_legacy (hasTable (loaded_tables readFile) ''nat'') lookup version inspect = Inr (lc, lr, lact)"
    and sel: "select_active nact lact = Inr m"
    by (rule DetectDockerXTFrontend_cases)
  from sel consider "m = IptablesNFT" nact | "m = IptablesLegacy" lact by (auto simp: select_active_ok)
  then show ?thesis
  proof cases
    case 1
    then show ?thesis using detect_nft_ok [OF n(2)] n(1) by auto
  next
    case 2
    then show ?thesis using detect_legacy_ok [OF l] by (cases "hasTable (loaded_tables readFile) ''nat''") auto
  qed
qed

lemma checkPreviousXTRules_ok:
  "checkPreviousXTRules c t inspect = Inr () \<Longrightarrow> platformHook (fst (inspect c [''-t'', t, ''-S''])) = []
    \<and> (t = ''filter'' \<longrightarrow> \<not> hasForwardDropPolicy (fst (inspect c [''-t'', t, ''-S''])))
    \<and> (t = ''nat'' \<longrightarrow> \<not> hasDockerNATChain (fst (inspect c [''-t'', t, ''-S''])))"
  by (auto simp: checkPreviousXTRules_def split: if_splits)

lemma CheckNativeMigration_ok:
  assumes "CheckNativeMigration lookup version inspect readFile = Inr ()"
  obtains nc un where "nftInspectionCommand lookup version = Inr (nc, un)"
    "\<forall>t \<in> {''filter'', ''nat''}. \<not> un \<longrightarrow> checkPreviousXTRules nc t inspect = Inr ()"
    "\<forall>t \<in> {''filter'', ''nat''}. hasTable (loaded_tables readFile) t \<longrightarrow>
       checkPreviousXTRules ''iptables-legacy'' t inspect = Inr ()"
  using assms unfolding CheckNativeMigration_def
  by (auto dest!: legacy_tables_ok dest: legacyInspectionCommand_ok split: if_splits prod.splits)

lemma Detect_cases:
  assumes "Detect info lookup version inspect readFile requested = Inr b"
  obtains reported ver driver where "info = Inr (reported, ver)" "dockerFirewallDriver reported ver = Inr driver"
    "if driver = ''iptables''
     then \<exists>active. DetectDockerXTFrontend lookup version inspect readFile = Inr active
        \<and> (requested = [] \<or> requested = Auto \<or> requested = active)
        \<and> ResolveBackend active driver lookup version = Inr b
     else ResolveBackend requested driver lookup version = Inr b"
    "be_Mode b = NFTables \<longrightarrow> CheckNativeMigration lookup version inspect readFile = Inr () \<and> CheckDockerBridgeMark inspect = Inr ()"
  using assms unfolding Detect_def
  by (fastforce simp: SelectDockerXTMode_def split: if_splits prod.splits)

text \<open>C4: A backend is selected on evidence only.  Native nftables requires that Docker reports the
  nftables driver, that the bridge mark is in Docker's live table, and that no inspectable table of
  either iptables frontend still carries a platform hook, a FORWARD DROP policy or Docker's own
  live NAT chain.  An xtables mode requires that Docker's own NAT chain is live in that frontend.
  A mode requested explicitly is the mode selected, and "auto" never comes out.\<close>

theorem Detect_evidence:
  assumes "Detect info lookup version inspect readFile requested = Inr b"
  shows "((be_Mode b = NFTables
        \<and> (\<exists>ver. info = Inr (''nftables'', ver))
        \<and> dockerBridgeMark (fst (inspect ''nft'' [''list'', ''table'', ''ip'', ''docker-bridges'']))
        \<and> (\<forall>c t. (nftInspectionCommand lookup version = Inr (c, False)
                  \<or> c = ''iptables-legacy'' \<and> hasTable (loaded_tables readFile) t) \<and> t \<in> {''filter'', ''nat''} \<longrightarrow>
            platformHook (fst (inspect c [''-t'', t, ''-S''])) = []
            \<and> (t = ''filter'' \<longrightarrow> \<not> hasForwardDropPolicy (fst (inspect c [''-t'', t, ''-S''])))
            \<and> (t = ''nat'' \<longrightarrow> \<not> hasDockerNATChain (fst (inspect c [''-t'', t, ''-S''])))))
      \<or> (be_Mode b = IptablesNFT
        \<and> (\<exists>c. nftInspectionCommand lookup version = Inr (c, False) \<and> hasDockerNATChain (nat_listing inspect c)))
      \<or> (be_Mode b = IptablesLegacy \<and> hasTable (loaded_tables readFile) ''nat''
        \<and> hasDockerNATChain (nat_listing inspect ''iptables-legacy'')))
    \<and> (requested \<noteq> [] \<and> requested \<noteq> Auto \<longrightarrow> be_Mode b = requested)"
proof -
  from assms obtain reported ver driver where i: "info = Inr (reported, ver)" "dockerFirewallDriver reported ver = Inr driver"
    and r: "if driver = ''iptables''
     then \<exists>active. DetectDockerXTFrontend lookup version inspect readFile = Inr active
        \<and> (requested = [] \<or> requested = Auto \<or> requested = active)
        \<and> ResolveBackend active driver lookup version = Inr b
     else ResolveBackend requested driver lookup version = Inr b"
    and n: "be_Mode b = NFTables \<longrightarrow> CheckNativeMigration lookup version inspect readFile = Inr () \<and> CheckDockerBridgeMark inspect = Inr ()"
    by (rule Detect_cases)
  show ?thesis
  proof (cases "driver = ''iptables''")
    case True
    with r obtain active where a: "DetectDockerXTFrontend lookup version inspect readFile = Inr active"
      "requested = [] \<or> requested = Auto \<or> requested = active" "ResolveBackend active driver lookup version = Inr b" by auto
    have "be_Mode b = active" using ResolveBackend_cases [OF a(3)] resolve_xt_ok True by auto
    then show ?thesis using frontend_live [OF a(1)] a(2) by blast
  next
    case False
    with r have "be_Mode b = NFTables" "driver = ''nftables''" "requested = [] \<or> requested = Auto \<or> requested = NFTables"
      using ResolveBackend_cases [of requested driver lookup version b] by auto
    moreover have "reported = ''nftables''" using dockerFirewallDriver_ok [OF i(2)] calculation(2) by auto
    moreover have "CheckNativeMigration lookup version inspect readFile = Inr ()" "CheckDockerBridgeMark inspect = Inr ()"
      using n calculation(1) by auto
    ultimately show ?thesis using i(1) checkPreviousXTRules_ok
      by (auto simp: CheckDockerBridgeMark_def elim!: CheckNativeMigration_ok)
  qed
qed

text \<open>The same host seen by \<open>Detect\<close> with the mode left open.\<close>

lemma ex_detect:
  "Detect (Inr (''iptables'', ''29.1.0'')) ex_lookup ex_version ex_inspect ex_tables Auto
   = Inr \<lparr>be_Mode = IptablesNFT, be_Command = ''iptables-nft'', be_Restore = ''iptables-nft-restore''\<rparr>"
  by (simp add: Detect_def ex_frontend dockerFirewallDriver_def SelectDockerXTMode_def) code_simp

theorem Detect_evidence_witness:
  "Detect (Inr (''iptables'', ''29.1.0'')) ex_lookup ex_version ex_inspect ex_tables Auto
     = Inr \<lparr>be_Mode = IptablesNFT, be_Command = ''iptables-nft'', be_Restore = ''iptables-nft-restore''\<rparr>
   \<and> hasDockerNATChain (nat_listing ex_inspect ''iptables-nft'')"
  using Detect_evidence [OF ex_detect] ex_detect ex_tools(1) by auto

text \<open>The two binaries of a selected xtables backend are the requested variant: both exist and both
  report a version that names the frontend of the mode, so one rule set is never written with one
  variant and read back with the other.\<close>

theorem ResolveBackend_one_variant:
  assumes "ResolveBackend requested driver lookup version = Inr b" and "be_Mode b \<noteq> NFTables"
  shows "be_Mode b = requested \<and> driver = ''iptables''
    \<and> (\<exists>c r marker. xt_tools requested = Some (c, r, marker)
        \<and> (\<forall>binary \<in> {be_Command b, be_Restore b}. (\<exists>path. lookup binary = Inr path)
            \<and> snd (version binary) = None \<and> str_contains (fst (version binary)) marker))"
  using ResolveBackend_cases [OF assms(1)] assms(2) resolve_xt_ok by (fastforce simp: runs_as_def)

theorem ResolveBackend_one_variant_witness:
  "ResolveBackend IptablesLegacy ''iptables'' ex_lookup ex_version
     = Inr \<lparr>be_Mode = IptablesLegacy, be_Command = ''iptables-legacy'', be_Restore = ''iptables-legacy-restore''\<rparr>
   \<and> str_contains (fst (ex_version ''iptables-legacy-restore'')) ''legacy''"
proof -
  have r: "ResolveBackend IptablesLegacy ''iptables'' ex_lookup ex_version
     = Inr \<lparr>be_Mode = IptablesLegacy, be_Command = ''iptables-legacy'', be_Restore = ''iptables-legacy-restore''\<rparr>"
    by code_simp
  then show ?thesis using ResolveBackend_one_variant [OF r] by (auto simp: xt_tools_def)
qed

end
