(* ===== verification/HostPorts.thy ===== *)
theory HostPorts
  imports Identity RouteLocalnet Firewall
begin

text \<open>
  The host-port watcher (\<open>src/hostports/watcher.go\<close> and \<open>applyNFT\<close>, \<open>checkNFTRules\<close> of \<open>nft.go\<close>): from a
  metadata snapshot to a rule set, and from a rule set to the host.  The watcher's two mutexes make
  each of \<open>onChangeLocked\<close> and \<open>repairOnce\<close> run alone, so one call is one procedure here.
\<close>

definition reapplyEvery :: int where "reapplyEvery = 5 * 60 * second"

text \<open>\<open>time.Now().Sub(last) > d\<close>; the difference to the zero time saturates above every \<open>d\<close>.\<close>

definition elapsed :: "int \<Rightarrow> int option \<Rightarrow> int \<Rightarrow> bool" where
  "elapsed now since_t d = (case since_t of None \<Rightarrow> True | Some t \<Rightarrow> now - t > d)"

text \<open>\<open>err.Error()\<close>, cut down to the format string: only logs and one message show it.\<close>

fun err_text :: "gerr \<Rightarrow> string" where
  "err_text (Errorf f _) = f"
| "err_text (Wrapf f _ _) = f"
| "err_text (Joined es) = str_join nl (map err_text es)"
| "err_text (NotExist p) = p"
| "err_text (NotFound p) = p"
| "err_text (EnvErr m) = m"

section \<open>Base rules\<close>

text \<open>Check a jump; insert it if the check fails.  Errors are collected.\<close>

definition hook_step ::
    "env \<Rightarrow> string \<Rightarrow> string list \<Rightarrow> string list \<Rightarrow> gerr list \<Rightarrow> ('a world_scheme, gerr list) proc" where
  "hook_step e ipt check ins errs =
     bindP (tryP (perform e (Run (ipt # check)))) (\<lambda>r.
       case r of
         Inr _ \<Rightarrow> retP errs
       | Inl _ \<Rightarrow> bindP (tryP (perform e (Run (ipt # ins)))) (\<lambda>r'.
           case r' of Inr _ \<Rightarrow> retP errs | Inl er \<Rightarrow> retP (errs @ [er])))"

fun first_forward_line :: "string list \<Rightarrow> bool" where
  "first_forward_line [] = False"
| "first_forward_line (line # ls) =
     (if \<not> has_prefix line ''-A FORWARD '' then first_forward_line ls
      else line = ''-A FORWARD -j CATTLE_FORWARD'')"

definition forwardJumpIsFirst :: "string \<Rightarrow> bool" where
  "forwardJumpIsFirst output = first_forward_line (str_lines output)"

definition ensureForwardJumpFirst :: "env \<Rightarrow> string \<Rightarrow> ('a world_scheme, unit) proc" where
  "ensureForwardJumpFirst e ipt =
     bindP (tryP (text_of e (Output [ipt, ''-w'', ''-S'', ''FORWARD'']))) (\<lambda>r.
       if (case r of Inr out \<Rightarrow> forwardJumpIsFirst out | Inl _ \<Rightarrow> False) then retP ()
       else perform e (Run [ipt, ''-w'', ''-I'', ''FORWARD'', ''1'', ''-j'', ''CATTLE_FORWARD'']))"

abbreviation local_jump :: "string \<Rightarrow> string list" where
  "local_jump chain \<equiv> [''-m'', ''addrtype'', ''--dst-type'', ''LOCAL'', ''-j'', chain]"

definition insertBaseRules :: "env \<Rightarrow> Backend \<Rightarrow> ('a world_scheme, unit) proc" where
  "insertBaseRules e backend =
     (if be_Mode backend = NFTables then retP ()
      else
        let ipt = be_Command backend in
        if ipt = [] then raiseP (Errorf ''hostports iptables command is not configured'' [])
        else
          bindP (hook_step e ipt ([''-w'', ''-t'', ''raw'', ''-C'', ''PREROUTING'', ''-j'', hostPortsRawChain])
                   ([''-w'', ''-t'', ''raw'', ''-I'', ''PREROUTING'', ''1'', ''-j'', hostPortsRawChain]) []) (\<lambda>errs1.
          bindP (hook_step e ipt ([''-w'', ''-t'', ''nat'', ''-C'', ''PREROUTING''] @ local_jump ''CATTLE_PREROUTING'')
                   ([''-w'', ''-t'', ''nat'', ''-I'', ''PREROUTING''] @ local_jump ''CATTLE_PREROUTING'') errs1) (\<lambda>errs2.
          bindP (tryP (ensureForwardJumpFirst e ipt)) (\<lambda>r.
          bindP (hook_step e ipt ([''-w'', ''-t'', ''nat'', ''-C'', ''OUTPUT''] @ local_jump ''CATTLE_OUTPUT'')
                   ([''-w'', ''-t'', ''nat'', ''-I'', ''OUTPUT''] @ local_jump ''CATTLE_OUTPUT'')
                   (errs2 @ (case r of Inl er \<Rightarrow> [er] | Inr _ \<Rightarrow> []))) (\<lambda>errs4.
          bindP (hook_step e ipt [''-w'', ''-t'', ''nat'', ''-C'', ''POSTROUTING'', ''-j'', hostPortsPostRoutingChain]
                   [''-w'', ''-t'', ''nat'', ''-I'', ''POSTROUTING'', ''-j'', hostPortsPostRoutingChain] errs4) (\<lambda>errs.
            if errs = [] then retP ()
            else raiseP (Errorf ''failed to insert hostport base rules: %s'' [str_join ''; '' (map err_text errs)])))))))"

section \<open>Applying a rule set\<close>

definition applied_now :: "env \<Rightarrow> ruleSet \<Rightarrow> ('a hp_state_scheme, unit) proc" where
  "applied_now e rules =
     bindP (time_Now e) (\<lambda>now. modifyP (\<lambda>s. s\<lparr>hp_applied := rules, hp_lastApplied := Some now\<rparr>))"

text \<open>Is our table in the output of \<open>nft list tables\<close>?\<close>

definition table_listed :: "string \<Rightarrow> bool" where
  "table_listed out = list_ex (\<lambda>l. str_fields l = [''table'', ''ip'', nftHostportsTable]) (str_lines out)"

definition applyNFT :: "env \<Rightarrow> ruleSet \<Rightarrow> ('a hp_state_scheme, unit) proc" where
  "applyNFT e rules =
     bindP (wrapP (Wrapf ''inspect nft tables before hostport update: %w'' [])
              (text_of e (Output [''nft'', ''list'', ''tables'']))) (\<lambda>out.
     let batch = nftHostportBatch rules (table_listed out) in
     bindP (wrapP (Wrapf ''validate native nft hostport batch: %w'' [])
              (perform e (Pipe ''nft'' [''-c'', ''-f'', ''-''] batch))) (\<lambda>_.
     bindP (restoreRemovedRouteLocalnet e rules) (\<lambda>_.
     bindP (wrapP (Wrapf ''apply native nft hostport batch: %w'' [])
              (perform e (Pipe ''nft'' [''-f'', ''-''] batch))) (\<lambda>_.
     bindP (activateRouteLocalnet e rules) (\<lambda>_.
       applied_now e rules)))))"

definition apply_xt :: "env \<Rightarrow> Backend \<Rightarrow> ruleSet \<Rightarrow> ('a hp_state_scheme, unit) proc" where
  "apply_xt e backend rules =
     (if be_Restore backend = [] then raiseP (Errorf ''hostports restore command is not configured'' [])
      else
        bindP (wrapP (Wrapf ''validate hostport rules: %w'' [])
                 (perform e (Pipe (be_Restore backend) [''--test'', ''-n''] (apply_text rules)))) (\<lambda>_.
        bindP (restoreRemovedRouteLocalnet e rules) (\<lambda>_.
        bindP (wrapP (Wrapf ''apply hostport rules: %w'' [])
                 (perform e (Pipe (be_Restore backend) [''-n''] (apply_text rules)))) (\<lambda>_.
        bindP (wrapP (Wrapf ''apply port base iptables rules: %w'' []) (insertBaseRules e backend)) (\<lambda>_.
        bindP (activateRouteLocalnet e rules) (\<lambda>_.
          applied_now e rules))))))"

definition hp_apply :: "env \<Rightarrow> Backend \<Rightarrow> ruleSet \<Rightarrow> ('a hp_state_scheme, unit) proc" where
  "hp_apply e backend rules =
     bindP (liftP (validateRuleSet rules)) (\<lambda>_.
       if be_Mode backend = NFTables then applyNFT e rules else apply_xt e backend rules)"

section \<open>The rule set of a metadata snapshot\<close>

definition networksByUUID :: "env \<Rightarrow> ('a world_scheme, Network gomap) proc" where
  "networksByUUID e =
     bindP (getNetworks e) (\<lambda>networks. retP (foldl (\<lambda>m n. mput (net_UUID n) n m) [] networks))"

definition empty_rules :: ruleSet where
  "empty_rules = \<lparr>rs_Ports = [], rs_ForwardSubnets = [], rs_ForwardBridges = [], rs_ForwardPeers = None,
     rs_SharedIngress = None, rs_RouteLocalnetBridges = []\<rparr>"

text \<open>The accumulator of the loop over the networks: the rules, and the hosts once they are loaded.\<close>

definition network_step ::
    "env \<Rightarrow> Host \<Rightarrow> Network gomap \<Rightarrow> string \<Rightarrow> ruleSet \<times> Host list option
     \<Rightarrow> ('a world_scheme, ruleSet \<times> Host list option) proc" where
  "network_step e host networks uuid acc =
     (let rules = fst acc; peerHosts = snd acc in
      bindP (wrapP (Wrapf ''network %s bridge configuration: %w'' [uuid])
               (liftP (bridgeConfigForNetwork (mget zero_Network networks uuid)))) (\<lambda>config.
        let subnet = bc_Subnet config in
        if subnet = [] then retP acc
        else if bc_Bridge config = [] then
          raiseP (Errorf ''network %s has a forward subnet but no managed bridge'' [uuid])
        else
          bindP (wrapP (Wrapf ''network %s hostport subnet: %w'' [uuid])
                   (liftP (Resolve subnet (host_Labels host)))) (\<lambda>resolved.
            let rules1 = rules\<lparr>rs_ForwardSubnets := mput uuid resolved (rs_ForwardSubnets rules),
                               rs_ForwardBridges := mput uuid (bc_Bridge config) (rs_ForwardBridges rules)\<rparr>;
                rules2 = (if bc_SharedIngress config
                  then rules1\<lparr>rs_SharedIngress := Some (mput uuid True (entries (rs_SharedIngress rules1)))\<rparr>
                  else rules1)
            in if \<not> IsReference subnet then retP (rules2, peerHosts)
               else
                 bindP (case peerHosts of Some hosts \<Rightarrow> retP hosts | None \<Rightarrow> getHosts e) (\<lambda>hosts.
                 bindP (wrapP (Wrapf ''network %s hostport peers: %w'' [uuid])
                          (liftP (PeerSubnets subnet (host_UUID host) resolved hosts))) (\<lambda>peers.
                   retP (rules2\<lparr>rs_ForwardPeers := Some (mput uuid (case peers of None \<Rightarrow> [] | Some ps \<Rightarrow> ps)
                            (entries (rs_ForwardPeers rules2)))\<rparr>, Some hosts))))))"

definition inspectRunningContainerPID :: "env \<Rightarrow> string \<Rightarrow> ('a world_scheme, int) proc" where
  "inspectRunningContainerPID e cid =
     bindP (wrapP (Wrapf ''inspect Docker container: %w'' [])
              (dc_ContainerInspect e cid)) (\<lambda>inspect.
       case dk_State inspect of
         Some (running, pid) \<Rightarrow>
           if running \<and> pid > 0 then retP pid
           else raiseP (Errorf ''Docker container is not running with a network namespace'' [])
       | None \<Rightarrow> raiseP (Errorf ''Docker container is not running with a network namespace'' []))"

definition readContainerNamespaceIPv4 :: "env \<Rightarrow> int \<Rightarrow> ('a world_scheme, link_addr list) proc" where
  "readContainerNamespaceIPv4 e pid =
     bindP (wrapP (Wrapf ''open network namespace: %w'' []) (perform e (OpenNamespace pid))) (\<lambda>_.
     bindP (wrapP (Wrapf ''open netlink handle: %w'' []) (perform e (NetlinkHandle pid))) (\<lambda>_.
       wrapP (Wrapf ''list network addresses: %w'' []) (ask e (ReadNamespace pid) (\<lambda>s. e_addrs e (trace s) pid))))"

definition resolveContainerIPv4 :: "env \<Rightarrow> string \<Rightarrow> string \<Rightarrow> ('a world_scheme, string) proc" where
  "resolveContainerIPv4 e cid subnet =
     (if cid = [] then raiseP (Errorf ''Docker container ID is empty'' [])
      else (case parse_prefix4 subnet of
          None \<Rightarrow> raiseP (Errorf ''managed subnet %q is not a valid IPv4 prefix'' [subnet])
        | Some p \<Rightarrow>
            bindP (inspectRunningContainerPID e cid) (\<lambda>pid.
            bindP (readContainerNamespaceIPv4 e pid) (\<lambda>addresses.
            bindP (wrapP (Wrapf ''revalidate Docker container after network namespace read: %w'' [])
                     (inspectRunningContainerPID e cid)) (\<lambda>confirmedPID.
              if confirmedPID \<noteq> pid then
                raiseP (Errorf ''Docker container PID changed during network namespace read: %d to %d''
                  [int_str pid, int_str confirmedPID])
              else liftP (selectContainerIPv4 addresses (masked4 p)))))))"

definition container_publishes :: "Host \<Rightarrow> Network \<Rightarrow> Container \<Rightarrow> bool" where
  "container_publishes host network c \<longleftrightarrow>
     (ctr_State c = ''running'' \<or> ctr_State c = ''starting'')
     \<and> ctr_HostUUID c = host_UUID host
     \<and> (net_HostPorts network \<or> (ctr_System c \<and> mget [] (ctr_Labels c) ''io.rancher.network.host_ports'' = ''true''))
     \<and> ctr_Ports c \<noteq> []"

definition loopback_source :: "PortRule \<Rightarrow> bool" where
  "loopback_source rule \<longleftrightarrow> pr_SourceIP rule = ''0.0.0.0''
     \<or> (case parse_addr (pr_SourceIP rule) of Some a \<Rightarrow> is_loopback a | None \<Rightarrow> False)"

definition port_step ::
    "Host \<Rightarrow> Container \<Rightarrow> bridgeNetworkConfig \<Rightarrow> string \<Rightarrow> string \<Rightarrow> ruleSet \<Rightarrow> ruleSet result" where
  "port_step host c config targetIP port rules =
     (case parsePortRule (bc_Bridge config) (host_AgentIP host) targetIP port of
        None \<Rightarrow> Inl (Errorf ''invalid host port definition for container %s (%s): %q'' [ctr_Name c, ctr_ExternalId c, port])
      | Some rule0 \<Rightarrow>
          let rule = rule0\<lparr>pr_MasqueradeDNAT := bc_ExternalGateway config\<rparr>;
              rules1 = rules\<lparr>rs_Ports := mput (ctr_ExternalId c @ ''/'' @ port) rule (rs_Ports rules)\<rparr>
          in Inr (if pr_Bridge rule \<noteq> [] \<and> loopback_source rule
                  then rules1\<lparr>rs_RouteLocalnetBridges := mput (pr_Bridge rule) True (rs_RouteLocalnetBridges rules1)\<rparr>
                  else rules1))"

definition container_step ::
    "env \<Rightarrow> Host \<Rightarrow> Network gomap \<Rightarrow> Container \<Rightarrow> ruleSet \<Rightarrow> ('a world_scheme, ruleSet) proc" where
  "container_step e host networks c rules =
     (let network = mget zero_Network networks (ctr_NetworkUUID c) in
      if \<not> container_publishes host network c then retP rules
      else
        bindP (wrapP (Wrapf ''network %s bridge configuration: %w'' [ctr_NetworkUUID c])
                 (liftP (bridgeConfigForNetwork network))) (\<lambda>config.
        bindP (if ctr_PrimaryIp c \<noteq> [] then retP (ctr_PrimaryIp c)
               else
                 let subnet = mget [] (rs_ForwardSubnets rules) (ctr_NetworkUUID c) in
                 if subnet = [] then
                   raiseP (Errorf ''container %s (%s) publishes host ports without a metadata IP or managed subnet''
                     [ctr_Name c, ctr_ExternalId c])
                 else wrapP (Wrapf ''resolve host-port address for container %s (%s): %w'' [ctr_Name c, ctr_ExternalId c])
                        (resolveContainerIPv4 e (ctr_ExternalId c) subnet)) (\<lambda>targetIP.
          liftP (foldR (port_step host c config targetIP) (ctr_Ports c) rules))))"

definition hp_newRules :: "env \<Rightarrow> ('a world_scheme, ruleSet) proc" where
  "hp_newRules e =
     bindP (LocalHost e) (\<lambda>host.
     bindP (networksByUUID e) (\<lambda>networks.
     bindP (range_keys e networks) (\<lambda>uuids.
     bindP (foldP (network_step e host networks) uuids (empty_rules, None)) (\<lambda>(rules, _).
     bindP (getContainers e) (\<lambda>containers.
       foldP (container_step e host networks) containers rules)))))"

section \<open>Reconciling\<close>

definition hp_onChangeLocked :: "env \<Rightarrow> Backend \<Rightarrow> bool \<Rightarrow> ('a hp_state_scheme, unit) proc" where
  "hp_onChangeLocked e backend force =
     bindP (hp_newRules e) (\<lambda>newRules.
     bindP (getP hp_applied) (\<lambda>applied.
       if force \<or> \<not> ruleset_eq applied newRules then hp_apply e backend newRules
       else
         bindP (time_Now e) (\<lambda>now.
         bindP (getP hp_lastApplied) (\<lambda>lastApplied.
           if elapsed now lastApplied reapplyEvery then hp_apply e backend newRules else retP ()))))"

section \<open>Checking the native table\<close>

record nftChain =
  nc_Family :: string
  nc_Table :: string
  nc_Name :: string
  nc_Type :: string
  nc_Hook :: string
  nc_Prio :: int
  nc_Policy :: string

definition dec_chain :: "json \<Rightarrow> nftChain result" where
  "dec_chain raw =
     bindR (dec_object raw) (\<lambda>ms.
     bindR (dec_string ''family'' ms) (\<lambda>fam. bindR (dec_string ''table'' ms) (\<lambda>tab.
     bindR (dec_string ''name'' ms) (\<lambda>nam. bindR (dec_string ''type'' ms) (\<lambda>typ.
     bindR (dec_string ''hook'' ms) (\<lambda>hook. bindR (dec_int ''prio'' ms) (\<lambda>prio.
     bindR (dec_string ''policy'' ms) (\<lambda>pol.
       Inr \<lparr>nc_Family = fam, nc_Table = tab, nc_Name = nam, nc_Type = typ, nc_Hook = hook, nc_Prio = prio,
            nc_Policy = pol\<rparr>))))))))"

text \<open>Family, table and chain of a listed rule.\<close>

definition dec_rule :: "json \<Rightarrow> (string \<times> string \<times> string) result" where
  "dec_rule raw =
     bindR (dec_object raw) (\<lambda>ms.
     bindR (dec_string ''family'' ms) (\<lambda>fam. bindR (dec_string ''table'' ms) (\<lambda>tab.
     bindR (dec_string ''chain'' ms) (\<lambda>ch. Inr (fam, tab, ch)))))"

text \<open>Type, hook, priority and policy of the chains the table must have.\<close>

definition nft_expected :: "(string \<times> string \<times> string \<times> int \<times> string) list" where
  "nft_expected =
     [(''raw_prerouting'', ''filter'', ''prerouting'', -300, ''accept''),
      (''prerouting'', ''nat'', ''prerouting'', -101, ''accept''),
      (''output'', ''nat'', ''output'', -101, ''accept''),
      (''postrouting'', ''nat'', ''postrouting'', 99, ''accept''),
      (''forward'', ''filter'', ''forward'', -1, ''accept'')]"

definition chain_as_wanted :: "nftChain \<Rightarrow> string \<times> string \<times> int \<times> string \<Rightarrow> bool" where
  "chain_as_wanted got want \<longleftrightarrow> nc_Family got = ''ip'' \<and> nc_Table got = nftHostportsTable
     \<and> (nc_Type got, nc_Hook got, nc_Prio got, nc_Policy got) = want"

text \<open>One item of the listing; the accumulator is the chains seen and the rules counted.\<close>

definition listing_step ::
    "json gomap \<Rightarrow> string list \<times> int gomap \<Rightarrow> (string list \<times> int gomap) result" where
  "listing_step item acc =
     bindR (case map_of item ''chain'' of
         None \<Rightarrow> Inr (fst acc)
       | Some raw \<Rightarrow>
           bindR (wrapR (Wrapf ''decode native nft hostport chain: %w'' []) (dec_chain raw)) (\<lambda>got.
             case map_of nft_expected (nc_Name got) of
               None \<Rightarrow> Inr (fst acc)
             | Some want \<Rightarrow>
                 if \<not> chain_as_wanted got want
                 then Inl (Errorf ''native nft hostport chain %q has unexpected hook or policy'' [nc_Name got])
                 else Inr (nc_Name got # fst acc))) (\<lambda>seen.
     bindR (case map_of item ''rule'' of
         None \<Rightarrow> Inr (snd acc)
       | Some raw \<Rightarrow>
           bindR (wrapR (Wrapf ''decode native nft hostport rule: %w'' []) (dec_rule raw)) (\<lambda>(fam, tab, ch).
             Inr (if fam = ''ip'' \<and> tab = nftHostportsTable then bump ch (snd acc) else snd acc))) (\<lambda>actual.
       Inr (seen, actual)))"

definition check_listing :: "ruleSet \<Rightarrow> json gomap list \<Rightarrow> unit result" where
  "check_listing applied items =
     bindR (foldR listing_step items ([], [])) (\<lambda>(seen, actual).
       checkR (\<lambda>(name, _). ensureR (\<not> (name \<notin> set seen \<or> mget 0 actual name \<noteq> mget 0 (nft_rule_count applied) name))
         (Errorf ''native nft hostport chain %q is missing or has %d rules, want %d''
            [name, int_str (mget 0 actual name), int_str (mget 0 (nft_rule_count applied) name)])) nft_expected)"

definition decode_listing :: "string \<Rightarrow> json gomap list result" where
  "decode_listing out =
     (case json_parse out of None \<Rightarrow> Inl (EnvErr ''invalid JSON'') | Some v \<Rightarrow> dec_listing v)"

definition checkNFTRules :: "env \<Rightarrow> ('a hp_state_scheme, unit) proc" where
  "checkNFTRules e =
     bindP (wrapP (Wrapf ''inspect native nft hostport table: %w'' [])
              (text_of e (Output [''nft'', ''-j'', ''list'', ''table'', ''ip'', nftHostportsTable]))) (\<lambda>out.
     bindP (wrapP (Wrapf ''decode native nft hostport table: %w'' []) (liftP (decode_listing out))) (\<lambda>items.
     bindP (getP hp_applied) (\<lambda>applied. liftP (check_listing applied items))))"

section \<open>Entry points\<close>

text \<open>One round of the periodic repair.\<close>

definition hp_repairOnce :: "env \<Rightarrow> Backend \<Rightarrow> ('a hp_state_scheme, unit) proc" where
  "hp_repairOnce e backend =
     bindP (tryP (if be_Mode backend = NFTables then checkNFTRules e else insertBaseRules e backend)) (\<lambda>r.
     bindP (whenP (err_of r \<noteq> None) (report HostPorts (err_of r))) (\<lambda>_.
     bindP (tryP (hp_onChangeLocked e backend (err_of r \<noteq> None))) (\<lambda>r'.
     bindP (report HostPorts (err_of r')) (\<lambda>_. liftP r'))))"

text \<open>One iteration of the retry loop of \<open>onChangeNoError\<close>: reconcile and report.\<close>

definition hp_attempt :: "env \<Rightarrow> Backend \<Rightarrow> ('a hp_state_scheme, unit) proc" where
  "hp_attempt e backend =
     bindP (tryP (hp_onChangeLocked e backend False)) (\<lambda>r.
     bindP (report HostPorts (err_of r)) (\<lambda>_. liftP r))"

text \<open>What \<open>Watch\<close> sets up: the persisted bridges count as applied.\<close>

definition hp_Watch :: "env \<Rightarrow> Backend \<Rightarrow> ('a hp_state_scheme, unit) proc" where
  "hp_Watch e backend =
     bindP (wrapP (Wrapf ''load route_localnet ownership: %w'' []) (loadRouteLocalnetState e routeLocalnetStatePath)) (\<lambda>original.
     bindP (modifyP (\<lambda>s. s\<lparr>hp_original := original, hp_lastApplied := None,
         hp_applied := empty_rules\<lparr>rs_RouteLocalnetBridges := map (\<lambda>(b, _). (b, True)) original\<rparr>\<rparr>)) (\<lambda>_.
       if be_Mode backend \<noteq> NFTables
       then bindP (tryP (perform e (Run [''sysctl'', ''-w'', ''net.bridge.bridge-nf-call-iptables=1'']))) (\<lambda>_. retP ())
       else retP ()))"

end
