(* ===== verification/HostPortsOrder.thy ===== *)
theory HostPortsOrder
  imports HostPorts
begin

text \<open>
  The order of the watcher's actions on the host, as properties of the trace of every call: the
  127.0.0.0/8 guard of a bridge is live, and the ownership of its switch recorded, before
  \<open>route_localnet\<close> is turned on; the switch of a bridge that lost its guard is turned back first; what
  is applied was preflighted with the same text; a failure leaves the applied snapshot alone.
\<close>

section \<open>Base rules\<close>

lemma hist_try_perform:
  assumes "stable A" and "\<And>a r. A a \<Longrightarrow> K a (c, r)"
  shows "hoare (hist t K A) (tryP (perform e c)) (\<lambda>r. hist t K (\<lambda>u. A u \<and> (r = Inr () \<longrightarrow> (c, None) \<in> set u))) E"
proof (rule hoare_try)
  have st: "A u \<Longrightarrow> A (u @ v)" for u v using assms(1) unfolding stable_def by blast
  show "hoare (hist t K A) (perform e c) (\<lambda>x. hist t K (\<lambda>u. A u \<and> (Inr x = Inr () \<longrightarrow> (c, None) \<in> set u)))
     (\<lambda>er. hist t K (\<lambda>u. A u \<and> (Inl er = Inr () \<longrightarrow> (c, None) \<in> set u)))"
    by (rule hoare_conseq [OF hist_perform [where A' = "\<lambda>u. A u \<and> (c, None) \<in> set u" and E = "\<lambda>_. A"]])
      (use assms(2) st in \<open>auto elim: hist_weaken\<close>)
qed

definition hooked :: "string \<Rightarrow> string list \<Rightarrow> string list \<Rightarrow> event list \<Rightarrow> bool" where
  "hooked ipt check ins u \<longleftrightarrow> (Run (ipt # check), None) \<in> set u \<or> (Run (ipt # ins), None) \<in> set u"

lemma stable_hooked [stable_rules]: "stable (hooked ipt check ins)"
  unfolding hooked_def by (intro stable_rules)

lemma hook_step_hist:
  assumes st: "stable A" and K: "\<And>a x r. K a (Run x, r)"
  shows "hoare (hist t K A) (hook_step e ipt check ins errs)
    (\<lambda>errs'. hist t K (\<lambda>u. A u \<and> (errs' = [] \<longrightarrow> errs = [] \<and> hooked ipt check ins u))) (\<lambda>_. hist t K A)"
  unfolding hook_step_def
proof (rule hoare_bind, rule hist_try_perform, rule st, rule K)
  fix r :: "unit result"
  let ?R = "hist t K (\<lambda>u. A u \<and> (r = Inr () \<longrightarrow> (Run (ipt # check), None) \<in> set u))"
  let ?Q = "\<lambda>errs'. hist t K (\<lambda>u. A u \<and> (errs' = [] \<longrightarrow> errs = [] \<and> hooked ipt check ins u))"
  show "hoare ?R (case r of Inl x \<Rightarrow> bindP (tryP (perform e (Run (ipt # ins))))
            (\<lambda>r'. case r' of Inl er \<Rightarrow> retP (errs @ [er]) | Inr x \<Rightarrow> retP errs)
        | Inr x \<Rightarrow> retP errs) ?Q (\<lambda>_. hist t K A)"
  proof (cases r)
    case (Inr x)
    then show ?thesis by (auto intro!: hoare_ret elim!: hist_weaken simp: hooked_def)
  next
    case (Inl er)
    have "hoare ?R (tryP (perform e (Run (ipt # ins))))
        (\<lambda>r'. hist t K (\<lambda>u. A u \<and> (r' = Inr () \<longrightarrow> (Run (ipt # ins), None) \<in> set u))) (\<lambda>_. hist t K A)"
      by (rule hoare_conseq, rule hist_try_perform, rule st, rule K) (auto simp: Inl)
    moreover have "hoare (hist t K (\<lambda>u. A u \<and> (r' = Inr () \<longrightarrow> (Run (ipt # ins), None) \<in> set u)))
        (case r' of Inl er \<Rightarrow> retP (errs @ [er]) | Inr x \<Rightarrow> retP errs) ?Q (\<lambda>_. hist t K A)" for r' :: "unit result"
      by (cases r') (auto intro!: hoare_ret elim!: hist_weaken simp: hooked_def)
    ultimately show ?thesis by (simp add: Inl) (rule hoare_bind)
  qed
qed

text \<open>The five jumps \<open>insertBaseRules\<close> is responsible for.\<close>

definition raw_hook :: "Backend \<Rightarrow> event list \<Rightarrow> bool" where
  "raw_hook backend = hooked (be_Command backend) [''-w'', ''-t'', ''raw'', ''-C'', ''PREROUTING'', ''-j'', hostPortsRawChain]
     [''-w'', ''-t'', ''raw'', ''-I'', ''PREROUTING'', ''1'', ''-j'', hostPortsRawChain]"

definition nat_hooks :: "Backend \<Rightarrow> event list \<Rightarrow> bool" where
  "nat_hooks backend u \<longleftrightarrow>
     hooked (be_Command backend) ([''-w'', ''-t'', ''nat'', ''-C'', ''PREROUTING''] @ local_jump ''CATTLE_PREROUTING'')
       ([''-w'', ''-t'', ''nat'', ''-I'', ''PREROUTING''] @ local_jump ''CATTLE_PREROUTING'') u
     \<and> hooked (be_Command backend) ([''-w'', ''-t'', ''nat'', ''-C'', ''OUTPUT''] @ local_jump ''CATTLE_OUTPUT'')
       ([''-w'', ''-t'', ''nat'', ''-I'', ''OUTPUT''] @ local_jump ''CATTLE_OUTPUT'') u
     \<and> hooked (be_Command backend) [''-w'', ''-t'', ''nat'', ''-C'', ''POSTROUTING'', ''-j'', hostPortsPostRoutingChain]
       [''-w'', ''-t'', ''nat'', ''-I'', ''POSTROUTING'', ''-j'', hostPortsPostRoutingChain] u"

definition forward_hook :: "Backend \<Rightarrow> event list \<Rightarrow> bool" where
  "forward_hook backend u \<longleftrightarrow> (Output [be_Command backend, ''-w'', ''-S'', ''FORWARD''], None) \<in> set u
     \<or> (Run [be_Command backend, ''-w'', ''-I'', ''FORWARD'', ''1'', ''-j'', ''CATTLE_FORWARD''], None) \<in> set u"

lemma stable_base [stable_rules]: "stable (raw_hook backend)" "stable (nat_hooks backend)" "stable (forward_hook backend)"
  unfolding raw_hook_def nat_hooks_def forward_hook_def by (intro stable_rules)+

lemma forward_first_hist:
  assumes st: "stable A" and K: "\<And>a x r. K a (Run x, r)" "\<And>a x r. K a (Output x, r)"
  shows "hoare (hist t K A) (tryP (ensureForwardJumpFirst e (be_Command backend)))
    (\<lambda>r. hist t K (\<lambda>u. A u \<and> (r = Inr () \<longrightarrow> forward_hook backend u))) (\<lambda>_. hist t K A)"
proof (rule hoare_try)
  let ?c = "be_Command backend"
  have A: "A (u @ v)" if "A u" for u v using st that unfolding stable_def by blast
  have out: "hoare (hist t K A) (tryP (text_of e (Output [?c, ''-w'', ''-S'', ''FORWARD''])))
      (\<lambda>r. hist t K (\<lambda>u. A u \<and> (r \<noteq> Inl (projl r) \<longrightarrow> (Output [?c, ''-w'', ''-S'', ''FORWARD''], None) \<in> set u)))
      (\<lambda>_. hist t K A)"
    unfolding text_of_def
    by (rule hoare_try, rule hoare_ask) (use A K in \<open>fastforce simp: hist_def since_def\<close>)+
  have ins: "hoare (hist t K A) (perform e (Run [?c, ''-w'', ''-I'', ''FORWARD'', ''1'', ''-j'', ''CATTLE_FORWARD'']))
      (\<lambda>_. hist t K (\<lambda>u. A u \<and> forward_hook backend u)) (\<lambda>_. hist t K A)"
    by (rule hist_perform) (use A K in \<open>auto simp: forward_hook_def\<close>)
  show "hoare (hist t K A) (ensureForwardJumpFirst e ?c)
      (\<lambda>x. hist t K (\<lambda>u. A u \<and> (Inr x = Inr () \<longrightarrow> forward_hook backend u)))
      (\<lambda>er. hist t K (\<lambda>u. A u \<and> (Inl er = Inr () \<longrightarrow> forward_hook backend u)))"
    unfolding ensureForwardJumpFirst_def
    by (rule hoare_conseq [OF hoare_bind [OF out]], rule hoare_if)
      (auto intro!: hoare_ret hoare_conseq [OF ins] elim!: hist_weaken simp: forward_hook_def split: sum.splits)
qed

lemma hook_step_hist':
  assumes "stable A" and "\<And>a x r. K a (Run x, r)" and "stable B"
  shows "hoare (hist t K (\<lambda>u. A u \<and> (errs = [] \<longrightarrow> B u))) (hook_step e ipt check ins errs)
    (\<lambda>errs'. hist t K (\<lambda>u. A u \<and> (errs' = [] \<longrightarrow> B u \<and> hooked ipt check ins u))) (\<lambda>_. hist t K A)"
  by (rule hoare_conseq, rule hook_step_hist [where A = "\<lambda>u. A u \<and> (errs = [] \<longrightarrow> B u)"])
    (use assms in \<open>auto intro!: stable_rules elim!: hist_weaken\<close>)

lemma base_rules_hist:
  assumes st: "stable A" and K: "\<And>a x r. K a (Run x, r)" "\<And>a x r. K a (Output x, r)"
  shows "hoare (hist t K A) (insertBaseRules e backend)
    (\<lambda>_. hist t K (\<lambda>u. A u \<and> (be_Mode backend \<noteq> NFTables \<longrightarrow>
        raw_hook backend u \<and> nat_hooks backend u \<and> forward_hook backend u))) (\<lambda>_. hist t K A)"
proof (cases "be_Mode backend = NFTables \<or> be_Command backend = []")
  case True
  then show ?thesis
    unfolding insertBaseRules_def Let_def by (auto intro!: hoare_ret hoare_raise)
next
  case False
  let ?c = "be_Command backend"
  let ?h1 = "hooked ?c [''-w'', ''-t'', ''raw'', ''-C'', ''PREROUTING'', ''-j'', hostPortsRawChain]
     [''-w'', ''-t'', ''raw'', ''-I'', ''PREROUTING'', ''1'', ''-j'', hostPortsRawChain]"
  let ?h2 = "hooked ?c ([''-w'', ''-t'', ''nat'', ''-C'', ''PREROUTING''] @ local_jump ''CATTLE_PREROUTING'')
       ([''-w'', ''-t'', ''nat'', ''-I'', ''PREROUTING''] @ local_jump ''CATTLE_PREROUTING'')"
  let ?h4 = "hooked ?c ([''-w'', ''-t'', ''nat'', ''-C'', ''OUTPUT''] @ local_jump ''CATTLE_OUTPUT'')
       ([''-w'', ''-t'', ''nat'', ''-I'', ''OUTPUT''] @ local_jump ''CATTLE_OUTPUT'')"
  let ?B2 = "\<lambda>u. ?h1 u \<and> ?h2 u"
  let ?B3 = "\<lambda>u. ?B2 u \<and> forward_hook backend u"
  let ?B4 = "\<lambda>u. ?B3 u \<and> ?h4 u"
  have s1: "hoare (hist t K A) (hook_step e ?c [''-w'', ''-t'', ''raw'', ''-C'', ''PREROUTING'', ''-j'', hostPortsRawChain]
     [''-w'', ''-t'', ''raw'', ''-I'', ''PREROUTING'', ''1'', ''-j'', hostPortsRawChain] [])
     (\<lambda>errs. hist t K (\<lambda>u. A u \<and> (errs = [] \<longrightarrow> ?h1 u))) (\<lambda>_. hist t K A)"
    by (rule hoare_conseq, rule hook_step_hist, rule st, rule K) (auto elim!: hist_weaken)
  have fwd: "hoare (hist t K (\<lambda>u. A u \<and> (errs2 = [] \<longrightarrow> ?B2 u))) (tryP (ensureForwardJumpFirst e ?c))
      (\<lambda>r. hist t K (\<lambda>u. A u \<and> (errs2 @ (case r of Inl er \<Rightarrow> [er] | Inr _ \<Rightarrow> []) = [] \<longrightarrow> ?B3 u))) (\<lambda>_. hist t K A)" for errs2
    by (rule hoare_conseq, rule forward_first_hist [where A = "\<lambda>u. A u \<and> (errs2 = [] \<longrightarrow> ?B2 u)" and backend = backend])
      (use st K in \<open>auto intro!: stable_rules elim!: hist_weaken split: sum.splits\<close>)
  have fin: "hoare (hist t K (\<lambda>u. A u \<and> (errs = [] \<longrightarrow> ?B4 u \<and> hooked ?c [''-w'', ''-t'', ''nat'', ''-C'', ''POSTROUTING'', ''-j'', hostPortsPostRoutingChain]
       [''-w'', ''-t'', ''nat'', ''-I'', ''POSTROUTING'', ''-j'', hostPortsPostRoutingChain] u)))
     (if errs = [] then retP () else raiseP (Errorf ''failed to insert hostport base rules: %s'' [str_join ''; '' (map err_text errs)]))
     (\<lambda>_. hist t K (\<lambda>u. A u \<and> raw_hook backend u \<and> nat_hooks backend u \<and> forward_hook backend u)) (\<lambda>_. hist t K A)" for errs
    by (rule hoare_if) (auto intro!: hoare_ret hoare_raise elim!: hist_weaken simp: raw_hook_def nat_hooks_def)
  have "hoare (hist t K A) (insertBaseRules e backend)
    (\<lambda>_. hist t K (\<lambda>u. A u \<and> raw_hook backend u \<and> nat_hooks backend u \<and> forward_hook backend u)) (\<lambda>_. hist t K A)"
    unfolding insertBaseRules_def Let_def using False
    by (simp only: de_Morgan_disj if_False)
      (rule hoare_bind [OF s1], rule hoare_bind, rule hook_step_hist', rule st, rule K, rule stable_hooked,
       rule hoare_bind [OF fwd], rule hoare_bind, rule hook_step_hist', rule st, rule K, (rule stable_rules)+,
       rule hoare_bind, rule hook_step_hist', rule st, rule K, (rule stable_rules)+, rule fin)
  then show ?thesis using False by simp
qed

section \<open>Calls made by the parts\<close>

fun is_exec :: "call \<Rightarrow> bool" where
  "is_exec (Run _) = True"
| "is_exec (Output _) = True"
| "is_exec _ = False"

text \<open>File operations other than writing a switch.\<close>

fun file_call :: "call \<Rightarrow> bool" where
  "file_call (MkdirAll _) = True"
| "file_call (CreateTemp _) = True"
| "file_call (ChmodFile _ _) = True"
| "file_call (WriteTemp _ _) = True"
| "file_call (SyncFile _) = True"
| "file_call (CloseFile _) = True"
| "file_call (RenameFile _ _) = True"
| "file_call (RemoveFile _) = True"
| "file_call (ReadFile _) = True"
| "file_call _ = False"

lemma calls_insertBaseRules [calls_rules]: "calls_only is_exec (insertBaseRules e backend)"
  unfolding insertBaseRules_def hook_step_def ensureForwardJumpFirst_def text_of_def Let_def
  by (intro calls_rules) simp_all

lemma calls_or_close [calls_rules]: "calls_only file_call m \<Longrightarrow> calls_only file_call (or_close e name m)"
  unfolding or_close_def by (intro calls_rules) simp_all

lemma calls_save [calls_rules]: "calls_only file_call (saveRouteLocalnetState e path m)"
  unfolding saveRouteLocalnetState_def os_CreateTemp_def by (intro calls_rules) simp_all

lemma calls_next [calls_rules]: "calls_only file_call (next_original e orig b acc)"
  unfolding next_original_def readBridgeRouteLocalnet_def by (intro calls_rules) simp_all

definition rl_text :: "bool \<Rightarrow> string" where
  "rl_text b = (if b then ''1'' else ''0'') @ nl"

definition sets_switch :: "string \<Rightarrow> bool \<Rightarrow> call \<Rightarrow> bool" where
  "sets_switch b v c \<longleftrightarrow> c = WriteFile (rl_path b) (rl_text v)"

lemma calls_setBridge: "calls_only (sets_switch b v) (setBridgeRouteLocalnet e b v)"
  unfolding setBridgeRouteLocalnet_def by (intro calls_rules) (simp add: sets_switch_def rl_text_def)

section \<open>The watcher's own fields\<close>

definition own :: "'a hp_state_scheme \<Rightarrow> ruleSet \<times> int option \<times> bool gomap" where
  "own s = (hp_applied s, hp_lastApplied s, hp_original s)"

lemma own_more: "world.more s = world.more s' \<Longrightarrow> own s = own s'"
  by (cases s; cases s') (simp add: own_def)

text \<open>What only talks to the outside leaves the watcher's fields alone.\<close>

lemma hoare_own:
  assumes "hoare P m Q E" and "calls_only C m"
  shows "hoare (\<lambda>s. P s \<and> own s = w) m (\<lambda>x s. Q x s \<and> own s = w) (\<lambda>er s. E er s \<and> own s = w)"
proof -
  have "own s' = own s" if "m s = (r, s')" for s r s'
    using calls_onlyD [OF assms(2) that] own_more by blast
  then show ?thesis using assms(1) unfolding hoare_def by (fastforce split: prod.splits sum.splits)
qed

section \<open>Restoring\<close>

lemma hist_for:
  assumes "\<And>x A'. x \<in> set xs \<Longrightarrow> stable A' \<Longrightarrow> (\<And>u. A' u \<Longrightarrow> A u) \<Longrightarrow>
      hoare (hist t K A') (f x) (\<lambda>_. hist t K (\<lambda>u. A' u \<and> B x u)) (\<lambda>_. hist t K A')"
    and "stable A" and "\<And>x. stable (B x)"
  shows "hoare (hist t K A) (forP f xs) (\<lambda>_. hist t K (\<lambda>u. A u \<and> (\<forall>x \<in> set xs. B x u))) (\<lambda>_. hist t K A)"
  using assms
proof (induction xs arbitrary: A)
  case Nil
  then show ?case by (auto intro!: hoare_ret elim!: hist_weaken)
next
  case (Cons x xs)
  let ?A' = "\<lambda>u. A u \<and> B x u"
  have st: "stable ?A'" using Cons.prems(2,3) by (intro stable_rules)
  have "hoare (hist t K ?A') (forP f xs) (\<lambda>_. hist t K (\<lambda>u. ?A' u \<and> (\<forall>x \<in> set xs. B x u))) (\<lambda>_. hist t K ?A')"
    by (rule Cons.IH [OF _ st Cons.prems(3)]) (use Cons.prems(1) in auto)
  then have rest: "hoare (hist t K ?A') (forP f xs) (\<lambda>_. hist t K (\<lambda>u. A u \<and> (\<forall>x \<in> set (x # xs). B x u))) (\<lambda>_. hist t K A)"
    by (rule hoare_conseq) (auto elim!: hist_weaken)
  have "hoare (hist t K A) (f x) (\<lambda>_. hist t K ?A') (\<lambda>_. hist t K A)"
    using Cons.prems(1) [of x A] Cons.prems(2) by simp
  then show ?case by (simp only: forP.simps) (rule hoare_bind [OF _ rest])
qed

text \<open>The switch of \<open>b\<close> was written back to \<open>v\<close>; one that is gone counts as off.\<close>

definition switched_back :: "string \<Rightarrow> bool \<Rightarrow> event list \<Rightarrow> bool" where
  "switched_back b v u \<longleftrightarrow> (\<exists>r. (WriteFile (rl_path b) (rl_text v), r) \<in> set u
     \<and> (r = None \<or> \<not> v \<and> (\<exists>p. r = Some (NotExist p))))"

lemma stable_switched [stable_rules]: "stable (switched_back b v)"
  unfolding switched_back_def by (intro stable_rules)

lemma set_switch_hist:
  assumes st: "stable A" and K: "\<And>a r. A a \<Longrightarrow> K a (WriteFile (rl_path b) (rl_text v), r)"
  shows "hoare (hist t K A) (setBridgeRouteLocalnet e b v) (\<lambda>_. hist t K (\<lambda>u. A u \<and> switched_back b v u)) (\<lambda>_. hist t K A)"
proof -
  have A: "A (u @ w)" if "A u" for u w using st that unfolding stable_def by blast
  let ?c = "WriteFile (rl_path b) (rl_text v)"
  have w: "hoare (hist t K A) (tryP (perform e ?c))
      (\<lambda>r. hist t K (\<lambda>u. A u \<and> (?c, err_of r) \<in> set u)) (\<lambda>_. hist t K A)"
    by (rule hoare_try, rule hoare_perform) (use A K in \<open>fastforce simp: hist_def since_def err_of_def\<close>)+
  have "hoare (hist t K A) (bindP (tryP (perform e ?c)) (\<lambda>r. case r of Inr _ \<Rightarrow> retP ()
       | Inl er \<Rightarrow> if \<not> v \<and> os_is_not_exist er then retP () else raiseP er))
     (\<lambda>_. hist t K (\<lambda>u. A u \<and> switched_back b v u)) (\<lambda>_. hist t K A)"
  proof (rule hoare_bind [OF w])
    fix r :: "unit result"
    have ne: "\<exists>p. er = NotExist p" if "os_is_not_exist er" for er using that by (cases er) auto
    show "hoare (hist t K (\<lambda>u. A u \<and> (?c, err_of r) \<in> set u)) (case r of Inr _ \<Rightarrow> retP ()
       | Inl er \<Rightarrow> if \<not> v \<and> os_is_not_exist er then retP () else raiseP er)
       (\<lambda>_. hist t K (\<lambda>u. A u \<and> switched_back b v u)) (\<lambda>_. hist t K A)"
    proof (cases r)
      case (Inl er)
      then show ?thesis using ne [of er]
        by (auto simp: err_of_def switched_back_def intro!: hoare_ret hoare_raise elim!: hist_weaken)
    qed (auto simp: err_of_def switched_back_def intro!: hoare_ret elim!: hist_weaken)
  qed
  moreover have "hoare (hist t K A) (liftP (validateBridgeName b)) (\<lambda>_. hist t K A) (\<lambda>_. hist t K A)"
    by (rule hoare_lift) simp_all
  ultimately show ?thesis
    unfolding setBridgeRouteLocalnet_def rl_text_def [symmetric] by - (rule hoare_bind)
qed

lemma restore_hist:
  assumes st: "stable A"
    and K: "\<And>a b r. A a \<Longrightarrow> b \<in> set (removed_bridges orig rules) \<Longrightarrow> K a (WriteFile (rl_path b) (rl_text (mget False orig b)), r)"
  shows "hoare (\<lambda>s. hist t K A s \<and> own s = (ap, la, orig)) (restoreRemovedRouteLocalnet e rules)
    (\<lambda>_ s. hist t K (\<lambda>u. A u \<and> (\<forall>b \<in> set (removed_bridges orig rules). switched_back b (mget False orig b) u)) s
        \<and> own s = (ap, la, orig))
    (\<lambda>_ s. hist t K A s \<and> own s = (ap, la, orig))"
proof -
  let ?loop = "forP (\<lambda>bridge. wrapP (Wrapf ''restore route_localnet on bridge %s: %w'' [bridge])
      (setBridgeRouteLocalnet e bridge (mget False orig bridge))) (removed_bridges orig rules)"
  have "hoare (hist t K A) ?loop (\<lambda>_. hist t K (\<lambda>u. A u \<and> (\<forall>b \<in> set (removed_bridges orig rules). switched_back b (mget False orig b) u)))
      (\<lambda>_. hist t K A)"
    by (rule hist_for, rule hoare_wrap, rule set_switch_hist) (use st K in \<open>auto intro: stable_rules\<close>)
  moreover have "calls_only (\<lambda>c. \<exists>b v. sets_switch b v c) ?loop"
    by (intro calls_rules) (rule calls_mono [OF calls_setBridge], blast)
  ultimately have loop: "hoare (\<lambda>s. hist t K A s \<and> own s = (ap, la, orig)) ?loop
      (\<lambda>_ s. hist t K (\<lambda>u. A u \<and> (\<forall>b \<in> set (removed_bridges orig rules). switched_back b (mget False orig b) u)) s
          \<and> own s = (ap, la, orig)) (\<lambda>_ s. hist t K A s \<and> own s = (ap, la, orig))"
    by (rule hoare_own)
  show ?thesis unfolding restoreRemovedRouteLocalnet_def
    by (rule hoare_bind [where R = "\<lambda>o' s. (hist t K A s \<and> own s = (ap, la, orig)) \<and> o' = orig"])
      (auto intro!: hoare_get simp: own_def, use loop in \<open>auto simp: hoare_def own_def\<close>)
qed

section \<open>Activating\<close>

text \<open>The ownership file was replaced.\<close>

definition recorded :: "event list \<Rightarrow> bool" where
  "recorded u \<longleftrightarrow> (\<exists>tmp. (RenameFile tmp routeLocalnetStatePath, None) \<in> set u)"

lemma stable_recorded [stable_rules]: "stable recorded"
  unfolding recorded_def by (intro stable_rules)

lemma save_hist:
  assumes st: "stable A" and K: "\<And>a c r. A a \<Longrightarrow> file_call c \<Longrightarrow> K a (c, r)"
  shows "hoare (hist t K A) (saveRouteLocalnetState e routeLocalnetStatePath m)
    (\<lambda>_. hist t K (\<lambda>u. A u \<and> recorded u)) (\<lambda>_. hist t K A)"
proof -
  have A: "A (u @ w)" if "A u" for u w using st that unfolding stable_def by blast
  have calls: "hoare (hist t K A) p (\<lambda>_. hist t K A) (\<lambda>_. hist t K A)"
    if "calls_only file_call p" for p :: "('b world_scheme, 'c) proc"
    by (rule hist_calls [where C = file_call, OF that st]) (rule K)
  let ?steps = "\<lambda>name. bindP (or_close e name (perform e (ChmodFile name 384))) (\<lambda>_.
             bindP (or_close e name (perform e (WriteTemp name (marshal_state m)))) (\<lambda>_.
             bindP (or_close e name (perform e (SyncFile name))) (\<lambda>_.
             bindP (perform e (CloseFile name)) (\<lambda>_.
               perform e (RenameFile name routeLocalnetStatePath)))))"
  have ren: "hoare (hist t K A) (perform e (RenameFile name routeLocalnetStatePath))
      (\<lambda>_. hist t K (\<lambda>u. A u \<and> recorded u)) (\<lambda>_. hist t K A)" for name
    by (rule hist_perform) (use A K in \<open>auto simp: recorded_def\<close>)
  have steps: "hoare (hist t K A) (?steps name) (\<lambda>_. hist t K (\<lambda>u. A u \<and> recorded u)) (\<lambda>_. hist t K A)" for name
    by (rule hoare_bind [where R = "\<lambda>_. hist t K A"], rule calls, intro calls_rules, simp)+ (rule ren)
  have fin: "hoare (hist t K A) (finallyP (?steps name) (perform e (RemoveFile name)))
      (\<lambda>_. hist t K (\<lambda>u. A u \<and> recorded u)) (\<lambda>_. hist t K A)" for name
  proof (rule hoare_finally [OF steps])
    show "hoare (hist t K (\<lambda>u. A u \<and> recorded u)) (perform e (RemoveFile name))
        (\<lambda>_. hist t K (\<lambda>u. A u \<and> recorded u)) (\<lambda>_. hist t K (\<lambda>u. A u \<and> recorded u))"
      by (rule hist_calls [where C = file_call]) (use K st in \<open>auto intro: calls_rules stable_rules\<close>)
    show "hoare (hist t K A) (perform e (RemoveFile name)) (\<lambda>_. hist t K A) (\<lambda>_. hist t K A)"
      by (rule calls) (simp add: calls_perform)
  qed
  have ne: "routeLocalnetStatePath \<noteq> []" by (simp add: routeLocalnetStatePath_def)
  show ?thesis unfolding saveRouteLocalnetState_def if_not_P [OF ne]
    by (rule hoare_bind [OF calls hoare_bind [OF calls fin]])
      (auto intro!: calls_rules simp: os_CreateTemp_def)
qed

lemma enable_hist:
  assumes st: "stable A" and K: "\<And>a b r. A a \<Longrightarrow> b \<in> set bs \<Longrightarrow> K a (WriteFile (rl_path b) (rl_text True), r)"
  shows "hoare (hist t K A) (forP (\<lambda>bridge. wrapP (Wrapf f [bridge]) (setBridgeRouteLocalnet e bridge True)) bs)
    (\<lambda>_. hist t K (\<lambda>u. A u \<and> (\<forall>b \<in> set bs. (WriteFile (rl_path b) (rl_text True), None) \<in> set u))) (\<lambda>_. hist t K A)"
proof -
  have "hoare (hist t K A) (forP (\<lambda>bridge. wrapP (Wrapf f [bridge]) (setBridgeRouteLocalnet e bridge True)) bs)
    (\<lambda>_. hist t K (\<lambda>u. A u \<and> (\<forall>b \<in> set bs. switched_back b True u))) (\<lambda>_. hist t K A)"
    by (rule hist_for, rule hoare_wrap, rule set_switch_hist) (use st K in \<open>auto intro: stable_rules\<close>)
  then show ?thesis
    by (rule hoare_conseq) (auto elim!: hist_weaken simp: switched_back_def)
qed

lemma activate_hist:
  assumes st: "stable A" and K: "\<And>a c r. A a \<Longrightarrow> file_call c \<Longrightarrow> K a (c, r)"
    and W: "\<And>a b r. A a \<Longrightarrow> recorded a \<Longrightarrow> b \<in> set (sortedEnabledBridges (rs_RouteLocalnetBridges rules)) \<Longrightarrow>
      K a (WriteFile (rl_path b) (rl_text True), r)"
  shows "hoare (\<lambda>s. hist t K A s \<and> (hp_applied s, hp_lastApplied s) = w) (activateRouteLocalnet e rules)
    (\<lambda>_ s. hist t K (\<lambda>u. A u \<and> recorded u \<and> (\<forall>b \<in> set (sortedEnabledBridges (rs_RouteLocalnetBridges rules)).
        (WriteFile (rl_path b) (rl_text True), None) \<in> set u)) s \<and> (hp_applied s, hp_lastApplied s) = w)
    (\<lambda>_ s. hist t K A s \<and> (hp_applied s, hp_lastApplied s) = w)"
proof -
  let ?bs = "sortedEnabledBridges (rs_RouteLocalnetBridges rules)"
  let ?w = "\<lambda>s. (hp_applied s, hp_lastApplied s) = w"
  have keep: "hoare (\<lambda>s. P s \<and> ?w s) m (\<lambda>x s. Q x s \<and> ?w s) (\<lambda>er s. E er s \<and> ?w s)"
    if "hoare P m Q E" "calls_only C m" for P Q E C and m :: "('a hp_state_scheme, 'c) proc"
  proof -
    have "own s' = own s" if "m s = (r, s')" for s r s'
      using calls_onlyD [OF \<open>calls_only C m\<close> that] own_more by blast
    then show ?thesis using that(1) unfolding hoare_def own_def by (fastforce split: prod.splits sum.splits)
  qed
  have cr: "calls_only file_call (foldP (next_original e orig) ?bs [] :: ('a hp_state_scheme, bool gomap) proc)" for orig
    by (intro calls_rules)
  have hr: "hoare (hist t K A) (foldP (next_original e orig) ?bs [] :: ('a hp_state_scheme, bool gomap) proc)
      (\<lambda>_. hist t K A) (\<lambda>_. hist t K A)" for orig
    by (rule hist_calls [where C = file_call, OF cr st]) (rule K)
  note reads = keep [OF hr cr]
  have cs: "calls_only file_call (wrapP (Wrapf ''persist route_localnet ownership: %w'' [])
      (saveRouteLocalnetState e routeLocalnetStatePath nx) :: ('a hp_state_scheme, unit) proc)" for nx
    by (intro calls_rules)
  have hs: "hoare (hist t K A) (wrapP (Wrapf ''persist route_localnet ownership: %w'' [])
      (saveRouteLocalnetState e routeLocalnetStatePath nx) :: ('a hp_state_scheme, unit) proc)
      (\<lambda>_. hist t K (\<lambda>u. A u \<and> recorded u)) (\<lambda>_. hist t K A)" for nx
    by (rule hoare_wrap, rule save_hist [OF st]) (rule K)
  note save = keep [OF hs cs]
  have set_orig: "hoare (\<lambda>s. hist t K (\<lambda>u. A u \<and> recorded u) s \<and> ?w s) (modifyP (\<lambda>s. s\<lparr>hp_original := nx\<rparr>))
      (\<lambda>_ s. hist t K (\<lambda>u. A u \<and> recorded u) s \<and> ?w s) (\<lambda>_ s. hist t K A s \<and> ?w s)" for nx
    by (rule hoare_modify) (simp add: hist_def since_def)
  let ?on = "forP (\<lambda>bridge. wrapP (Wrapf ''enable guarded route_localnet on bridge %s: %w'' [bridge])
      (setBridgeRouteLocalnet e bridge True)) ?bs :: ('a hp_state_scheme, unit) proc"
  have ce: "calls_only (\<lambda>c. \<exists>b v. sets_switch b v c) ?on"
    by (intro calls_rules) (rule calls_mono [OF calls_setBridge], blast)
  have he: "hoare (hist t K (\<lambda>u. A u \<and> recorded u)) ?on
      (\<lambda>_. hist t K (\<lambda>u. (A u \<and> recorded u) \<and> (\<forall>b \<in> set ?bs. (WriteFile (rl_path b) (rl_text True), None) \<in> set u)))
      (\<lambda>_. hist t K (\<lambda>u. A u \<and> recorded u))"
    by (rule enable_hist) (use st W in \<open>auto intro!: stable_rules\<close>)
  note enable = keep [OF he ce]
  show ?thesis
    unfolding activateRouteLocalnet_def Let_def
    by (rule hoare_bind [where R = "\<lambda>_ s. hist t K A s \<and> ?w s"], rule hoare_get, assumption,
        rule hoare_bind [OF reads], rule hoare_bind [OF save], rule hoare_bind [OF set_orig],
        rule hoare_conseq [OF enable]) (auto elim!: hist_weaken)
qed

section \<open>The order of an update\<close>

text \<open>The guard of \<open>b\<close> is live: a rule text with it was applied and, with xtables, its chain is hooked.\<close>

definition guard_live :: "Backend \<Rightarrow> string \<Rightarrow> event list \<Rightarrow> bool" where
  "guard_live backend b u \<longleftrightarrow>
     (if be_Mode backend = NFTables
      then \<exists>d. (Pipe ''nft'' [''-f'', ''-''] d, None) \<in> set u \<and> nft_guard b \<in> set (str_lines d)
      else (\<exists>d. (Pipe (be_Restore backend) [''-n''] d, None) \<in> set u \<and> raw_guard b \<in> set (str_lines d))
        \<and> raw_hook backend u)"

lemma stable_guard [stable_rules]: "stable (guard_live backend b)"
  unfolding guard_live_def by (intro stable_rules)

definition test_args :: "string list \<Rightarrow> string list" where
  "test_args args = (if args = [''-n''] then [''--test'', ''-n''] else ''-c'' # args)"

text \<open>
  What must precede an action: applying a text needs a successful test of the same text with the
  same command and the return of every switch whose guard goes away; turning a switch on needs its
  live guard and the recorded ownership; otherwise a switch is only ever returned to its recorded
  value.
\<close>

fun order_ok :: "Backend \<Rightarrow> ruleSet \<Rightarrow> bool gomap \<Rightarrow> event list \<Rightarrow> event \<Rightarrow> bool" where
  "order_ok backend rules original a (Pipe cmd args d, r) \<longleftrightarrow>
     (args = [''-f'', ''-''] \<or> args = [''-n''] \<longrightarrow>
        (Pipe cmd (test_args args) d, None) \<in> set a
        \<and> (\<forall>b \<in> set (removed_bridges original rules). switched_back b (mget False original b) a))"
| "order_ok backend rules original a (WriteFile p d, r) \<longleftrightarrow>
     (\<exists>b. p = rl_path b \<and>
        (b \<in> set (sortedEnabledBridges (rs_RouteLocalnetBridges rules)) \<and> d = rl_text True
           \<and> guard_live backend b a \<and> recorded a
         \<or> b \<in> set (removed_bridges original rules) \<and> d = rl_text (mget False original b)))"
| "order_ok backend rules original a _ \<longleftrightarrow> True"

lemma order_ok_file: "file_call c \<Longrightarrow> order_ok backend rules original a (c, r)"
  by (cases c) auto

lemma order_ok_exec: "order_ok backend rules original a (Run x, r)" "order_ok backend rules original a (Output x, r)"
  by simp_all

lemma applied_now_hist:
  "hoare (\<lambda>s. hist t (order_ok backend rules original) A s \<and> (hp_applied s, hp_lastApplied s) = w) (applied_now e new)
     (\<lambda>_ s. hist t (order_ok backend rules original) (\<lambda>_. True) s \<and> hp_applied s = new \<and> hp_lastApplied s \<noteq> None) (\<lambda>_ _. False)"
  unfolding applied_now_def
  by (intro hoare_bind [where R = "\<lambda>_ s. hist t (order_ok backend rules original) (\<lambda>_. True) s"] hoare_now hoare_modify)
    (auto simp: hist_def since_def)

text \<open>One external call, the watcher's fields unchanged.\<close>

lemma step_own:
  assumes "\<And>a r. A a \<Longrightarrow> K a (c, r)" and "stable A"
  shows "hoare (\<lambda>s. hist t K A s \<and> own s = w) (wrapP g (perform e c))
    (\<lambda>_ s. hist t K (\<lambda>u. A u \<and> (c, None) \<in> set u) s \<and> own s = w) (\<lambda>_ s. hist t K A s \<and> own s = w)"
proof (rule hoare_own)
  show "calls_only (\<lambda>d. d = c) (wrapP g (perform e c))" by (intro calls_rules) simp
  show "hoare (hist t K A) (wrapP g (perform e c)) (\<lambda>_. hist t K (\<lambda>u. A u \<and> (c, None) \<in> set u)) (\<lambda>_. hist t K A)"
    by (rule hoare_wrap, rule hist_perform) (use assms in \<open>auto simp: stable_def\<close>)
qed

text \<open>How an update ends.\<close>

definition up_failed ::
    "event list \<Rightarrow> (event list \<Rightarrow> event \<Rightarrow> bool) \<Rightarrow> ruleSet \<Rightarrow> int option \<Rightarrow> 'a hp_state_scheme \<Rightarrow> bool" where
  "up_failed t K ap la s \<longleftrightarrow> hist t K (\<lambda>_. True) s \<and> hp_applied s = ap \<and> hp_lastApplied s = la"

definition up_done ::
    "event list \<Rightarrow> (event list \<Rightarrow> event \<Rightarrow> bool) \<Rightarrow> ruleSet \<Rightarrow> 'a hp_state_scheme \<Rightarrow> bool" where
  "up_done t K rules s \<longleftrightarrow> hist t K (\<lambda>u. recorded u
       \<and> (\<forall>b \<in> set (sortedEnabledBridges (rs_RouteLocalnetBridges rules)). (WriteFile (rl_path b) (rl_text True), None) \<in> set u)) s
     \<and> hp_applied s = rules \<and> hp_lastApplied s \<noteq> None"

lemma fields_failed: "hist t K A s \<and> own s = (ap, la, orig) \<Longrightarrow> up_failed t K ap la s"
  "hist t K A s \<and> (hp_applied s, hp_lastApplied s) = (ap, la) \<Longrightarrow> up_failed t K ap la s"
  by (auto simp: up_failed_def own_def elim: hist_weaken)

lemma finish_update:
  assumes st: "stable A"
    and g: "\<And>u b. A u \<Longrightarrow> b \<in> set (sortedEnabledBridges (rs_RouteLocalnetBridges rules)) \<Longrightarrow> guard_live backend b u"
  shows "hoare (\<lambda>s. hist t (order_ok backend rules orig) A s \<and> own s = (ap, la, orig))
    (bindP (activateRouteLocalnet e rules) (\<lambda>_. applied_now e rules))
    (\<lambda>_. up_done t (order_ok backend rules orig) rules) (\<lambda>_. up_failed t (order_ok backend rules orig) ap la)"
proof -
  let ?K = "order_ok backend rules orig"
  let ?bs = "sortedEnabledBridges (rs_RouteLocalnetBridges rules)"
  let ?R = "\<lambda>u. recorded u \<and> (\<forall>b \<in> set ?bs. (WriteFile (rl_path b) (rl_text True), None) \<in> set u)"
  have act: "hoare (\<lambda>s. hist t ?K A s \<and> own s = (ap, la, orig)) (activateRouteLocalnet e rules)
      (\<lambda>_. hist t ?K ?R) (\<lambda>_. up_failed t ?K ap la)"
    by (rule hoare_conseq [OF activate_hist [where A = A and K = ?K and w = "(ap, la)"]])
      (use st g in \<open>auto simp: order_ok_file own_def intro: fields_failed(2) elim!: hist_weaken\<close>)
  have fin: "hoare (hist t ?K ?R) (applied_now e rules) (\<lambda>_. up_done t ?K rules) (\<lambda>_. up_failed t ?K ap la)"
    unfolding applied_now_def
    by (intro hoare_bind [where R = "\<lambda>_. hist t ?K ?R"] hoare_now hoare_modify)
      (auto simp: hist_def since_def up_done_def recorded_def)
  show ?thesis by (rule hoare_bind [OF act fin])
qed

text \<open>Test, return the switches, apply.\<close>

lemma test_and_apply:
  assumes args: "args = [''-f'', ''-''] \<or> args = [''-n'']" and st: "stable A"
    and next': "hoare (\<lambda>s. hist t (order_ok backend rules orig) (\<lambda>u. A u \<and> (Pipe cmd args d, None) \<in> set u) s \<and> own s = (ap, la, orig))
      rest (\<lambda>_. up_done t (order_ok backend rules orig) rules) (\<lambda>_. up_failed t (order_ok backend rules orig) ap la)"
  shows "hoare (\<lambda>s. hist t (order_ok backend rules orig) A s \<and> own s = (ap, la, orig))
    (bindP (wrapP g (perform e (Pipe cmd (test_args args) d))) (\<lambda>_.
     bindP (restoreRemovedRouteLocalnet e rules) (\<lambda>_.
     bindP (wrapP h (perform e (Pipe cmd args d))) (\<lambda>_. rest))))
    (\<lambda>_. up_done t (order_ok backend rules orig) rules) (\<lambda>_. up_failed t (order_ok backend rules orig) ap la)"
proof -
  let ?K = "order_ok backend rules orig" and ?w = "(ap, la, orig)"
  let ?A1 = "\<lambda>u. A u \<and> (Pipe cmd (test_args args) d, None) \<in> set u"
  let ?A2 = "\<lambda>u. ?A1 u \<and> (\<forall>b \<in> set (removed_bridges orig rules). switched_back b (mget False orig b) u)"
  have st1: "stable ?A1" and st2: "stable ?A2" by (intro stable_rules st)+
  have nt: "\<not> (test_args args = [''-f'', ''-''] \<or> test_args args = [''-n''])"
    using args by (auto simp: test_args_def)
  have s1: "hoare (\<lambda>s. hist t ?K A s \<and> own s = ?w) (wrapP g (perform e (Pipe cmd (test_args args) d)))
      (\<lambda>_ s. hist t ?K ?A1 s \<and> own s = ?w) (\<lambda>_. up_failed t ?K ap la)"
    by (rule hoare_conseq [OF step_own]) (use st nt in \<open>auto intro: fields_failed(1)\<close>)
  have s2: "hoare (\<lambda>s. hist t ?K ?A1 s \<and> own s = ?w) (restoreRemovedRouteLocalnet e rules)
      (\<lambda>_ s. hist t ?K ?A2 s \<and> own s = ?w) (\<lambda>_. up_failed t ?K ap la)"
    by (rule hoare_conseq [OF restore_hist [OF st1]]) (auto intro: fields_failed(1))
  have s3: "hoare (\<lambda>s. hist t ?K ?A2 s \<and> own s = ?w) (wrapP h (perform e (Pipe cmd args d)))
      (\<lambda>_ s. hist t ?K (\<lambda>u. A u \<and> (Pipe cmd args d, None) \<in> set u) s \<and> own s = ?w) (\<lambda>_. up_failed t ?K ap la)"
    by (rule hoare_conseq [OF step_own [where K = ?K, OF _ st2]]) (use args in \<open>auto intro: fields_failed(1) elim!: hist_weaken\<close>)
  show ?thesis by (rule hoare_bind [OF s1], rule hoare_bind [OF s2], rule hoare_bind [OF s3 next'])
qed

lemma stable_True: "stable (\<lambda>_. True)"
  by (rule stable_const)

lemma apply_xt_hist:
  assumes v: "validateRuleSet rules = Inr ()" and m: "be_Mode backend \<noteq> NFTables"
  shows "hoare (\<lambda>s. hist t (order_ok backend rules orig) (\<lambda>_. True) s \<and> own s = (ap, la, orig)) (apply_xt e backend rules)
    (\<lambda>_. up_done t (order_ok backend rules orig) rules) (\<lambda>_. up_failed t (order_ok backend rules orig) ap la)"
proof (cases "be_Restore backend = []")
  case True
  then show ?thesis unfolding apply_xt_def by (auto intro!: hoare_raise fields_failed(1))
next
  case False
  let ?K = "order_ok backend rules orig"
  let ?A = "\<lambda>u. True \<and> (Pipe (be_Restore backend) [''-n''] (apply_text rules), None) \<in> set u"
  have stA: "stable ?A" by (intro stable_rules)
  have guard: "guard_live backend b u"
    if "?A u \<and> (be_Mode backend \<noteq> NFTables \<longrightarrow> raw_hook backend u \<and> nat_hooks backend u \<and> forward_hook backend u)"
      "b \<in> set (sortedEnabledBridges (rs_RouteLocalnetBridges rules))" for b u
    using that m raw_guard_in_text [OF v that(2)] by (auto simp: guard_live_def)
  have base: "hoare (\<lambda>s. hist t ?K ?A s \<and> own s = (ap, la, orig))
      (wrapP (Wrapf ''apply port base iptables rules: %w'' []) (insertBaseRules e backend))
      (\<lambda>_ s. hist t ?K (\<lambda>u. ?A u \<and> (be_Mode backend \<noteq> NFTables \<longrightarrow>
         raw_hook backend u \<and> nat_hooks backend u \<and> forward_hook backend u)) s \<and> own s = (ap, la, orig))
      (\<lambda>_. up_failed t ?K ap la)"
    by (rule hoare_wrap, rule hoare_conseq [OF hoare_own [OF base_rules_hist [OF stA] calls_insertBaseRules]])
      (auto intro: fields_failed(1))
  have rest: "hoare (\<lambda>s. hist t ?K ?A s \<and> own s = (ap, la, orig))
      (bindP (wrapP (Wrapf ''apply port base iptables rules: %w'' []) (insertBaseRules e backend)) (\<lambda>_.
       bindP (activateRouteLocalnet e rules) (\<lambda>_. applied_now e rules)))
      (\<lambda>_. up_done t ?K rules) (\<lambda>_. up_failed t ?K ap la)"
    by (rule hoare_bind [OF base], rule finish_update) (intro stable_rules, rule guard)
  have "test_args [''-n''] = [''--test'', ''-n'']" by (simp add: test_args_def)
  then show ?thesis
    using test_and_apply [OF _ stable_True rest, where g = "Wrapf ''validate hostport rules: %w'' []" and h = "Wrapf ''apply hostport rules: %w'' []"]
    by (simp add: apply_xt_def False)
qed

lemma exec_text_hist:
  fixes e :: env
  assumes "is_exec c"
  shows "hoare (\<lambda>s. hist t (order_ok backend rules orig) (\<lambda>_. True) s \<and> own s = (ap, la, orig))
    (wrapP h (text_of e c))
    (\<lambda>_ s. hist t (order_ok backend rules orig) (\<lambda>_. True) s \<and> own s = (ap, la, orig))
    (\<lambda>_. up_failed t (order_ok backend rules orig) ap la)"
proof -
  let ?K = "order_ok backend rules orig"
  have c: "calls_only is_exec (text_of e c)" using assms by (intro calls_rules) 
  have h: "hoare (hist t ?K (\<lambda>_. True)) (text_of e c) (\<lambda>_. hist t ?K (\<lambda>_. True)) (\<lambda>_. hist t ?K (\<lambda>_. True))"
    by (rule hist_calls [where C = is_exec, OF c stable_True]) (auto elim!: is_exec.elims)
  show ?thesis
    by (rule hoare_wrap, rule hoare_conseq [OF hoare_own [OF h c]]) (auto intro: fields_failed(1))
qed

lemma applyNFT_hist:
  assumes v: "validateRuleSet rules = Inr ()" and m: "be_Mode backend = NFTables"
  shows "hoare (\<lambda>s. hist t (order_ok backend rules orig) (\<lambda>_. True) s \<and> own s = (ap, la, orig)) (applyNFT e rules)
    (\<lambda>_. up_done t (order_ok backend rules orig) rules) (\<lambda>_. up_failed t (order_ok backend rules orig) ap la)"
proof -
  let ?K = "order_ok backend rules orig"
  have list: "hoare (\<lambda>s. hist t ?K (\<lambda>_. True) s \<and> own s = (ap, la, orig))
      (wrapP (Wrapf ''inspect nft tables before hostport update: %w'' []) (text_of e (Output [''nft'', ''list'', ''tables''])))
      (\<lambda>_ s. hist t ?K (\<lambda>_. True) s \<and> own s = (ap, la, orig)) (\<lambda>_. up_failed t ?K ap la)"
    by (rule exec_text_hist) simp
  have rest: "hoare (\<lambda>s. hist t ?K (\<lambda>u. True \<and> (Pipe ''nft'' [''-f'', ''-''] (nftHostportBatch rules ex), None) \<in> set u) s
        \<and> own s = (ap, la, orig))
      (bindP (activateRouteLocalnet e rules) (\<lambda>_. applied_now e rules))
      (\<lambda>_. up_done t ?K rules) (\<lambda>_. up_failed t ?K ap la)" for ex
    by (rule finish_update) (use m nft_guard_in_batch [OF v] in \<open>auto intro!: stable_rules simp: guard_live_def\<close>)
  have "test_args [''-f'', ''-''] = [''-c'', ''-f'', ''-'']" by (simp add: test_args_def)
  then have tail: "hoare (\<lambda>s. hist t ?K (\<lambda>_. True) s \<and> own s = (ap, la, orig))
     (bindP (wrapP (Wrapf ''validate native nft hostport batch: %w'' [])
              (perform e (Pipe ''nft'' [''-c'', ''-f'', ''-''] (nftHostportBatch rules ex)))) (\<lambda>_.
      bindP (restoreRemovedRouteLocalnet e rules) (\<lambda>_.
      bindP (wrapP (Wrapf ''apply native nft hostport batch: %w'' [])
              (perform e (Pipe ''nft'' [''-f'', ''-''] (nftHostportBatch rules ex)))) (\<lambda>_.
      bindP (activateRouteLocalnet e rules) (\<lambda>_. applied_now e rules)))))
     (\<lambda>_. up_done t ?K rules) (\<lambda>_. up_failed t ?K ap la)" for ex
    using test_and_apply [OF _ stable_True rest [of ex], where g = "Wrapf ''validate native nft hostport batch: %w'' []"
        and h = "Wrapf ''apply native nft hostport batch: %w'' []"]
    by simp
  show ?thesis unfolding applyNFT_def Let_def by (rule hoare_bind [OF list tail])
qed

lemma hp_apply_hist:
  "hoare (\<lambda>s. hist t (order_ok backend rules orig) (\<lambda>_. True) s \<and> own s = (ap, la, orig)) (hp_apply e backend rules)
    (\<lambda>_ s. validateRuleSet rules = Inr () \<and> up_done t (order_ok backend rules orig) rules s)
    (\<lambda>_. up_failed t (order_ok backend rules orig) ap la)"
proof (cases "validateRuleSet rules")
  case (Inl er)
  then have "hp_apply e backend rules s = (Inl er, s)" for s :: "'a hp_state_scheme"
    by (simp add: hp_apply_def bindP_def liftP_def)
  then show ?thesis unfolding hoare_def by (auto intro: fields_failed(1))
next
  case (Inr u)
  then have v: "validateRuleSet rules = Inr ()" by simp
  let ?P = "\<lambda>s. hist t (order_ok backend rules orig) (\<lambda>_. True) s \<and> own s = (ap, la, orig)"
  have "hoare ?P (if be_Mode backend = NFTables then applyNFT e rules else apply_xt e backend rules)
      (\<lambda>_. up_done t (order_ok backend rules orig) rules) (\<lambda>_. up_failed t (order_ok backend rules orig) ap la)"
    using applyNFT_hist [OF v] apply_xt_hist [OF v] by (intro hoare_if)
  then show ?thesis unfolding hp_apply_def v by (auto simp: hoare_def bindP_def liftP_def)
qed

lemma hp_apply_failed:
  assumes "hp_apply e backend rules s = (Inl er, s')"
  shows "hp_applied s' = hp_applied s \<and> hp_lastApplied s' = hp_lastApplied s"
proof -
  have P: "hist (trace s) (order_ok backend rules (hp_original s)) (\<lambda>_. True) s
      \<and> own s = (hp_applied s, hp_lastApplied s, hp_original s)" by (simp add: own_def hist_start)
  note h = hp_apply_hist [of "trace s" backend rules "hp_original s" "hp_applied s" "hp_lastApplied s" e]
  show ?thesis using hoare_errD [OF h P assms] by (auto simp: up_failed_def)
qed

section \<open>Properties\<close>

text \<open>C2: Every update of the host keeps the safe order, whether it succeeds or stops at any failing step.
  A rule text is applied only after the same text passed the command's test mode and after every
  bridge that loses its guard got its original \<open>route_localnet\<close> value back; \<open>route_localnet\<close> is
  turned on for a bridge only when the applied text carries the bridge's 127.0.0.0/8 drop guard
  (with xtables: and the guard chain is hooked into PREROUTING) and the ownership file was
  replaced; and no switch is written otherwise.\<close>

theorem update_order_safe:
  assumes "hp_apply e backend rules s = (r, s')"
  shows "\<exists>u. trace s' = trace s @ u \<and> each_after (order_ok backend rules (hp_original s)) u"
proof -
  obtain ap la where o: "own s = (ap, la, hp_original s)" by (simp add: own_def)
  let ?K = "order_ok backend rules (hp_original s)"
  have P: "hist (trace s) ?K (\<lambda>_. True) s \<and> own s = (ap, la, hp_original s)" using o by (simp add: hist_start)
  note h = hp_apply_hist [of "trace s" backend rules "hp_original s" ap la e]
  have "hist (trace s) ?K (\<lambda>_. True) s'"
    using hoare_okD [OF h P] hoare_errD [OF h P] assms
    by (cases r) (auto simp: up_done_def up_failed_def elim: hist_weaken)
  then show ?thesis by (auto dest: histD)
qed

text \<open>Concrete updates: a nft host without a failure, and one where turning the switch on is refused.  The
  batch text stays a variable while the rest of the update is evaluated.\<close>

definition ex_small :: ruleSet where
  "ex_small = empty_rules\<lparr>rs_RouteLocalnetBridges := [(''br0'', True)]\<rparr>"

definition ex_hp :: hp_state where
  "ex_hp = \<lparr>trace = [], files = [rl_path ''br0'' \<mapsto> ''0'' @ nl], hp_applied = empty_rules, hp_lastApplied = None,
     hp_original = []\<rparr>"

definition ex_nft :: Backend where
  "ex_nft = \<lparr>be_Mode = NFTables, be_Command = ''nft'', be_Restore = []\<rparr>"

definition no_switch :: env where
  "no_switch = quiet_env\<lparr>e_fail := (\<lambda>_ c. case c of WriteFile _ _ \<Rightarrow> Some (EnvErr ''read-only'') | _ \<Rightarrow> None)\<rparr>"

lemma bindP_step: "m s = (Inr x, s') \<Longrightarrow> bindP m f s = f x s'"
  by (simp add: bindP_def)

lemma exec_step:
  assumes "e_fail e (trace s) (Output a) = None"
  shows "wrapP g (text_of e (Output a)) s = (Inr (e_text e (trace s) (Output a)), s\<lparr>trace := trace s @ [(Output a, None)]\<rparr>)"
  using assms by (simp add: wrapP_def text_of_def ask_def outcome_def after_def)

lemma ex_tail:
  "fst (bindP (wrapP g (perform quiet_env (Pipe c a d))) (\<lambda>_. bindP (restoreRemovedRouteLocalnet quiet_env ex_small) (\<lambda>_.
     bindP (wrapP h (perform quiet_env (Pipe c a' d))) (\<lambda>_. bindP (activateRouteLocalnet quiet_env ex_small) (\<lambda>_.
       applied_now quiet_env ex_small)))) (ex_hp\<lparr>trace := t\<rparr>)) = Inr ()"
  "isl (fst (bindP (wrapP g (perform no_switch (Pipe c a d))) (\<lambda>_. bindP (restoreRemovedRouteLocalnet no_switch ex_small) (\<lambda>_.
     bindP (wrapP h (perform no_switch (Pipe c a' d))) (\<lambda>_. bindP (activateRouteLocalnet no_switch ex_small) (\<lambda>_.
       applied_now no_switch ex_small)))) (ex_hp\<lparr>trace := t\<rparr>)))"
  by code_simp+

lemma ex_hp_apply:
  "fst (hp_apply quiet_env ex_nft ex_small ex_hp) = Inr ()"
  "isl (fst (hp_apply no_switch ex_nft ex_small ex_hp))"
proof -
  have v: "validateRuleSet ex_small = Inr ()" and m: "be_Mode ex_nft = NFTables" by code_simp+
  have a: "hp_apply e ex_nft ex_small ex_hp = applyNFT e ex_small ex_hp" for e
    by (simp add: hp_apply_def v m liftP_def bindP_step)
  have f: "e_fail quiet_env t (Output x) = None" "e_fail no_switch t (Output x) = None" for t x
    by (simp_all add: quiet_env_def no_switch_def)
  show "fst (hp_apply quiet_env ex_nft ex_small ex_hp) = Inr ()"
    unfolding a applyNFT_def Let_def by (subst bindP_step [OF exec_step [OF f(1)]]) (rule ex_tail(1))
  show "isl (fst (hp_apply no_switch ex_nft ex_small ex_hp))"
    unfolding a applyNFT_def Let_def by (subst bindP_step [OF exec_step [OF f(2)]]) (rule ex_tail(2))
qed

theorem update_order_safe_witness:
  "\<exists>s' u. hp_apply quiet_env ex_nft ex_small ex_hp = (Inr (), s') \<and> trace s' = u
     \<and> each_after (order_ok ex_nft ex_small []) u"
proof -
  obtain r s' where h: "hp_apply quiet_env ex_nft ex_small ex_hp = (r, s')" by fastforce
  with ex_hp_apply(1) have "r = Inr ()" by simp
  with h update_order_safe [OF h] show ?thesis by (auto simp: ex_hp_def)
qed

text \<open>C3: The snapshot the watcher compares with is only ever what is live.  An update that reports an
  error - refused by validation, failed preflight, failed apply, failed hook, failed switch -
  leaves the applied rule set and its time unchanged, so the next round retries; one that reports
  success validated the rule set, recorded it, recorded the ownership and turned on every switch.\<close>

theorem update_commits_on_success_only:
  assumes "hp_apply e backend rules s = (r, s')"
  shows "if r = Inr ()
    then validateRuleSet rules = Inr () \<and> hp_applied s' = rules \<and> hp_lastApplied s' \<noteq> None
      \<and> (\<exists>u. trace s' = trace s @ u \<and> recorded u
          \<and> (\<forall>b \<in> set (sortedEnabledBridges (rs_RouteLocalnetBridges rules)). (WriteFile (rl_path b) (rl_text True), None) \<in> set u))
    else hp_applied s' = hp_applied s \<and> hp_lastApplied s' = hp_lastApplied s"
proof -
  have P: "hist (trace s) (order_ok backend rules (hp_original s)) (\<lambda>_. True) s
      \<and> own s = (hp_applied s, hp_lastApplied s, hp_original s)" by (simp add: own_def hist_start)
  note h = hp_apply_hist [of "trace s" backend rules "hp_original s" "hp_applied s" "hp_lastApplied s" e]
  show ?thesis
    using hoare_okD [OF h P] hoare_errD [OF h P] assms
    by (cases r) (auto simp: up_done_def up_failed_def dest: histD)
qed

text \<open>The refused switch: the update failed after the rules were applied, and nothing is committed.\<close>

theorem update_commits_on_success_only_witness:
  "\<exists>er s'. hp_apply no_switch ex_nft ex_small ex_hp = (Inl er, s') \<and> hp_applied s' = empty_rules \<and> hp_lastApplied s' = None"
proof -
  obtain r s' where h: "hp_apply no_switch ex_nft ex_small ex_hp = (r, s')" by fastforce
  with ex_hp_apply(2) obtain er where "r = Inl er" by (cases r) auto
  with h update_commits_on_success_only [OF h] show ?thesis by (auto simp: ex_hp_def)
qed

end
