(* ===== verification/Conntrack.thy ===== *)
theory Conntrack
  imports Identity
begin

text \<open>
  \<open>src/conntracksync/conntrack/conntrack.go\<close>: reading the listing of the \<open>conntrack\<close> command, and
  creating and deleting single entries.  The command's own behaviour is the environment's.
\<close>

section \<open>Entries\<close>

record CTEntry =
  ce_Protocol :: string
  ce_OriginalSourceIP :: string
  ce_OriginalDestinationIP :: string
  ce_OriginalSourcePort :: string
  ce_OriginalDestinationPort :: string
  ce_ReplySourceIP :: string
  ce_ReplyDestinationIP :: string
  ce_ReplySourcePort :: string
  ce_ReplyDestinationPort :: string
  ce_Unreplied :: bool
  ce_Assured :: bool

section \<open>Reading a listing\<close>

text \<open>The loop's state: the two maps and the two flags.  A key seen before goes to the reply.\<close>

type_synonym ct_acc = "string gomap \<times> string gomap \<times> bool \<times> bool"

fun ct_field :: "string \<Rightarrow> ct_acc \<Rightarrow> ct_acc" where
  "ct_field field (original, reply, unreplied, assured) =
     (if field = ''[UNREPLIED]'' then (original, reply, True, assured)
      else if field = ''[ASSURED]'' then (original, reply, unreplied, True)
      else (case str_split CHR ''='' field of
          [k, v] \<Rightarrow>
            if mhas original k then (original, mput k v reply, unreplied, assured)
            else (mput k v original, reply, unreplied, assured)
        | _ \<Rightarrow> (original, reply, unreplied, assured)))"

definition ct_entry :: "string \<Rightarrow> ct_acc \<Rightarrow> CTEntry" where
  "ct_entry protocol acc =
     (case acc of (original, reply, unreplied, assured) \<Rightarrow>
       \<lparr>ce_Protocol = protocol,
        ce_OriginalSourceIP = mget [] original ''src'', ce_OriginalDestinationIP = mget [] original ''dst'',
        ce_OriginalSourcePort = mget [] original ''sport'', ce_OriginalDestinationPort = mget [] original ''dport'',
        ce_ReplySourceIP = mget [] reply ''src'', ce_ReplyDestinationIP = mget [] reply ''dst'',
        ce_ReplySourcePort = mget [] reply ''sport'', ce_ReplyDestinationPort = mget [] reply ''dport'',
        ce_Unreplied = unreplied, ce_Assured = assured\<rparr>)"

definition parseOneConntrackEntry :: "string \<Rightarrow> CTEntry result" where
  "parseOneConntrackEntry e =
     (let fields = str_fields e in
      if length fields < 4 then Inl (Errorf ''conntrack: invalid entry'' [])
      else Inr (ct_entry (fields ! 0) (fold ct_field (drop 3 fields) ([], [], False, False))))"

definition parseMultipleEntries :: "string \<Rightarrow> CTEntry list" where
  "parseMultipleEntries input =
     concat (map (\<lambda>line. if line = [] then []
        else (case parseOneConntrackEntry line of Inl _ \<Rightarrow> [] | Inr e \<Rightarrow> [e])) (str_lines input))"

section \<open>The commands\<close>

definition ListSNAT :: "env \<Rightarrow> ('a world_scheme, CTEntry list) proc" where
  "ListSNAT e =
     bindP (text_of e (Output [''conntrack'', ''-n'', ''-L''])) (\<lambda>out.
       retP (if out = [] then [] else parseMultipleEntries out))"

definition ListDNAT :: "env \<Rightarrow> ('a world_scheme, CTEntry list) proc" where
  "ListDNAT e =
     bindP (text_of e (Output [''conntrack'', ''-g'', ''-L''])) (\<lambda>out.
       retP (if out = [] then [] else parseMultipleEntries out))"

definition create_args :: "CTEntry \<Rightarrow> string list" where
  "create_args c =
     [''conntrack'', ''--create'', ''-p'', ce_Protocol c, ''--orig-src'', ce_OriginalSourceIP c,
      ''--orig-dst'', ce_OriginalDestinationIP c, ''--orig-port-src'', ce_OriginalSourcePort c,
      ''--orig-port-dst'', ce_OriginalDestinationPort c, ''--reply-src'', ce_ReplySourceIP c,
      ''--reply-dst'', ce_ReplyDestinationIP c, ''--reply-port-src'', ce_ReplySourcePort c,
      ''--reply-port-dst'', ce_ReplyDestinationPort c, ''--timeout'', ''120'', ''--state'', ''ESTABLISHED'']"

definition CTEntryCreate :: "env \<Rightarrow> CTEntry \<Rightarrow> ('a world_scheme, unit) proc" where
  "CTEntryCreate e c = perform e (Run (create_args c))"

definition delete_args :: "CTEntry \<Rightarrow> string list" where
  "delete_args c =
     [''conntrack'', ''--delete'', ''-p'', ce_Protocol c, ''--orig-src'', ce_OriginalSourceIP c,
      ''--orig-dst'', ce_OriginalDestinationIP c, ''--orig-port-dst'', ce_OriginalDestinationPort c,
      ''--reply-src'', ce_ReplySourceIP c, ''--reply-dst'', ce_ReplyDestinationIP c]"

definition CTEntryDelete :: "env \<Rightarrow> CTEntry \<Rightarrow> ('a world_scheme, unit) proc" where
  "CTEntryDelete e c = perform e (Run (delete_args c))"

section \<open>A listing is read back\<close>

text \<open>Words of printable ASCII characters other than the space.\<close>

definition word_char :: "char \<Rightarrow> bool" where
  "word_char c \<longleftrightarrow> CHR 0x21 \<le> c \<and> c \<le> CHR 0x7E"

definition token :: "string \<Rightarrow> bool" where
  "token t \<longleftrightarrow> t \<noteq> [] \<and> list_all word_char t"

definition value_token :: "string \<Rightarrow> bool" where
  "value_token t \<longleftrightarrow> token t \<and> CHR ''='' \<notin> set t"

lemma word_char_no_space:
  assumes "word_char c"
  shows "space_len (c # s) = 0"
proof -
  have "\<not> ascii_space c" "c \<noteq> CHR 0xC2" "c \<noteq> CHR 0xE1" "c \<noteq> CHR 0xE2" "c \<noteq> CHR 0xE3"
    using assms by (auto simp: word_char_def ascii_space_def less_eq_char_def)
  then show ?thesis by (auto simp: wide_space_def split: list.splits)
qed

lemma space_len_blank: "space_len (CHR '' '' # s) = 1"
  by (simp add: ascii_space_def)

lemma fields_word: "list_all word_char t \<Longrightarrow> fields_from cur (t @ s) = fields_from (cur @ t) s"
proof (induction t arbitrary: cur)
  case (Cons c t)
  then have "word_char c" by simp
  then show ?case using Cons by (simp add: word_char_no_space del: space_len.simps)
qed simp

lemma fields_join: "list_all token ts \<Longrightarrow> str_fields (str_join '' '' ts) = ts"
proof (induction ts)
  case Nil
  then show ?case by (simp add: str_fields_def)
next
  case (Cons t ts)
  then have t: "list_all word_char t" "t \<noteq> []" by (auto simp: token_def)
  show ?case
  proof (cases "ts = []")
    case True
    then show ?thesis using fields_word [OF t(1), of "[]" "[]"] t(2) by (simp add: str_fields_def)
  next
    case False
    have "str_fields (str_join '' '' (t # ts)) = fields_from t (CHR '' '' # str_join '' '' ts)"
      using fields_word [OF t(1), of "[]"] by (simp add: str_join_Cons [OF False] str_fields_def)
    also have "\<dots> = t # str_fields (str_join '' '' ts)"
      using t(2) by (simp add: space_len_blank str_fields_def del: space_len.simps)
    finally show ?thesis using Cons by simp
  qed
qed

text \<open>A line as \<open>conntrack -L\<close> prints it: protocol, number, timeout, for TCP the state, the original
  tuple, the reply tuple and the flags, and counters.\<close>

definition ct_words :: "string \<Rightarrow> string \<Rightarrow> string list \<Rightarrow> CTEntry \<Rightarrow> string list" where
  "ct_words num timeout state c =
     [ce_Protocol c, num, timeout] @ state
     @ [''src='' @ ce_OriginalSourceIP c, ''dst='' @ ce_OriginalDestinationIP c,
        ''sport='' @ ce_OriginalSourcePort c, ''dport='' @ ce_OriginalDestinationPort c]
     @ (if ce_Unreplied c then [''[UNREPLIED]''] else [])
     @ [''src='' @ ce_ReplySourceIP c, ''dst='' @ ce_ReplyDestinationIP c,
        ''sport='' @ ce_ReplySourcePort c, ''dport='' @ ce_ReplyDestinationPort c]
     @ (if ce_Assured c then [''[ASSURED]''] else []) @ [''mark=0'', ''use=1'']"

definition ct_line :: "string \<Rightarrow> string \<Rightarrow> string list \<Rightarrow> CTEntry \<Rightarrow> string" where
  "ct_line num timeout state c = str_join '' '' (ct_words num timeout state c)"

definition wf_entry :: "CTEntry \<Rightarrow> bool" where
  "wf_entry c \<longleftrightarrow> value_token (ce_Protocol c) \<and> value_token (ce_OriginalSourceIP c)
     \<and> value_token (ce_OriginalDestinationIP c) \<and> value_token (ce_OriginalSourcePort c)
     \<and> value_token (ce_OriginalDestinationPort c) \<and> value_token (ce_ReplySourceIP c)
     \<and> value_token (ce_ReplyDestinationIP c) \<and> value_token (ce_ReplySourcePort c)
     \<and> value_token (ce_ReplyDestinationPort c)"

definition wf_state :: "string list \<Rightarrow> bool" where
  "wf_state st \<longleftrightarrow> list_all (\<lambda>s. value_token s \<and> s \<noteq> ''[UNREPLIED]'' \<and> s \<noteq> ''[ASSURED]'') st"

lemma token_append: "token k \<Longrightarrow> value_token v \<Longrightarrow> token (k @ v)"
  by (auto simp: token_def value_token_def)

lemma ct_words_tokens:
  assumes "wf_entry c" "wf_state st" "value_token num" "value_token timeout"
  shows "list_all token (ct_words num timeout st c)"
proof -
  have k: "token ''src=''" "token ''dst=''" "token ''sport=''" "token ''dport=''" "token ''[UNREPLIED]''"
    "token ''[ASSURED]''" "token ''mark=0''" "token ''use=1''" by code_simp+
  have "list_all token st" using assms(2) by (auto simp: wf_state_def list_all_iff value_token_def)
  then show ?thesis
    using assms(1,3,4) k(5-8) token_append [OF k(1)] token_append [OF k(2)] token_append [OF k(3)] token_append [OF k(4)]
    by (simp add: ct_words_def wf_entry_def value_token_def)
qed

lemma ct_field_kv:
  assumes "CHR ''='' \<notin> set k" "value_token v" "k \<noteq> []" "hd k \<noteq> CHR ''[''"
  shows "ct_field (k @ CHR ''='' # v) (o1, r, u, a) =
    (if mhas o1 k then (o1, mput k v r, u, a) else (mput k v o1, r, u, a))"
proof -
  have "str_split CHR ''='' (k @ CHR ''='' # v) = [k, v]"
    using assms by (simp add: str_split_append str_split_no_sep value_token_def)
  moreover have "hd (k @ CHR ''='' # v) \<noteq> CHR ''[''" using assms by (cases k) auto
  then have "k @ CHR ''='' # v \<noteq> ''[UNREPLIED]''" "k @ CHR ''='' # v \<noteq> ''[ASSURED]''" by auto
  ultimately show ?thesis by simp
qed

lemma ct_field_state: "wf_state st \<Longrightarrow> fold ct_field st acc = acc"
proof (induction st arbitrary: acc)
  case (Cons s st)
  then have "str_split CHR ''='' s = [s]" "s \<noteq> ''[UNREPLIED]''" "s \<noteq> ''[ASSURED]''"
    by (auto simp: wf_state_def value_token_def str_split_no_sep)
  then have "ct_field s acc = acc" by (cases acc) auto
  with Cons show ?case by (simp add: wf_state_def)
qed simp

lemma ct_field_named:
  assumes "value_token v"
  shows "ct_field (''src='' @ v) (o1, r, u, a) = (if mhas o1 ''src'' then (o1, mput ''src'' v r, u, a) else (mput ''src'' v o1, r, u, a))"
    "ct_field (''dst='' @ v) (o1, r, u, a) = (if mhas o1 ''dst'' then (o1, mput ''dst'' v r, u, a) else (mput ''dst'' v o1, r, u, a))"
    "ct_field (''sport='' @ v) (o1, r, u, a) = (if mhas o1 ''sport'' then (o1, mput ''sport'' v r, u, a) else (mput ''sport'' v o1, r, u, a))"
    "ct_field (''dport='' @ v) (o1, r, u, a) = (if mhas o1 ''dport'' then (o1, mput ''dport'' v r, u, a) else (mput ''dport'' v o1, r, u, a))"
  using ct_field_kv [of "''src''", OF _ assms] ct_field_kv [of "''dst''", OF _ assms]
    ct_field_kv [of "''sport''", OF _ assms] ct_field_kv [of "''dport''", OF _ assms] by simp_all

lemma parse_ct_line:
  assumes "wf_entry c" "wf_state st" "value_token num" "value_token timeout"
  shows "parseOneConntrackEntry (ct_line num timeout st c) = Inr c"
proof -
  have f: "str_fields (ct_line num timeout st c) = ct_words num timeout st c"
    unfolding ct_line_def using ct_words_tokens [OF assms] by (rule fields_join)
  have u: "ct_field ''[UNREPLIED]'' (o1, r, b, a) = (o1, r, True, a)"
    "ct_field ''[ASSURED]'' (o1, r, b, a) = (o1, r, b, True)" for o1 r a b by simp_all
  have m: "ct_field ''mark=0'' (o1, r, b, a) = (if mhas o1 ''mark'' then (o1, mput ''mark'' ''0'' r, b, a) else (mput ''mark'' ''0'' o1, r, b, a))"
    "ct_field ''use=1'' (o1, r, b, a) = (if mhas o1 ''use'' then (o1, mput ''use'' ''1'' r, b, a) else (mput ''use'' ''1'' o1, r, b, a))" for o1 r a b
    using ct_field_kv [of "''mark''" "''0''"] ct_field_kv [of "''use''" "''1''"] by (simp_all add: value_token_def token_def word_char_def)
  note v = assms(1) [unfolded wf_entry_def]
  have "fold ct_field (drop 3 (ct_words num timeout st c)) ([], [], False, False)
    = (let o1 = [(''src'', ce_OriginalSourceIP c), (''dst'', ce_OriginalDestinationIP c),
         (''sport'', ce_OriginalSourcePort c), (''dport'', ce_OriginalDestinationPort c), (''mark'', ''0''), (''use'', ''1'')];
       r = [(''src'', ce_ReplySourceIP c), (''dst'', ce_ReplyDestinationIP c),
         (''sport'', ce_ReplySourcePort c), (''dport'', ce_ReplyDestinationPort c)]
       in (o1, r, ce_Unreplied c, ce_Assured c))"
    using v by (simp add: ct_words_def ct_field_state [OF assms(2)] ct_field_named u m mhas_def del: ct_field.simps append.simps)
  then show ?thesis by (simp add: parseOneConntrackEntry_def f ct_entry_def mget_def Let_def) (simp add: ct_words_def)
qed

lemma join_chars:
  assumes "list_all token ts" "c \<in> set (str_join '' '' ts)"
  shows "word_char c \<or> c = CHR '' ''"
  using set_join_subset [of "'' ''" ts] assms by (auto simp: list_all_iff token_def)

lemma ct_line_one_line:
  assumes "wf_entry c" "wf_state st" "value_token num" "value_token timeout"
  shows "CHR 0x0A \<notin> set (ct_line num timeout st c)" "ct_line num timeout st c \<noteq> []"
proof -
  show "CHR 0x0A \<notin> set (ct_line num timeout st c)"
    using join_chars [OF ct_words_tokens [OF assms], of "CHR 0x0A"] unfolding ct_line_def
    by (auto simp: word_char_def less_eq_char_def)
  have "str_fields (ct_line num timeout st c) \<noteq> []"
    unfolding ct_line_def by (subst fields_join [OF ct_words_tokens [OF assms]]) (simp add: ct_words_def)
  then show "ct_line num timeout st c \<noteq> []" by (auto simp: str_fields_def)
qed

type_synonym ct_row = "string \<times> string \<times> string list \<times> CTEntry"

definition wf_row :: "ct_row \<Rightarrow> bool" where
  "wf_row row = (case row of (num, timeout, st, c) \<Rightarrow> wf_entry c \<and> wf_state st \<and> value_token num \<and> value_token timeout)"

definition row_line :: "ct_row \<Rightarrow> string" where
  "row_line row = (case row of (num, timeout, st, c) \<Rightarrow> ct_line num timeout st c)"


definition ex_tcp :: CTEntry where
  "ex_tcp = \<lparr>ce_Protocol = ''tcp'', ce_OriginalSourceIP = ''192.0.2.7'', ce_OriginalDestinationIP = ''192.0.2.1'',
     ce_OriginalSourcePort = ''50000'', ce_OriginalDestinationPort = ''80'', ce_ReplySourceIP = ''10.42.0.2'',
     ce_ReplyDestinationIP = ''192.0.2.7'', ce_ReplySourcePort = ''8080'', ce_ReplyDestinationPort = ''50000'',
     ce_Unreplied = False, ce_Assured = True\<rparr>"


end
