(* ===== verification/HostNat.thy ===== *)
theory HostNat
  imports HostPorts HostNatRules Conntrack
begin

text \<open>
  The outbound NAT watcher (\<open>src/hostnat/watcher.go\<close>): from a metadata snapshot to a rule set, applying it
  to the selected firewall family, the periodic check of the native table, and the sweeps of IKE
  connection-tracking entries.  The watcher's mutex makes each procedure run alone.
\<close>

record hn_state = world +
  hn_applied :: natRules
  hn_lastApplied :: "int option"
  hn_lastIKESweep :: "int option"

definition errNativeHookMismatch :: gerr where
  "errNativeHookMismatch = Errorf ''owned postrouting nat hook is missing or changed'' []"

definition nativeCheckEvery :: int where "nativeCheckEvery = 30 * second"

definition staleIKEConntrackSweepEvery :: int where "staleIKEConntrackSweepEvery = 15 * second"

text \<open>\<open>errors.Is\<close> for an error without a method of its own.\<close>

fun errors_is :: "gerr \<Rightarrow> gerr \<Rightarrow> bool" where
  "errors_is (Wrapf f as er) target \<longleftrightarrow> Wrapf f as er = target \<or> errors_is er target"
| "errors_is (Joined es) target \<longleftrightarrow> Joined es = target \<or> (\<exists>er \<in> set es. errors_is er target)"
| "errors_is er target \<longleftrightarrow> er = target"

text \<open>\<open>time.Since(t) < d\<close>; the zero time is further away than any \<open>d\<close>.\<close>

definition recent :: "int \<Rightarrow> int option \<Rightarrow> int \<Rightarrow> bool" where
  "recent now since_t d = (case since_t of None \<Rightarrow> False | Some t \<Rightarrow> now - t < d)"

section \<open>Applying rules\<close>

definition hn_insertBaseRules :: "env \<Rightarrow> Backend \<Rightarrow> ('a world_scheme, unit) proc" where
  "hn_insertBaseRules e backend =
     (let ipt = be_Command backend in
      if ipt = [] then raiseP (Errorf ''hostnat iptables command is not selected'' [])
      else
        bindP (tryP (perform e (Run [ipt, ''-w'', ''-t'', ''nat'', ''-C'', ''POSTROUTING'', ''-j'', natChain]))) (\<lambda>r.
          case r of
            Inr _ \<Rightarrow> retP ()
          | Inl _ \<Rightarrow> wrapP (Wrapf ''install hostnat base jump: %w'' [])
              (perform e (Run [ipt, ''-w'', ''-t'', ''nat'', ''-I'', ''POSTROUTING'', ''-j'', natChain]))))"

definition localRoutingSetting :: "MASQRule \<Rightarrow> string" where
  "localRoutingSetting p = (if mq_Bridge p \<noteq> [] then ''net.ipv4.conf.'' @ mq_Bridge p @ ''.route_localnet=1'' else [])"

definition enableLocalNetRouting :: "env \<Rightarrow> natRules \<Rightarrow> ('a world_scheme, unit) proc" where
  "enableLocalNetRouting e rules =
     bindP (range_keys e (masq_map rules)) (\<lambda>keys.
       forP (\<lambda>key. let s = localRoutingSetting (mget zero_MASQ (masq_map rules) key) in
           whenP (s \<noteq> []) (perform e (Run [''sysctl'', ''-w'', s]))) keys)"

definition ike_flushes :: "string list list" where
  "ike_flushes =
     [[''conntrack'', ''-D'', ''-p'', ''udp'', ''--sport'', ''500''], [''conntrack'', ''-D'', ''-p'', ''udp'', ''--dport'', ''500''],
      [''conntrack'', ''-D'', ''-p'', ''udp'', ''--sport'', ''4500''], [''conntrack'', ''-D'', ''-p'', ''udp'', ''--dport'', ''4500'']]"

definition flushIKEConntrack :: "env \<Rightarrow> ('a world_scheme, unit) proc" where
  "flushIKEConntrack e = forP (\<lambda>spec. bindP (tryP (perform e (Run spec))) (\<lambda>_. retP ())) ike_flushes"

text \<open>The common end of both ways to apply: flush IKE entries if there are IKE rules, record the rules.\<close>

definition hn_finish :: "env \<Rightarrow> natRules \<Rightarrow> ('a hn_state_scheme, unit) proc" where
  "hn_finish e rules =
     bindP (whenP (ike_map rules \<noteq> [])
              (bindP (flushIKEConntrack e) (\<lambda>_. bindP (time_Now e) (\<lambda>now. modifyP (\<lambda>s. s\<lparr>hn_lastIKESweep := Some now\<rparr>))))) (\<lambda>_.
     bindP (time_Now e) (\<lambda>now. modifyP (\<lambda>s. s\<lparr>hn_applied := rules, hn_lastApplied := Some now\<rparr>)))"

definition nat_restore :: "env \<Rightarrow> string \<Rightarrow> string \<Rightarrow> bool \<Rightarrow> ('a world_scheme, unit) proc" where
  "nat_restore e name data check = perform e (Pipe name (''-n'' # (if check then [''--test''] else [])) data)"

definition nat_nft :: "env \<Rightarrow> Backend \<Rightarrow> string \<Rightarrow> bool \<Rightarrow> ('a world_scheme, unit) proc" where
  "nat_nft e backend script check =
     perform e (Pipe (be_Command backend) ((if check then [''-c''] else []) @ [''-f'', ''-'']) script)"

definition applyNFTScript :: "env \<Rightarrow> Backend \<Rightarrow> natRules \<Rightarrow> string \<Rightarrow> ('a hn_state_scheme, unit) proc" where
  "applyNFTScript e backend rules script =
     bindP (wrapP (Wrapf ''hostnat nft preflight: %w'' []) (nat_nft e backend script True)) (\<lambda>_.
     bindP (enableLocalNetRouting e rules) (\<lambda>_.
     bindP (wrapP (Wrapf ''hostnat nft apply: %w'' []) (nat_nft e backend script False)) (\<lambda>_.
       hn_finish e rules)))"

definition hn_apply_xt :: "env \<Rightarrow> Backend \<Rightarrow> natRules \<Rightarrow> ('a hn_state_scheme, unit) proc" where
  "hn_apply_xt e backend rules =
     (if be_Mode backend \<noteq> IptablesNFT \<and> be_Mode backend \<noteq> IptablesLegacy then
        raiseP (Errorf ''hostnat firewall backend %q is not resolved'' [be_Mode backend])
      else if be_Restore backend = [] then raiseP (Errorf ''hostnat iptables restore command is not selected'' [])
      else
        bindP (wrapP (Wrapf ''hostnat restore preflight: %w'' []) (nat_restore e (be_Restore backend) (nat_text rules) True)) (\<lambda>_.
        bindP (enableLocalNetRouting e rules) (\<lambda>_.
        bindP (wrapP (Wrapf ''hostnat restore: %w'' []) (nat_restore e (be_Restore backend) (nat_text rules) False)) (\<lambda>_.
        bindP (wrapP (Wrapf ''install base rules: %w'' []) (hn_insertBaseRules e backend)) (\<lambda>_.
          hn_finish e rules)))))"

definition hn_apply :: "env \<Rightarrow> Backend \<Rightarrow> natRules \<Rightarrow> ('a hn_state_scheme, unit) proc" where
  "hn_apply e backend rules =
     bindP (liftP (validateNATRules rules)) (\<lambda>_.
       if be_Mode backend = NFTables then applyNFTScript e backend rules (nftNATScript rules)
       else hn_apply_xt e backend rules)"

definition applyNFTReplacing :: "env \<Rightarrow> Backend \<Rightarrow> natRules \<Rightarrow> ('a hn_state_scheme, unit) proc" where
  "applyNFTReplacing e backend rules =
     bindP (liftP (validateNATRules rules)) (\<lambda>_. applyNFTScript e backend rules (nftNATReplaceScript rules))"

section \<open>The native table\<close>

definition owned_hook :: "nftChain \<Rightarrow> bool" where
  "owned_hook c \<longleftrightarrow> nc_Family c = ''ip'' \<and> nc_Table c = nftNATTable \<and> nc_Name c = ''postrouting'' \<and> nc_Type c = ''nat''
     \<and> nc_Hook c = ''postrouting'' \<and> nc_Prio c = 99 \<and> nc_Policy c = ''accept''"

text \<open>One entry of the listing; the accumulator is whether the hook was found and the rules counted.\<close>

definition native_step :: "json gomap \<Rightarrow> bool \<times> int \<Rightarrow> (bool \<times> int) result" where
  "native_step entry acc =
     bindR (case map_of entry ''chain'' of
         None \<Rightarrow> Inr (fst acc)
       | Some raw \<Rightarrow> bindR (wrapR (Wrapf ''decode owned base chain: %w'' []) (dec_chain raw)) (\<lambda>c. Inr (owned_hook c))) (\<lambda>baseFound.
     bindR (case map_of entry ''rule'' of
         None \<Rightarrow> Inr (snd acc)
       | Some raw \<Rightarrow> bindR (wrapR (Wrapf ''decode owned rule: %w'' []) (dec_rule raw)) (\<lambda>(fam, tab, ch).
           Inr (if fam = ''ip'' \<and> tab = nftNATTable \<and> ch = ''postrouting'' then snd acc + 1 else snd acc))) (\<lambda>ruleCount.
       Inr (baseFound, ruleCount)))"

definition check_native :: "natRules \<Rightarrow> json gomap list \<Rightarrow> unit result" where
  "check_native applied entries_list =
     bindR (foldR native_step entries_list (False, 0)) (\<lambda>(baseFound, ruleCount).
       if \<not> baseFound then Inl errNativeHookMismatch
       else ensureR (ruleCount = nat_want_rules applied)
         (Errorf ''owned postrouting rule count is %d, want %d'' [int_str ruleCount, int_str (nat_want_rules applied)]))"

definition checkNativeState :: "env \<Rightarrow> Backend \<Rightarrow> ('a hn_state_scheme, unit) proc" where
  "checkNativeState e backend =
     (let c = Output [be_Command backend, ''-j'', ''list'', ''chain'', ''ip'', nftNATTable, ''postrouting''] in
      bindP (getP (\<lambda>s. e_text e (trace s) c)) (\<lambda>combined.
      bindP (wrapP (Wrapf ''read owned chain: %w: %s'' [trim_space combined]) (text_of e c)) (\<lambda>data.
      bindP (wrapP (Wrapf ''decode owned chain: %w'' []) (liftP (decode_listing data))) (\<lambda>items.
      bindP (getP hn_applied) (\<lambda>applied. liftP (check_native applied items))))))"

definition reconcileNativeState :: "env \<Rightarrow> Backend \<Rightarrow> ('a hn_state_scheme, unit) proc" where
  "reconcileNativeState e backend =
     bindP (getP hn_lastApplied) (\<lambda>lastApplied.
       if lastApplied = None then retP ()
       else
         bindP (tryP (checkNativeState e backend)) (\<lambda>r.
           case r of
             Inr _ \<Rightarrow> retP ()
           | Inl er \<Rightarrow>
               bindP (report HostNAT (Some (Wrapf ''hostnat native nft state lost: %w'' [] er))) (\<lambda>_.
               bindP (getP hn_applied) (\<lambda>applied.
               bindP (tryP (if errors_is er errNativeHookMismatch then applyNFTReplacing e backend applied
                            else hn_apply e backend applied)) (\<lambda>r'.
                 report HostNAT (err_of r'))))))"

section \<open>The rule set of a metadata snapshot\<close>

text \<open>The accumulator: the networks by UUID, the rules, the hosts once they are loaded.\<close>

definition masq_step ::
    "env \<Rightarrow> Host \<Rightarrow> Network \<Rightarrow> Network gomap \<times> MASQRule gomap \<times> Host list option
     \<Rightarrow> ('a world_scheme, Network gomap \<times> MASQRule gomap \<times> Host list option) proc" where
  "masq_step e host network acc =
     (let networks = mput (net_UUID network) network (fst acc); masq = fst (snd acc); peerHosts = snd (snd acc) in
      case networkToRule network of
        None \<Rightarrow> retP (networks, masq, peerHosts)
      | Some rule \<Rightarrow>
          let reference = mq_Subnet rule in
          bindP (wrapP (Wrapf ''network %s hostnat subnet: %w'' [net_UUID network])
                   (liftP (Resolve reference (host_Labels host)))) (\<lambda>resolved.
            if \<not> IsReference reference then
              retP (networks, mput (net_UUID network) (rule\<lparr>mq_Subnet := resolved\<rparr>) masq, peerHosts)
            else
              bindP (case peerHosts of Some hosts \<Rightarrow> retP hosts | None \<Rightarrow> getHosts e) (\<lambda>hosts.
              bindP (wrapP (Wrapf ''network %s hostnat peers: %w'' [net_UUID network])
                       (liftP (PeerSubnets reference (host_UUID host) resolved hosts))) (\<lambda>peers.
                retP (networks, mput (net_UUID network) (rule\<lparr>mq_Subnet := resolved, mq_Peers := peers\<rparr>) masq, Some hosts)))))"

definition addIKESNATRules :: "env \<Rightarrow> Host \<Rightarrow> Network gomap \<Rightarrow> ('a world_scheme, IKEPortSNATRule gomap) proc" where
  "addIKESNATRules e host networks =
     (if host_AgentIP host = [] then retP []
      else bindP (getContainers e) (\<lambda>containers. retP (foldl (ike_step host networks) [] containers)))"

definition hn_newRules :: "env \<Rightarrow> ('a world_scheme, natRules) proc" where
  "hn_newRules e =
     bindP (LocalHost e) (\<lambda>host.
     bindP (getNetworks e) (\<lambda>networks.
     bindP (foldP (masq_step e host) networks ([], [], None)) (\<lambda>(byUUID, masq, _).
     bindP (addIKESNATRules e host byUUID) (\<lambda>ike.
       retP \<lparr>nr_MASQ = Some masq, nr_IKE = Some ike\<rparr>))))"

section \<open>Stale IKE entries\<close>

definition touches_ike_port :: "CTEntry \<Rightarrow> bool" where
  "touches_ike_port entry \<longleftrightarrow> isIKEPort (ce_OriginalSourcePort entry) \<or> isIKEPort (ce_OriginalDestinationPort entry)
     \<or> isIKEPort (ce_ReplySourcePort entry) \<or> isIKEPort (ce_ReplyDestinationPort entry)"

definition ike_endpoint :: "CTEntry \<Rightarrow> IKEPortSNATRule \<Rightarrow> bool" where
  "ike_endpoint entry rule \<longleftrightarrow> ce_OriginalSourceIP entry = ike_SourceIP rule \<or> ce_ReplySourceIP entry = ike_SourceIP rule
     \<or> ce_OriginalDestinationIP entry = ike_HostIP rule \<or> ce_ReplyDestinationIP entry = ike_HostIP rule"

text \<open>The first rule, in the order the loop visits the map.\<close>

definition matchingIKERule :: "CTEntry \<Rightarrow> IKEPortSNATRule list \<Rightarrow> IKEPortSNATRule option" where
  "matchingIKERule entry rules =
     (if ce_Protocol entry \<noteq> ''udp'' \<or> \<not> touches_ike_port entry then None else find (ike_endpoint entry) rules)"

definition staleIKEEntry :: "CTEntry \<Rightarrow> IKEPortSNATRule \<Rightarrow> bool" where
  "staleIKEEntry entry rule \<longleftrightarrow> ce_Unreplied entry
     \<or> (ce_OriginalSourceIP entry = ike_SourceIP rule \<and> ce_ReplyDestinationIP entry \<noteq> ike_HostIP rule)"

definition stale_step :: "env \<Rightarrow> IKEPortSNATRule gomap \<Rightarrow> CTEntry \<Rightarrow> ('a world_scheme, unit) proc" where
  "stale_step e rules entry =
     bindP (range_keys e rules) (\<lambda>keys.
       case matchingIKERule entry (map (mget zero_IKE rules) keys) of
         None \<Rightarrow> retP ()
       | Some rule \<Rightarrow>
           if \<not> staleIKEEntry entry rule then retP ()
           else bindP (tryP (CTEntryDelete e entry)) (\<lambda>_. retP ()))"

definition flushStaleIKEConntrack :: "env \<Rightarrow> IKEPortSNATRule gomap \<Rightarrow> ('a hn_state_scheme, unit) proc" where
  "flushStaleIKEConntrack e rules =
     (if rules = [] then retP ()
      else
        bindP (time_Now e) (\<lambda>now.
        bindP (getP hn_lastIKESweep) (\<lambda>lastSweep.
          if recent now lastSweep staleIKEConntrackSweepEvery then retP ()
          else
            bindP (time_Now e) (\<lambda>now'.
            bindP (modifyP (\<lambda>s. s\<lparr>hn_lastIKESweep := Some now'\<rparr>)) (\<lambda>_.
            bindP (tryP (ListSNAT e)) (\<lambda>r.
              case r of Inl _ \<Rightarrow> retP () | Inr listed \<Rightarrow> forP (stale_step e rules) listed))))))"

section \<open>Reconciling\<close>

definition hn_onChange :: "env \<Rightarrow> Backend \<Rightarrow> ('a hn_state_scheme, unit) proc" where
  "hn_onChange e backend =
     bindP (hn_newRules e) (\<lambda>newRules.
     bindP (getP hn_applied) (\<lambda>applied.
       if \<not> natrules_eq applied newRules then hn_apply e backend newRules
       else
         bindP (time_Now e) (\<lambda>now.
         bindP (getP hn_lastApplied) (\<lambda>lastApplied.
           if elapsed now lastApplied reapplyEvery then hn_apply e backend newRules
           else flushStaleIKEConntrack e (ike_map newRules)))))"

text \<open>One iteration of the retry loop of \<open>onChangeNoError\<close>.\<close>

definition hn_attempt :: "env \<Rightarrow> Backend \<Rightarrow> ('a hn_state_scheme, unit) proc" where
  "hn_attempt e backend =
     bindP (tryP (hn_onChange e backend)) (\<lambda>r.
     bindP (report HostNAT (err_of r)) (\<lambda>_. liftP r))"

definition hn_Watch :: "('a hn_state_scheme, unit) proc" where
  "hn_Watch = modifyP (\<lambda>s. s\<lparr>hn_applied := zero_natRules, hn_lastApplied := None, hn_lastIKESweep := None\<rparr>)"

end
