(* ===== verification/Reconcile.thy ===== *)
theory Reconcile
  imports HostPortsOrder HostNat
begin

text \<open>
  What the two firewall watchers have in common: \<open>onChangeNoError\<close> retries a reconcile until it succeeds
  and reports the outcome of every attempt.  \<open>reconciler\<close> is the contract of one reconcile - an error
  leaves the applied snapshot alone, and the reconcile itself reports nothing - under which the loop is
  analysed once; both watchers are interpretations.
\<close>

section \<open>The retry loop\<close>

definition attempt :: "component \<Rightarrow> ('a world_scheme, unit) proc \<Rightarrow> ('a world_scheme, unit) proc" where
  "attempt cpt change =
     bindP (tryP change) (\<lambda>r. bindP (report cpt (err_of r)) (\<lambda>_. liftP r))"

text \<open>\<open>for { ... time.Sleep(5 * time.Second) }\<close>, cut off after \<open>n\<close> attempts; the result tells whether the loop
  returned.\<close>

fun retry_loop :: "nat \<Rightarrow> ('a world_scheme, unit) proc \<Rightarrow> ('a world_scheme, bool) proc" where
  "retry_loop 0 m = retP False"
| "retry_loop (Suc n) m =
     bindP (tryP m) (\<lambda>r. case r of
         Inr _ \<Rightarrow> retP True
       | Inl _ \<Rightarrow> bindP (time_Sleep (5 * second)) (\<lambda>_. retry_loop n m))"

definition hp_onChangeNoError :: "env \<Rightarrow> Backend \<Rightarrow> nat \<Rightarrow> ('a hp_state_scheme, bool) proc" where
  "hp_onChangeNoError e backend n = retry_loop n (hp_attempt e backend)"

definition hn_onChangeNoError :: "env \<Rightarrow> Backend \<Rightarrow> nat \<Rightarrow> ('a hn_state_scheme, bool) proc" where
  "hn_onChangeNoError e backend n = retry_loop n (hn_attempt e backend)"

section \<open>The contract\<close>

fun is_report :: "call \<Rightarrow> bool" where
  "is_report (Report _ _) = True"
| "is_report _ = False"

text \<open>The reports in a history.\<close>

fun reports_of :: "event list \<Rightarrow> (component \<times> gerr option) list" where
  "reports_of [] = []"
| "reports_of ((Report cpt er, _) # u) = (cpt, er) # reports_of u"
| "reports_of (_ # u) = reports_of u"

lemma reports_append [simp]: "reports_of (u @ v) = reports_of u @ reports_of v"
  by (induction u rule: reports_of.induct) auto

lemma reports_none: "\<forall>ev \<in> set u. \<not> is_report (fst ev) \<Longrightarrow> reports_of u = []"
  by (induction u rule: reports_of.induct) auto

locale reconciler =
  fixes cpt :: component and snapshot :: "'a world_scheme \<Rightarrow> 'c" and change :: "('a world_scheme, unit) proc"
  assumes failed_keeps: "change s = (Inl er, s') \<Longrightarrow> snapshot s' = snapshot s"
    and silent: "emits (\<lambda>c. \<not> is_report c) change"
    and outside: "snapshot (s\<lparr>trace := t\<rparr>) = snapshot s"
begin

lemma attempt_reports:
  assumes "attempt cpt change s = (r, s')"
  shows "\<exists>u. trace s' = trace s @ u \<and> reports_of u = [(cpt, err_of r)] \<and> (r \<noteq> Inr () \<longrightarrow> snapshot s' = snapshot s)"
proof -
  obtain q t where m: "change s = (q, t)" by fastforce
  from emitsD [OF silent m] obtain u where u: "trace t = trace s @ u" "\<forall>ev \<in> set u. \<not> is_report (fst ev)"
    by (auto simp: since_def)
  have s': "r = q" "s' = t\<lparr>trace := trace t @ [(Report cpt (err_of q), None)]\<rparr>"
    using assms by (auto simp: attempt_def bindP_def tryP_def report_def liftP_def m)
  have "snapshot s' = snapshot s" if "r \<noteq> Inr ()"
    using that failed_keeps m by (cases q) (auto simp: s' outside)
  moreover have "trace s' = trace s @ (u @ [(Report cpt (err_of r), None)])" using u s' by simp
  moreover have "reports_of (u @ [(Report cpt (err_of r), None)]) = [(cpt, err_of r)]"
    using reports_none [OF u(2)] by simp
  ultimately show ?thesis by blast
qed

text \<open>The loop reports one failure per failed attempt and, when it returns, one success last; until it
  returns the snapshot is the old one.\<close>

lemma loop_reports:
  "retry_loop n (attempt cpt change) s = (r, s') \<Longrightarrow>
    \<exists>b u errs. r = Inr b \<and> trace s' = trace s @ u
      \<and> reports_of u = map (\<lambda>er. (cpt, Some er)) errs @ (if b then [(cpt, None)] else [])
      \<and> (if b then length errs < n else length errs = n \<and> snapshot s' = snapshot s)"
proof (induction n arbitrary: s)
  case 0
  then have "r = Inr False" "s' = s" by (auto simp: retP_def)
  then show ?case by (intro exI [of _ False] exI [of _ "[]"]) simp
next
  case (Suc n)
  obtain q t where m: "attempt cpt change s = (q, t)" by fastforce
  from attempt_reports [OF m] obtain u where u: "trace t = trace s @ u" "reports_of u = [(cpt, err_of q)]"
    "q \<noteq> Inr () \<longrightarrow> snapshot t = snapshot s" by blast
  show ?case
  proof (cases q)
    case (Inr x)
    then have "r = Inr True" "s' = t" using Suc.prems m by (auto simp: bindP_def tryP_def retP_def)
    then show ?thesis using u Inr by (intro exI [of _ True] exI [of _ u] exI [of _ "[]"]) (simp add: err_of_def)
  next
    case (Inl er)
    let ?t = "t\<lparr>trace := trace t @ [(Sleep (5 * second), None)]\<rparr>"
    have "retry_loop n (attempt cpt change) ?t = (r, s')"
      using Suc.prems m Inl by (simp add: bindP_def tryP_def time_Sleep_def)
    from Suc.IH [OF this] obtain b v errs where v: "r = Inr b" "trace s' = trace ?t @ v"
      "reports_of v = map (\<lambda>er. (cpt, Some er)) errs @ (if b then [(cpt, None)] else [])"
      "if b then length errs < n else length errs = n \<and> snapshot s' = snapshot ?t" by blast
    have "trace s' = trace s @ (u @ [(Sleep (5 * second), None)] @ v)" using u v by simp
    moreover have "reports_of (u @ [(Sleep (5 * second), None)] @ v)
        = map (\<lambda>er. (cpt, Some er)) (er # errs) @ (if b then [(cpt, None)] else [])"
      using u(2) v(3) Inl by (simp add: err_of_def)
    moreover have "if b then length (er # errs) < Suc n else length (er # errs) = Suc n \<and> snapshot s' = snapshot s"
      using v(4) u(3) Inl by (simp add: outside split: if_splits)
    ultimately show ?thesis using v(1) by blast
  qed
qed

end

section \<open>The two watchers keep it\<close>

lemmas outside_code = os_ReadFile_def os_CreateTemp_def getHosts_def getNetworks_def getSelfHost_def getContainers_def
  getServices_def dc_ContainerInspect_def

lemmas identity_code = LocalHost_def LocalHostUUID_def localHostUUIDFromDockerLabels_def currentContainerID_def

lemma emits_LocalHost [emits_rules]: "emits (\<lambda>c. \<not> is_report c) (LocalHost e)"
  unfolding identity_code outside_code Let_def by (intro emits_rules) simp_all

lemma emits_hp_newRules [emits_rules]: "emits (\<lambda>c. \<not> is_report c) (hp_newRules e)"
  unfolding hp_newRules_def networksByUUID_def network_step_def container_step_def resolveContainerIPv4_def
    inspectRunningContainerPID_def readContainerNamespaceIPv4_def outside_code Let_def
  by (intro emits_rules) simp_all

lemma emits_switches [emits_rules]:
  "emits (\<lambda>c. \<not> is_report c) (restoreRemovedRouteLocalnet e rules)" "emits (\<lambda>c. \<not> is_report c) (activateRouteLocalnet e rules)"
  unfolding restoreRemovedRouteLocalnet_def activateRouteLocalnet_def setBridgeRouteLocalnet_def next_original_def
    readBridgeRouteLocalnet_def saveRouteLocalnetState_def or_close_def outside_code Let_def
  by (intro emits_rules; simp)+

lemma emits_hp_apply [emits_rules]: "emits (\<lambda>c. \<not> is_report c) (hp_apply e backend rules)"
  unfolding hp_apply_def applyNFT_def apply_xt_def insertBaseRules_def hook_step_def ensureForwardJumpFirst_def
    applied_now_def Let_def
  by (intro emits_rules) simp_all

lemma emits_hp_change: "emits (\<lambda>c. \<not> is_report c) (hp_onChangeLocked e backend force)"
  unfolding hp_onChangeLocked_def by (intro emits_rules) simp_all

text \<open>What reads the outside leaves the watcher's fields alone.\<close>

lemma more_hp_newRules: "calls_only (\<lambda>_. True) (hp_newRules e)"
  unfolding hp_newRules_def networksByUUID_def network_step_def container_step_def resolveContainerIPv4_def
    inspectRunningContainerPID_def readContainerNamespaceIPv4_def identity_code outside_code Let_def
  by (intro calls_rules TrueI)

definition hp_snapshot :: "'a hp_state_scheme \<Rightarrow> ruleSet \<times> int option" where
  "hp_snapshot s = (hp_applied s, hp_lastApplied s)"

lemma hp_snapshot_more: "world.more s' = world.more s \<Longrightarrow> hp_snapshot s' = hp_snapshot s"
  by (cases s; cases s') (simp add: hp_snapshot_def)

lemma keeps_more:
  assumes "calls_only C m" and "\<And>s s'. world.more s' = world.more s \<Longrightarrow> f s' = f s"
  shows "hoare (\<lambda>s. f s = w) m (\<lambda>_ s. f s = w) (\<lambda>_ s. f s = w)"
proof -
  have "f s' = f s" if "m s = (r, s')" for s r s'
    using calls_onlyD [OF assms(1) that] assms(2) by blast
  then show ?thesis by (intro hoareI) simp_all
qed

lemma hp_apply_keeps: "hoare (\<lambda>s. hp_snapshot s = w) (hp_apply e backend rules) (\<lambda>_ _. True) (\<lambda>_ s. hp_snapshot s = w)"
  by (rule hoareI) (auto simp: hp_snapshot_def dest: hp_apply_failed)

lemma hp_change_keeps:
  "hoare (\<lambda>s. hp_snapshot s = w) (hp_onChangeLocked e backend force) (\<lambda>_ _. True) (\<lambda>_ s. hp_snapshot s = w)"
proof -
  let ?I = "\<lambda>s. hp_snapshot s = w"
  have read: "hoare ?I (hp_newRules e) (\<lambda>_. ?I) (\<lambda>_. ?I)" by (rule keeps_more [OF more_hp_newRules hp_snapshot_more])
  have now: "hoare ?I (time_Now e) (\<lambda>_. ?I) (\<lambda>_. ?I)" by (rule keeps_more [OF calls_now [OF TrueI] hp_snapshot_more])
  show ?thesis unfolding hp_onChangeLocked_def
    by (rule hoare_bind [OF read], rule hoare_bind [OF hoare_get [where Q = "\<lambda>_. ?I"]], assumption,
        rule hoare_if, rule hp_apply_keeps, rule hoare_bind [OF now],
        rule hoare_bind [OF hoare_get [where Q = "\<lambda>_. ?I"]], assumption,
        rule hoare_if, rule hp_apply_keeps, rule hoare_ret, simp)
qed

interpretation hp_rec: reconciler HostPorts hp_snapshot "hp_onChangeLocked e backend force" for e backend force
proof unfold_locales
  show "hp_snapshot s' = hp_snapshot s" if "hp_onChangeLocked e backend force s = (Inl er, s')"
    for s s' :: "'a hp_state_scheme" and er
    using hoare_errD [OF hp_change_keeps refl that] .
qed (simp_all add: emits_hp_change hp_snapshot_def)

subsection \<open>hostnat\<close>

lemma never_fails_for:
  "(\<And>x. x \<in> set xs \<Longrightarrow> hoare I (f x) (\<lambda>_. I) (\<lambda>_ _. False)) \<Longrightarrow> hoare I (forP f xs) (\<lambda>_. I) (\<lambda>_ _. False)"
  by (rule keeps_for)

lemma never_fails_try: "hoare (\<lambda>_. True) (bindP (tryP m) (\<lambda>_. retP x)) (\<lambda>_ _. True) (\<lambda>_ _. False)"
  by (rule hoareI) (auto simp: bindP_def tryP_def retP_def split: prod.splits)

lemma hn_finish_ok: "hoare P (hn_finish e rules) (\<lambda>_ _. True) (\<lambda>_ _. False)"
proof -
  have f: "hoare (\<lambda>_. True) (flushIKEConntrack e) (\<lambda>_ _. True) (\<lambda>_ _. False)"
    unfolding flushIKEConntrack_def by (rule keeps_for, rule never_fails_try)
  have "hoare (\<lambda>_. True) (hn_finish e rules) (\<lambda>_ _. True) (\<lambda>_ _. False)"
    unfolding hn_finish_def
    by (rule hoare_bind [where R = "\<lambda>_ _. True"], rule hoare_when, rule hoare_bind [OF f],
        rule hoare_bind [where R = "\<lambda>_ _. True"], rule hoare_now, simp, rule hoare_modify, simp, simp,
        rule hoare_bind [where R = "\<lambda>_ _. True"], rule hoare_now, simp, rule hoare_modify, simp)
  then show ?thesis by (rule hoare_conseq) simp_all
qed

definition hn_snapshot :: "'a hn_state_scheme \<Rightarrow> natRules \<times> int option" where
  "hn_snapshot s = (hn_applied s, hn_lastApplied s)"

lemma hn_snapshot_more: "world.more s' = world.more s \<Longrightarrow> hn_snapshot s' = hn_snapshot s"
  by (cases s; cases s') (simp add: hn_snapshot_def)

lemma more_hn_steps:
  "calls_only (\<lambda>_. True) (enableLocalNetRouting e rules)" "calls_only (\<lambda>_. True) (nat_nft e backend script b)"
  "calls_only (\<lambda>_. True) (nat_restore e name script b)" "calls_only (\<lambda>_. True) (hn_insertBaseRules e backend)"
  "calls_only (\<lambda>_. True) (hn_newRules e)" "calls_only (\<lambda>_. True) (stale_step e ike entry)" "calls_only (\<lambda>_. True) (ListSNAT e)"
  unfolding enableLocalNetRouting_def nat_nft_def nat_restore_def hn_insertBaseRules_def hn_newRules_def masq_step_def
    addIKESNATRules_def stale_step_def ListSNAT_def CTEntryDelete_def identity_code outside_code Let_def
  by (intro calls_rules TrueI)+

lemma nat_keeps:
  "calls_only C m \<Longrightarrow> hoare (\<lambda>s. hn_snapshot s = w) m (\<lambda>_ s. hn_snapshot s = w) (\<lambda>_ s. hn_snapshot s = w)"
  by (rule keeps_more [OF _ hn_snapshot_more])

lemma finish_keeps: "hoare (\<lambda>s. hn_snapshot s = w) (hn_finish e rules) (\<lambda>_ _. True) (\<lambda>_ s. hn_snapshot s = w)"
  by (rule hoare_conseq [OF hn_finish_ok]) simp_all

lemma applyNFTScript_keeps:
  "hoare (\<lambda>s. hn_snapshot s = w) (applyNFTScript e backend rules script) (\<lambda>_ _. True) (\<lambda>_ s. hn_snapshot s = w)"
  unfolding applyNFTScript_def
  by (rule hoare_bind [OF nat_keeps], rule calls_wrap, rule more_hn_steps, rule hoare_bind [OF nat_keeps], rule more_hn_steps,
      rule hoare_bind [OF nat_keeps], rule calls_wrap, rule more_hn_steps, rule finish_keeps)

lemma hn_apply_keeps: "hoare (\<lambda>s. hn_snapshot s = w) (hn_apply e backend rules) (\<lambda>_ _. True) (\<lambda>_ s. hn_snapshot s = w)"
proof -
  let ?I = "\<lambda>s. hn_snapshot s = w"
  have "hoare ?I (hn_apply_xt e backend rules) (\<lambda>_ _. True) (\<lambda>_. ?I)"
    unfolding hn_apply_xt_def
    by (rule hoare_if, rule hoare_raise, assumption, rule hoare_if, rule hoare_raise, assumption,
        rule hoare_bind [OF nat_keeps], rule calls_wrap, rule more_hn_steps, rule hoare_bind [OF nat_keeps], rule more_hn_steps,
        rule hoare_bind [OF nat_keeps], rule calls_wrap, rule more_hn_steps,
        rule hoare_bind [OF nat_keeps], rule calls_wrap, rule more_hn_steps, rule finish_keeps)
  then show ?thesis unfolding hn_apply_def
    by (intro hoare_bind [where R = "\<lambda>_. ?I"] hoare_lift hoare_if applyNFTScript_keeps) simp_all
qed

lemma stale_sweep_ok: "hoare (\<lambda>s. hn_snapshot s = w) (flushStaleIKEConntrack e ike) (\<lambda>_ _. True) (\<lambda>_ _. False)"
proof -
  have step: "hoare (\<lambda>_. True) (stale_step e ike entry) (\<lambda>_ _. True) (\<lambda>_ _. False)" for entry
    unfolding stale_step_def
    by (rule hoare_bind [where R = "\<lambda>_ _. True"])
      (auto simp: range_keys_def intro: hoare_get hoare_ret never_fails_try split: option.split)
  have "hoare (\<lambda>_. True) (flushStaleIKEConntrack e ike) (\<lambda>_ _. True) (\<lambda>_ _. False)"
    unfolding flushStaleIKEConntrack_def
    by (rule hoare_if, rule hoare_ret, simp, rule hoare_bind [where R = "\<lambda>_ _. True"], rule hoare_now, simp,
        rule hoare_bind [where R = "\<lambda>_ _. True"], rule hoare_get, simp, rule hoare_if, rule hoare_ret, simp,
        rule hoare_bind [where R = "\<lambda>_ _. True"], rule hoare_now, simp,
        rule hoare_bind [where R = "\<lambda>_ _. True"], rule hoare_modify, simp,
        rule hoare_bind [where R = "\<lambda>_ _. True"], rule hoareI, simp, simp add: tryP_def split: prod.splits)
      (auto intro: hoare_ret keeps_for step split: sum.split)
  then show ?thesis by (rule hoare_conseq) simp_all
qed

lemma hn_change_keeps:
  "hoare (\<lambda>s. hn_snapshot s = w) (hn_onChange e backend) (\<lambda>_ _. True) (\<lambda>_ s. hn_snapshot s = w)"
proof -
  let ?I = "\<lambda>s. hn_snapshot s = w"
  have sweep: "hoare ?I (flushStaleIKEConntrack e ike) (\<lambda>_ _. True) (\<lambda>_. ?I)" for ike
    by (rule hoare_conseq [OF stale_sweep_ok]) simp_all
  show ?thesis unfolding hn_onChange_def
    by (rule hoare_bind [OF nat_keeps [OF more_hn_steps(5)]], rule hoare_bind [OF hoare_get [where Q = "\<lambda>_. ?I"]], assumption,
        rule hoare_if, rule hn_apply_keeps, rule hoare_bind [OF nat_keeps [OF calls_now [OF TrueI]]],
        rule hoare_bind [OF hoare_get [where Q = "\<lambda>_. ?I"]], assumption,
        rule hoare_if, rule hn_apply_keeps, rule sweep)
qed

lemma emits_hn_apply:
  "emits (\<lambda>c. \<not> is_report c) (hn_apply e backend rules)" "emits (\<lambda>c. \<not> is_report c) (applyNFTScript e backend rules script)"
  unfolding hn_apply_def hn_apply_xt_def applyNFTScript_def hn_finish_def flushIKEConntrack_def enableLocalNetRouting_def
    nat_nft_def nat_restore_def hn_insertBaseRules_def Let_def
  by (intro emits_rules; simp)+

lemma emits_hn_change: "emits (\<lambda>c. \<not> is_report c) (hn_onChange e backend)"
  unfolding hn_onChange_def hn_newRules_def masq_step_def addIKESNATRules_def flushStaleIKEConntrack_def stale_step_def
    ListSNAT_def CTEntryDelete_def outside_code Let_def
  by (intro emits_rules emits_hn_apply) simp_all

interpretation hn_rec: reconciler HostNAT hn_snapshot "hn_onChange e backend" for e backend
proof unfold_locales
  show "hn_snapshot s' = hn_snapshot s" if "hn_onChange e backend s = (Inl er, s')"
    for s s' :: "'a hn_state_scheme" and er
    using hoare_errD [OF hn_change_keeps refl that] .
qed (simp_all add: emits_hn_change hn_snapshot_def)

section \<open>Properties\<close>

lemma attempts: "hp_attempt e backend = attempt HostPorts (hp_onChangeLocked e backend False)"
  "hn_attempt e backend = attempt HostNAT (hn_onChange e backend)"
  by (simp_all add: hp_attempt_def hn_attempt_def attempt_def)


text \<open>The same for the outbound NAT watcher: every failed attempt is reported as a failure, the loop's last
  report is the success it returns with, and before that the applied NAT rules are the old ones.\<close>

theorem hostnat_retry:
  "\<exists>returned s' u errs. hn_onChangeNoError e backend n s = (Inr returned, s') \<and> trace s' = trace s @ u
     \<and> reports_of u = map (\<lambda>er. (HostNAT, Some er)) errs @ (if returned then [(HostNAT, None)] else [])
     \<and> (if returned then length errs < n
        else length errs = n \<and> hn_applied s' = hn_applied s \<and> hn_lastApplied s' = hn_lastApplied s)"
proof -
  obtain r s' where h: "hn_onChangeNoError e backend n s = (r, s')" by fastforce
  then have "retry_loop n (attempt HostNAT (hn_onChange e backend)) s = (r, s')"
    by (simp add: hn_onChangeNoError_def attempts)
  from hn_rec.loop_reports [OF this] h show ?thesis unfolding hn_snapshot_def by (smt (verit) Pair_inject)
qed

end
