(* ===== verification/HostNatOrder.thy ===== *)
theory HostNatOrder
  imports HostNatText Reconcile
begin

text \<open>
  How the outbound NAT watcher changes the host: nothing is run before the new rules passed the
  command's test mode, an error leaves the recorded rules alone, the repair of the native table never
  changes what counts as applied, and the periodic sweep deletes stale IKE entries only.
\<close>

section \<open>Nothing before the preflight\<close>

definition nat_test_args :: "string list \<Rightarrow> bool" where
  "nat_test_args args \<longleftrightarrow> args = [''-n'', ''--test''] \<or> args = [''-c'', ''-f'', ''-'']"

definition nat_test_of :: "string list \<Rightarrow> string list" where
  "nat_test_of args = (if args = [''-n''] then [''-n'', ''--test''] else ''-c'' # args)"

text \<open>A rule text goes live only after the same text passed the test; every other command runs only after some
  text did.\<close>

fun nat_order_ok :: "event list \<Rightarrow> event \<Rightarrow> bool" where
  "nat_order_ok a (Pipe cmd args d, r) \<longleftrightarrow> nat_test_args args \<or> (Pipe cmd (nat_test_of args) d, None) \<in> set a"
| "nat_order_ok a (Run x, r) \<longleftrightarrow> (\<exists>cmd args d. nat_test_args args \<and> (Pipe cmd args d, None) \<in> set a)"
| "nat_order_ok a _ \<longleftrightarrow> True"

definition tested :: "string \<Rightarrow> string list \<Rightarrow> string \<Rightarrow> event list \<Rightarrow> bool" where
  "tested cmd args d u \<longleftrightarrow> (Pipe cmd args d, None) \<in> set u"

lemma stable_tested [stable_rules]: "stable (tested cmd args d)"
  unfolding tested_def by (rule stable_in)

fun run_or_clock :: "call \<Rightarrow> bool" where
  "run_or_clock (Run _) = True"
| "run_or_clock Clock = True"
| "run_or_clock _ = False"

lemma run_ok: "nat_test_args args \<Longrightarrow> tested cmd args d a \<Longrightarrow> run_or_clock c \<Longrightarrow> nat_order_ok a (c, r)"
  by (cases c) (auto simp: tested_def)

lemma emits_runs:
  "emits run_or_clock (enableLocalNetRouting e rules)" "emits run_or_clock (hn_insertBaseRules e backend)"
  "emits run_or_clock (hn_finish e rules)"
  unfolding enableLocalNetRouting_def hn_insertBaseRules_def hn_finish_def flushIKEConntrack_def Let_def
  by (intro emits_rules; simp)+

abbreviation "nat_hist t \<equiv> hist t nat_order_ok"

lemma preflight_step:
  assumes "nat_test_args args"
  shows "hoare (nat_hist t (\<lambda>_. True)) (wrapP g (perform e (Pipe cmd args d))) (\<lambda>_. nat_hist t (tested cmd args d)) (\<lambda>_. nat_hist t (\<lambda>_. True))"
  by (rule hoare_wrap, rule hoare_conseq [OF hist_perform [where A' = "tested cmd args d" and E = "\<lambda>_ _. True"]])
    (use assms in \<open>auto simp: tested_def\<close>)

lemma run_step:
  fixes m :: "('a world_scheme, 'b) proc"
  assumes "emits run_or_clock m" and "nat_test_args args" and "stable A" and "\<And>u. A u \<Longrightarrow> tested cmd args d u"
  shows "hoare (nat_hist t A) m (\<lambda>_. nat_hist t A) (\<lambda>_. nat_hist t (\<lambda>_. True))"
proof -
  have "hoare (nat_hist t A) m (\<lambda>_. nat_hist t A) (\<lambda>_. nat_hist t A)"
    by (rule hist_emits [where C = run_or_clock, OF assms(1,3)]) (rule run_ok [OF assms(2) assms(4)])
  then show ?thesis by (rule hoare_conseq) (auto elim: hist_weaken)
qed

lemma live_step:
  assumes "\<not> nat_test_args args"
  shows "hoare (nat_hist t (tested cmd (nat_test_of args) d)) (wrapP g (perform e (Pipe cmd args d)))
    (\<lambda>_. nat_hist t (\<lambda>u. tested cmd (nat_test_of args) d u \<and> tested cmd args d u)) (\<lambda>_. nat_hist t (\<lambda>_. True))"
  by (rule hoare_wrap, rule hoare_conseq [OF hist_perform [where A' = "\<lambda>u. tested cmd (nat_test_of args) d u \<and> tested cmd args d u"
        and E = "\<lambda>_ _. True"]]) (auto simp: tested_def)

definition nat_live :: "Backend \<Rightarrow> string \<Rightarrow> natRules \<Rightarrow> event list \<Rightarrow> bool" where
  "nat_live backend script rules u \<longleftrightarrow>
     (if be_Mode backend = NFTables then tested (be_Command backend) [''-f'', ''-''] script u
      else tested (be_Restore backend) [''-n''] (nat_text rules) u)"

lemma args_facts:
  "nat_test_args [''-n'', ''--test'']" "nat_test_args [''-c'', ''-f'', ''-'']" "\<not> nat_test_args [''-n'']" "\<not> nat_test_args [''-f'', ''-'']"
  "nat_test_of [''-n''] = [''-n'', ''--test'']" "nat_test_of [''-f'', ''-''] = [''-c'', ''-f'', ''-'']"
  by (simp_all add: nat_test_args_def nat_test_of_def)

lemma both_stable: "stable (\<lambda>u. tested c a d u \<and> tested c' a' d' u)"
  by (intro stable_rules)

lemma script_hist:
  assumes "be_Mode backend = NFTables"
  shows "hoare (nat_hist t (\<lambda>_. True)) (applyNFTScript e backend rules script)
    (\<lambda>_. nat_hist t (nat_live backend script rules)) (\<lambda>_. nat_hist t (\<lambda>_. True))"
proof -
  let ?c = "be_Command backend"
  have end': "hoare (nat_hist t (\<lambda>u. tested ?c [''-c'', ''-f'', ''-''] script u \<and> tested ?c [''-f'', ''-''] script u))
      (hn_finish e rules) (\<lambda>_. nat_hist t (nat_live backend script rules)) (\<lambda>_. nat_hist t (\<lambda>_. True))"
    by (rule hoare_conseq [OF run_step [OF emits_runs(3) args_facts(2) both_stable]])
      (auto simp: nat_live_def assms elim: hist_weaken)
  show ?thesis
    unfolding applyNFTScript_def nat_nft_def if_True if_False append_Nil append_Cons
    by (rule hoare_bind [OF preflight_step [OF args_facts(2)]],
        rule hoare_bind [OF run_step [OF emits_runs(1) args_facts(2) stable_tested]], assumption,
        rule hoare_bind [OF live_step [OF args_facts(4), unfolded args_facts(6)]], rule end')
qed

lemma xt_hist:
  assumes "be_Mode backend \<noteq> NFTables"
  shows "hoare (nat_hist t (\<lambda>_. True)) (hn_apply_xt e backend rules)
    (\<lambda>_. nat_hist t (nat_live backend script rules)) (\<lambda>_. nat_hist t (\<lambda>_. True))"
proof -
  let ?c = "be_Restore backend"
  let ?A = "\<lambda>u. tested ?c [''-n'', ''--test''] (nat_text rules) u \<and> tested ?c [''-n''] (nat_text rules) u"
  have end': "hoare (nat_hist t ?A) (hn_finish e rules) (\<lambda>_. nat_hist t (nat_live backend script rules)) (\<lambda>_. nat_hist t (\<lambda>_. True))"
    by (rule hoare_conseq [OF run_step [OF emits_runs(3) args_facts(1) both_stable]])
      (auto simp: nat_live_def assms elim: hist_weaken)
  have base: "hoare (nat_hist t ?A) (wrapP g (hn_insertBaseRules e backend)) (\<lambda>_. nat_hist t ?A) (\<lambda>_. nat_hist t (\<lambda>_. True))" for g
    by (rule run_step [OF emits_wrap [OF emits_runs(2)] args_facts(1) both_stable]) auto
  show ?thesis
    unfolding hn_apply_xt_def nat_restore_def if_True if_False
    by (rule hoare_if, rule hoare_raise, assumption, rule hoare_if, rule hoare_raise, assumption,
        rule hoare_bind [OF preflight_step [OF args_facts(1)]],
        rule hoare_bind [OF run_step [OF emits_runs(1) args_facts(1) stable_tested]], assumption,
        rule hoare_bind [OF live_step [OF args_facts(3), unfolded args_facts(5)]],
        rule hoare_bind [OF base end'])
qed

lemma hn_apply_hist:
  "hoare (nat_hist t (\<lambda>_. True)) (hn_apply e backend rules)
    (\<lambda>_. nat_hist t (nat_live backend (nftNATScript rules) rules)) (\<lambda>_. nat_hist t (\<lambda>_. True))"
  unfolding hn_apply_def
  by (rule hoare_bind [where R = "\<lambda>_. nat_hist t (\<lambda>_. True)"], rule hoare_lift, assumption, assumption,
      rule hoare_if, rule script_hist, assumption, rule xt_hist)


text \<open>A success recorded the rules.\<close>

lemma hn_finish_records:
  "hoare P (hn_finish e rules) (\<lambda>_ s. hn_applied s = rules \<and> hn_lastApplied s \<noteq> None) (\<lambda>_ _. True)"
  unfolding hn_finish_def
  by (rule hoare_bind [where R = "\<lambda>_ _. True"], rule hoareI, simp, simp,
      rule hoare_bind [where R = "\<lambda>_ _. True"], rule hoare_now, simp, rule hoare_modify, simp)

lemma any_step: "hoare P m (\<lambda>_ _. True) (\<lambda>_ _. True)"
  by (rule hoareI) simp_all

lemma applyNFTScript_records:
  "hoare P (applyNFTScript e backend rules script) (\<lambda>_ s. hn_applied s = rules \<and> hn_lastApplied s \<noteq> None) (\<lambda>_ _. True)"
  unfolding applyNFTScript_def by (rule hoare_bind [OF any_step])+ (rule hn_finish_records)

lemma hn_apply_records:
  "hoare P (hn_apply e backend rules)
    (\<lambda>_ s. validateNATRules rules = Inr () \<and> hn_applied s = rules \<and> hn_lastApplied s \<noteq> None) (\<lambda>_ _. True)"
proof -
  let ?Q = "\<lambda>_ s. hn_applied s = rules \<and> hn_lastApplied s \<noteq> None"
  have xt: "hoare P' (hn_apply_xt e backend rules) ?Q (\<lambda>_ _. True)" for P'
    unfolding hn_apply_xt_def
    by (rule hoare_if, rule hoare_raise, simp, rule hoare_if, rule hoare_raise, simp, (rule hoare_bind [OF any_step])+,
        rule hn_finish_records)
  have "hoare (\<lambda>_. validateNATRules rules = Inr ()) (if be_Mode backend = NFTables
      then applyNFTScript e backend rules (nftNATScript rules) else hn_apply_xt e backend rules)
      (\<lambda>_ s. validateNATRules rules = Inr () \<and> hn_applied s = rules \<and> hn_lastApplied s \<noteq> None) (\<lambda>_ _. True)"
  proof (cases "validateNATRules rules = Inr ()")
    case True
    show ?thesis
      by (rule hoare_conseq [where Q' = ?Q and P' = "\<lambda>_. True" and E' = "\<lambda>_ _. True"], rule hoare_if,
          rule applyNFTScript_records, rule xt, rule TrueI, rule conjI [OF True], assumption, assumption)
  qed (simp add: hoare_def)
  then show ?thesis unfolding hn_apply_def
    by (intro hoare_bind [where R = "\<lambda>_ _. validateNATRules rules = Inr ()"] hoare_lift) simp_all
qed

definition nat_start :: hn_state where
  "nat_start = \<lparr>trace = [], files = (\<lambda>_. None), hn_applied = zero_natRules, hn_lastApplied = None, hn_lastIKESweep = None\<rparr>"

text \<open>C18: Applying NAT rules, whatever fails: every rule text that goes live passed the test mode of the
  same command before, and no other command (the bridge switches, the base jump, the IKE flushes) runs
  before that test; a success validated and recorded the rules and made their text live; after an error
  the recorded rules and their time are the old ones.\<close>

theorem hostnat_apply_safe:
  assumes "hn_apply e backend rules s = (r, s')"
  shows "\<exists>u. trace s' = trace s @ u \<and> each_after nat_order_ok u
    \<and> (r = Inr () \<longrightarrow> validateNATRules rules = Inr () \<and> nat_live backend (nftNATScript rules) rules u
          \<and> hn_applied s' = rules \<and> hn_lastApplied s' \<noteq> None)
    \<and> (r \<noteq> Inr () \<longrightarrow> hn_applied s' = hn_applied s \<and> hn_lastApplied s' = hn_lastApplied s)"
proof (cases r)
  case (Inl er)
  from histD [OF hoare_errD [OF hn_apply_hist hist_start assms [unfolded Inl]]]
  obtain u where u: "trace s' = trace s @ u" "each_after nat_order_ok u" by blast
  have "hn_snapshot s' = hn_snapshot s" using hoare_errD [OF hn_apply_keeps refl assms [unfolded Inl]] .
  then have "hn_applied s' = hn_applied s \<and> hn_lastApplied s' = hn_lastApplied s" by (simp add: hn_snapshot_def)
  then show ?thesis using u Inl by (intro exI [of _ u]) simp
next
  case (Inr x)
  from histD [OF hoare_okD [OF hn_apply_hist hist_start assms [unfolded Inr]]]
  obtain u where u: "trace s' = trace s @ u" "nat_live backend (nftNATScript rules) rules u" "each_after nat_order_ok u" by blast
  note hoare_okD [OF hn_apply_records TrueI assms [unfolded Inr]]
  then show ?thesis using u Inr by (intro exI [of _ u]) simp
qed

text \<open>Where no command fails, applying validated rules succeeds.\<close>

lemma quiet_ok:
  "hoare (\<lambda>_. True) (perform quiet_env (Run x)) (\<lambda>_ _. True) (\<lambda>_ _. False)"
  "hoare (\<lambda>_. True) (wrapP g (perform quiet_env (Pipe cmd args d))) (\<lambda>_ _. True) (\<lambda>_ _. False)"
  by (rule hoareI; simp add: perform_def ask_def outcome_def quiet_env_def wrapP_def split: prod.splits)+

lemma quiet_xt:
  assumes "be_Mode backend = IptablesLegacy" and "be_Restore backend \<noteq> []" and "be_Command backend \<noteq> []"
  shows "hoare (\<lambda>_. True) (hn_apply_xt quiet_env backend rules) (\<lambda>_ _. True) (\<lambda>_ _. False)"
proof -
  have base: "hoare (\<lambda>_. True) (wrapP g (hn_insertBaseRules quiet_env backend)) (\<lambda>_ _. True) (\<lambda>_ _. False)" for g
    by (rule hoareI; simp add: hn_insertBaseRules_def assms Let_def wrapP_def bindP_def tryP_def perform_def ask_def
        outcome_def quiet_env_def retP_def split: prod.splits)
  have sw: "hoare (\<lambda>_. True) (enableLocalNetRouting quiet_env rules) (\<lambda>_ _. True) (\<lambda>_ _. False)"
    unfolding enableLocalNetRouting_def range_keys_def
    by (rule hoare_bind [where R = "\<lambda>_ _. True"], rule hoare_get, simp, rule keeps_for, rule hoare_let, rule hoare_when,
        rule quiet_ok, simp)
  have guard: "\<not> (be_Mode backend \<noteq> IptablesNFT \<and> be_Mode backend \<noteq> IptablesLegacy)" "be_Restore backend \<noteq> []"
    using assms by auto
  show ?thesis
    unfolding hn_apply_xt_def if_not_P [OF guard(1)] if_not_P [OF guard(2)] nat_restore_def
    by (rule hoare_bind [OF quiet_ok(2)], rule hoare_bind [OF sw], rule hoare_bind [OF quiet_ok(2)],
        rule hoare_bind [OF base hn_finish_ok])
qed

text \<open>The legacy firewall family, with nothing failing: the hypothesis holds and the text went live.\<close>

theorem hostnat_apply_safe_witness:
  "\<exists>u s'. hn_apply quiet_env \<lparr>be_Mode = IptablesLegacy, be_Command = ''iptables'', be_Restore = ''iptables-restore''\<rparr>
       ex_nat nat_start = (Inr (), s') \<and> trace s' = u \<and> each_after nat_order_ok u
     \<and> tested ''iptables-restore'' [''-n''] (nat_text ex_nat) u"
proof -
  let ?b = "\<lparr>be_Mode = IptablesLegacy, be_Command = ''iptables'', be_Restore = ''iptables-restore''\<rparr>"
  have v: "validateNATRules ex_nat = Inr ()" by code_simp
  have m: "be_Mode ?b = IptablesLegacy" "be_Mode ?b \<noteq> NFTables" "be_Restore ?b \<noteq> []" "be_Command ?b \<noteq> []"
    by (simp_all add: mode_defs)
  obtain r s' where h: "hn_apply quiet_env ?b ex_nat nat_start = (r, s')" by fastforce
  then have "hn_apply_xt quiet_env ?b ex_nat nat_start = (r, s')"
    unfolding hn_apply_def v if_not_P [OF m(2)] by (simp add: bindP_def liftP_def)
  then have r: "r = Inr ()" using hoare_errD [OF quiet_xt [OF m(1,3,4)] TrueI] by (cases r) auto
  from hostnat_apply_safe [OF h] r obtain u where u: "trace s' = trace nat_start @ u" "each_after nat_order_ok u"
    "nat_live ?b (nftNATScript ex_nat) ex_nat u" by blast
  have "trace s' = u" using u(1) by (simp add: nat_start_def)
  moreover have "tested ''iptables-restore'' [''-n''] (nat_text ex_nat) u"
    using u(3) unfolding nat_live_def if_not_P [OF m(2)] by simp
  ultimately show ?thesis using u(2) h r by blast
qed

section \<open>Repairing the native table\<close>

lemma emits_checkNative: "emits (\<lambda>c. \<not> is_report c) (checkNativeState e backend)"
  unfolding checkNativeState_def Let_def by (intro emits_rules) simp_all

lemma more_checkNative: "calls_only (\<lambda>_. True) (checkNativeState e backend)"
  unfolding checkNativeState_def Let_def by (intro calls_rules TrueI)

lemma applyNFTReplacing_facts:
  "hoare (\<lambda>s. hn_snapshot s = w) (applyNFTReplacing e backend rules) (\<lambda>_ _. True) (\<lambda>_ s. hn_snapshot s = w)"
  "hoare P (applyNFTReplacing e backend rules) (\<lambda>_ s. hn_applied s = rules \<and> hn_lastApplied s \<noteq> None) (\<lambda>_ _. True)"
  "emits (\<lambda>c. \<not> is_report c) (applyNFTReplacing e backend rules)"
  unfolding applyNFTReplacing_def
  by (rule hoare_bind [where R = "\<lambda>_ s. hn_snapshot s = w"], rule hoare_lift, simp, simp, rule applyNFTScript_keeps,
      rule hoare_bind [OF any_step], rule applyNFTScript_records, intro emits_rules emits_hn_apply)

text \<open>Re-applying the recorded rules, in either way.\<close>

definition reapply :: "env \<Rightarrow> Backend \<Rightarrow> gerr \<Rightarrow> natRules \<Rightarrow> ('a hn_state_scheme, unit) proc" where
  "reapply e backend er applied =
     (if errors_is er errNativeHookMismatch then applyNFTReplacing e backend applied else hn_apply e backend applied)"

lemma reapply_run:
  assumes "reapply e backend er applied s = (r, s')" and "hn_applied s = applied"
  shows "\<exists>u. trace s' = trace s @ u \<and> reports_of u = [] \<and> hn_applied s' = hn_applied s
    \<and> (r \<noteq> Inr () \<longrightarrow> hn_lastApplied s' = hn_lastApplied s)"
proof -
  have em: "emits (\<lambda>c. \<not> is_report c) (reapply e backend er applied)"
    and ks: "hoare (\<lambda>t. hn_snapshot t = hn_snapshot s) (reapply e backend er applied) (\<lambda>_ _. True) (\<lambda>_ t. hn_snapshot t = hn_snapshot s)"
    and ok: "hoare (\<lambda>_. True) (reapply e backend er applied) (\<lambda>_ t. hn_applied t = applied) (\<lambda>_ _. True)"
    unfolding reapply_def
    by (intro emits_rules emits_hn_apply applyNFTReplacing_facts, rule hoare_if, rule applyNFTReplacing_facts, rule hn_apply_keeps,
        rule hoare_if, rule hoare_conseq [OF applyNFTReplacing_facts(2) TrueI], simp, simp,
        rule hoare_conseq [OF hn_apply_records TrueI], simp, simp)
  from emitsD [OF em assms(1)] obtain u where u: "trace s' = trace s @ u" "\<forall>ev \<in> set u. \<not> is_report (fst ev)"
    by (auto simp: since_def)
  have "hn_applied s' = hn_applied s \<and> (r \<noteq> Inr () \<longrightarrow> hn_lastApplied s' = hn_lastApplied s)"
  proof (cases r)
    case (Inl x)
    show ?thesis using hoare_errD [OF ks refl assms(1) [unfolded Inl]] by (simp add: hn_snapshot_def)
  next
    case (Inr x)
    show ?thesis using hoare_okD [OF ok TrueI assms(1) [unfolded Inr]] assms(2) Inr by simp
  qed
  then show ?thesis using u reports_none [OF u(2)] by (intro exI [of _ u]) simp
qed

text \<open>The periodic check of the native table never fails and never changes what counts as applied.  Before
  the first successful apply it does nothing; a table found as expected is left alone and nothing is
  reported; a table found damaged is first reported as a failure and then the recorded rules, not new
  ones, are applied again and the outcome is reported - so a repair that fails is not hidden.\<close>

theorem native_repair:
  "\<exists>s' u. reconcileNativeState e backend s = (Inr (), s') \<and> trace s' = trace s @ u \<and> hn_applied s' = hn_applied s
     \<and> (if hn_lastApplied s = None then u = []
        else case fst (checkNativeState e backend s) of
            Inr _ \<Rightarrow> reports_of u = [] \<and> hn_lastApplied s' = hn_lastApplied s
          | Inl er \<Rightarrow> (\<exists>res. reports_of u = [(HostNAT, Some (Wrapf ''hostnat native nft state lost: %w'' [] er)), (HostNAT, res)]
              \<and> (if res = None then True else hn_lastApplied s' = hn_lastApplied s)))"
proof (cases "hn_lastApplied s = None")
  case True
  then show ?thesis by (simp add: reconcileNativeState_def bindP_def getP_def retP_def)
next
  case False
  then obtain y where y: "hn_lastApplied s = Some y" by auto
  obtain q t where c: "checkNativeState e backend s = (q, t)" by fastforce
  from emitsD [OF emits_checkNative c] obtain v where v: "trace t = trace s @ v" "\<forall>ev \<in> set v. \<not> is_report (fst ev)"
    by (auto simp: since_def)
  have t: "hn_snapshot t = hn_snapshot s" using hn_snapshot_more calls_onlyD [OF more_checkNative c] by blast
  show ?thesis
  proof (cases q)
    case (Inr x)
    have "reconcileNativeState e backend s = (Inr (), t)"
      using y c Inr by (simp add: reconcileNativeState_def bindP_def getP_def tryP_def retP_def)
    then show ?thesis using y c Inr v(1) t reports_none [OF v(2)] by (simp add: hn_snapshot_def)
  next
    case (Inl er)
    let ?first = "(HostNAT, Some (Wrapf ''hostnat native nft state lost: %w'' [] er))"
    let ?t = "t\<lparr>trace := trace t @ [(Report (fst ?first) (snd ?first), None)]\<rparr>"
    obtain p s1 where a: "reapply e backend er (hn_applied t) ?t = (p, s1)" by fastforce
    from reapply_run [OF a] obtain u where u: "trace s1 = trace ?t @ u" "reports_of u = []" "hn_applied s1 = hn_applied t"
      "p \<noteq> Inr () \<longrightarrow> hn_lastApplied s1 = hn_lastApplied t" by auto
    have s': "reconcileNativeState e backend s = (Inr (), s1\<lparr>trace := trace s1 @ [(Report HostNAT (err_of p), None)]\<rparr>)"
      using y c Inl a by (simp add: reconcileNativeState_def reapply_def [symmetric] bindP_def getP_def tryP_def report_def)
    let ?u = "v @ [(Report (fst ?first) (snd ?first), None)] @ u @ [(Report HostNAT (err_of p), None)]"
    have "reports_of ?u = [?first, (HostNAT, err_of p)]" using reports_none [OF v(2)] u(2) by simp
    moreover have "err_of p \<noteq> None \<longrightarrow> hn_lastApplied s1 = hn_lastApplied s"
      using u(4) t by (cases p) (simp_all add: err_of_def hn_snapshot_def)
    ultimately show ?thesis using y c Inl s' u(1,3) v(1) t by (simp add: hn_snapshot_def)
  qed
qed

end
