(* ===== verification/Readiness.thy ===== *)
theory Readiness
  imports AtomicFile
begin

text \<open>
  \<open>src/internal/readiness/readiness.go\<close>: the marker file that says both firewall watchers reconciled.  The
  tracker's mutex makes every report one procedure.
\<close>

definition DefaultPath :: string where
  "DefaultPath = ''/tmp/pasturestack-network-ready''"

record tracker = world +
  tr_path :: string
  tr_nat :: bool
  tr_ports :: bool

section \<open>Operations\<close>

text \<open>\<open>os.Remove\<close> where an absent file is as good as a removed one.\<close>

definition rd_clear :: "env \<Rightarrow> string \<Rightarrow> string \<Rightarrow> ('a world_scheme, unit) proc" where
  "rd_clear e path message =
     bindP (tryP (perform e (RemoveFile path))) (\<lambda>r.
       case r of
         Inr _ \<Rightarrow> retP ()
       | Inl er \<Rightarrow> if os_is_not_exist er then retP () else raiseP (Wrapf message [] er))"

definition rd_New :: "env \<Rightarrow> string \<Rightarrow> ('a tracker_scheme, unit) proc" where
  "rd_New e path =
     (if path = [] then raiseP (Errorf ''readiness path is empty'' [])
      else bindP (rd_clear e path ''clear stale readiness: %w'') (\<lambda>_.
        modifyP (\<lambda>s. s\<lparr>tr_path := path, tr_nat := False, tr_ports := False\<rparr>)))"

definition rd_create :: "env \<Rightarrow> string \<Rightarrow> ('a world_scheme, unit) proc" where
  "rd_create e path =
     bindP (wrapP (Wrapf ''create readiness marker: %w'' []) (os_CreateTemp e (path_dir path) ''.pasturestack-network-ready-'')) (\<lambda>name.
       finallyP
         (bindP (wrapP (Wrapf ''write readiness marker: %w'' []) (or_close e name (perform e (WriteTemp name (''ready'' @ nl))))) (\<lambda>_.
          bindP (wrapP (Wrapf ''close readiness marker: %w'' []) (perform e (CloseFile name))) (\<lambda>_.
            wrapP (Wrapf ''publish readiness marker: %w'' []) (perform e (RenameFile name path)))))
         (perform e (RemoveFile name)))"

definition rd_publish :: "env \<Rightarrow> string \<Rightarrow> ('a world_scheme, unit) proc" where
  "rd_publish e path =
     bindP (tryP (perform e (StatFile path))) (\<lambda>r.
       case r of
         Inr _ \<Rightarrow> retP ()
       | Inl er \<Rightarrow> if \<not> os_is_not_exist er then raiseP (Wrapf ''inspect readiness: %w'' [] er) else rd_create e path)"

definition tr_Report :: "env \<Rightarrow> string \<Rightarrow> gerr option \<Rightarrow> ('a tracker_scheme, unit) proc" where
  "tr_Report e component err =
     bindP (if component = ''hostnat'' then modifyP (\<lambda>s. s\<lparr>tr_nat := (err = None)\<rparr>)
            else if component = ''hostports'' then modifyP (\<lambda>s. s\<lparr>tr_ports := (err = None)\<rparr>)
            else raiseP (Errorf ''unknown readiness component %q'' [component])) (\<lambda>_.
     bindP (getP (\<lambda>s. (tr_path s, tr_nat s \<and> tr_ports s))) (\<lambda>(path, ready).
       if \<not> ready then rd_clear e path ''clear unhealthy readiness: %w'' else rd_publish e path))"

section \<open>Properties\<close>

text \<open>The operating system answers "does not exist" only for files that do not exist.\<close>

definition honest :: "env \<Rightarrow> bool" where
  "honest e \<longleftrightarrow> (\<forall>t q p. e_fail e t (RemoveFile q) \<noteq> Some (NotExist p) \<and> e_fail e t (StatFile q) \<noteq> Some (NotExist p))"

lemma honest_absent:
  assumes "honest e" and "outcome e c s = Some er" and "os_is_not_exist er" and "c = RemoveFile q \<or> c = StatFile q"
  shows "files s q = None"
proof -
  from assms(3) obtain p where "er = NotExist p" by (cases er) auto
  then show ?thesis using assms by (auto simp: honest_def outcome_def split: option.splits if_splits)
qed

lemma failed_unchanged: "outcome e (RemoveFile p) s = Some er \<Longrightarrow> files (after e (RemoveFile p) s) = files s"
  by (cases "e_torn e (trace s) (RemoveFile p)") (auto simp: after_def)

lemma clear_hoare:
  assumes "honest e"
  shows "hoare (\<lambda>s. files s path = old) (rd_clear e path m) (\<lambda>_ s. files s path = None) (\<lambda>_ s. files s path = old)"
proof -
  have "hoare (\<lambda>s. files s path = old) (perform e (RemoveFile path))
      (\<lambda>_ s. files s path = None) (\<lambda>er s. files s path = old \<and> (os_is_not_exist er \<longrightarrow> old = None))"
    using honest_absent [OF assms] by (intro hoare_perform) (auto simp: failed_unchanged, simp add: after_def)
  then show ?thesis unfolding rd_clear_def
    by (rule hoare_tryE) (auto intro!: hoare_ret hoare_raise)
qed

lemma stat_ok: "outcome e (StatFile p) s = None \<Longrightarrow> files s p \<noteq> None"
  by (auto simp: outcome_def split: option.splits if_splits)

lemma stat_hoare:
  assumes "honest e"
  shows "hoare (\<lambda>s. files s path = old) (perform e (StatFile path))
    (\<lambda>_ s. files s path = old \<and> old \<noteq> None) (\<lambda>er s. files s path = old \<and> (os_is_not_exist er \<longrightarrow> old = None))"
  using honest_absent [OF assms] stat_ok
  by (intro hoare_perform) (auto simp: after_untouched)

lemma create_hoare:
  assumes "\<And>r. path_dir path @ ''/.pasturestack-network-ready-'' @ r \<noteq> path"
  shows "hoare (\<lambda>s. files s path = old) (rd_create e path)
    (\<lambda>_ s. files s path = Some (''ready'' @ nl)) (\<lambda>_ s. files s path = old)"
proof -
  have create: "hoare (\<lambda>s. files s path = old) (os_CreateTemp e (path_dir path) ''.pasturestack-network-ready-'')
    (\<lambda>name. held path old name (Some [])) (\<lambda>_ s. files s path = old)"
    using assms by (intro create_step) simp
  have close: "hoare (held path old name (Some d)) (perform e (CloseFile name)) (\<lambda>_. held path old name (Some d))
      (\<lambda>_ s. files s path = old \<and> name \<noteq> path)" for name d
    by (rule hoare_perform) (auto simp: held_def after_untouched)
  have body: "hoare (held path old name (Some []))
      (finallyP
         (bindP (wrapP g (or_close e name (perform e (WriteTemp name (''ready'' @ nl))))) (\<lambda>_.
          bindP (wrapP h (perform e (CloseFile name))) (\<lambda>_.
            wrapP k (perform e (RenameFile name path)))))
         (perform e (RemoveFile name)))
      (\<lambda>_ s. files s path = Some (''ready'' @ nl)) (\<lambda>_ s. files s path = old)" for name g h k
    by (rule hoare_finally [where Q' = "\<lambda>_ s. files s path = Some (''ready'' @ nl) \<and> name \<noteq> path"
          and E' = "\<lambda>_ s. files s path = old \<and> name \<noteq> path"],
        rule hoare_bind, rule hoare_wrap, rule write_step, rule hoare_bind, rule hoare_wrap, rule close,
        rule hoare_wrap, rule rename_step)
      (auto simp: after_untouched intro!: hoare_perform)
  show ?thesis unfolding rd_create_def by (rule hoare_bind [OF hoare_wrap [OF create] body])
qed

lemma publish_hoare:
  assumes "honest e" and "\<And>r. path_dir path @ ''/.pasturestack-network-ready-'' @ r \<noteq> path"
  shows "hoare (\<lambda>s. files s path = old) (rd_publish e path)
    (\<lambda>_ s. files s path \<noteq> None) (\<lambda>_ s. files s path = old)"
  unfolding rd_publish_def
proof (rule hoare_tryE [OF stat_hoare [OF assms(1)]])
  fix er
  have "hoare (\<lambda>s. files s path = old) (rd_create e path) (\<lambda>_ s. files s path \<noteq> None) (\<lambda>_ s. files s path = old)"
    by (rule hoare_conseq [OF create_hoare [OF assms(2)]]) auto
  then show "hoare (\<lambda>s. files s path = old \<and> (os_is_not_exist er \<longrightarrow> old = None))
      (case Inl er of Inr _ \<Rightarrow> retP () | Inl er \<Rightarrow> if \<not> os_is_not_exist er then raiseP (Wrapf ''inspect readiness: %w'' [] er)
         else rd_create e path) (\<lambda>_ s. files s path \<noteq> None) (\<lambda>_ s. files s path = old)"
    by (auto intro!: hoare_if hoare_raise elim: hoare_conseq)
qed (auto intro: hoare_ret)

lemma calls_rd: "calls_only (\<lambda>_. True) (rd_clear e path m)" "calls_only (\<lambda>_. True) (rd_publish e path)"
proof -
  show "calls_only (\<lambda>_. True) (rd_clear e path m)" unfolding rd_clear_def by (intro calls_rules TrueI)
  show "calls_only (\<lambda>_. True) (rd_publish e path)"
    unfolding rd_publish_def rd_create_def os_CreateTemp_def or_close_def by (intro calls_rules TrueI)
qed

lemma tr_more:
  "world.more s' = world.more s \<Longrightarrow> tr_path s' = tr_path s \<and> tr_nat s' = tr_nat s \<and> tr_ports s' = tr_ports s"
  by (cases s; cases s') simp

lemma modified [simp]: "files (s\<lparr>tr_nat := b\<rparr>) = files s" "files (s\<lparr>tr_ports := b\<rparr>) = files s"
  by (cases s, simp)+

definition reported :: "string \<Rightarrow> gerr option \<Rightarrow> bool \<times> bool \<Rightarrow> bool \<times> bool" where
  "reported component err f = (if component = ''hostnat'' then (err = None, snd f) else (fst f, err = None))"

lemma report_result:
  assumes "honest e" and p: "\<And>r. path_dir (tr_path s) @ ''/.pasturestack-network-ready-'' @ r \<noteq> tr_path s"
    and c: "component \<in> {''hostnat'', ''hostports''}" and h: "tr_Report e component err s = (r, s')"
  shows "tr_path s' = tr_path s \<and> (tr_nat s', tr_ports s') = reported component err (tr_nat s, tr_ports s)
    \<and> (r = Inr () \<longrightarrow> (files s' (tr_path s) \<noteq> None \<longleftrightarrow> tr_nat s' \<and> tr_ports s'))
    \<and> (r \<noteq> Inr () \<longrightarrow> files s' (tr_path s) = files s (tr_path s))"
proof -
  define s1 where "s1 = (if component = ''hostnat'' then s\<lparr>tr_nat := (err = None)\<rparr> else s\<lparr>tr_ports := (err = None)\<rparr>)"
  have s1: "tr_path s1 = tr_path s" "(tr_nat s1, tr_ports s1) = reported component err (tr_nat s, tr_ports s)"
    "files s1 = files s" by (auto simp: s1_def reported_def)
  let ?m = "if \<not> (tr_nat s1 \<and> tr_ports s1) then rd_clear e (tr_path s) ''clear unhealthy readiness: %w'' else rd_publish e (tr_path s)"
  have m: "?m s1 = (r, s')"
    using h c s1(1) by (auto simp: tr_Report_def bindP_def modifyP_def getP_def s1_def split: if_splits)
  have "calls_only (\<lambda>_. True) ?m" by (simp add: calls_rd)
  from calls_onlyD [OF this m] have w: "world.more s' = world.more s1" by simp
  note f = tr_more [OF w]
  have "hoare (\<lambda>s. files s (tr_path s1) = files s1 (tr_path s1)) ?m
     (\<lambda>_ s'. files s' (tr_path s1) \<noteq> None \<longleftrightarrow> tr_nat s1 \<and> tr_ports s1) (\<lambda>_ s'. files s' (tr_path s1) = files s1 (tr_path s1))"
    using clear_hoare [OF assms(1), of "tr_path s1" "files s1 (tr_path s1)"]
      publish_hoare [OF assms(1), of "tr_path s1" "files s1 (tr_path s1)"] p
    by (auto simp: s1(1) elim!: hoare_conseq)
  note h' = this
  show ?thesis
    using hoare_okD [OF h' refl] hoare_errD [OF h' refl] m f s1 by (cases r) auto
qed

text \<open>The marker stands only while it is deserved.  After any report of a firewall watcher, whatever file
  operation failed, a marker file means that both watchers' latest reports are successes - or the report
  itself returned an error and the marker was there before; a failing report never creates one.\<close>

theorem marker_only_when_healthy:
  assumes "honest e" and "\<forall>r. path_dir (tr_path s) @ ''/.pasturestack-network-ready-'' @ r \<noteq> tr_path s"
    and "component \<in> {''hostnat'', ''hostports''}" and "tr_Report e component err s = (r, s')"
    and "files s' (tr_path s') \<noteq> None"
  shows "(tr_nat s' \<and> tr_ports s') \<or> (r \<noteq> Inr () \<and> files s (tr_path s) \<noteq> None)"
  using report_result [OF assms(1) _ assms(3,4)] assms(2,5) by (cases "r = Inr ()") auto

section \<open>From start-up on\<close>

text \<open>The reports of a run, one after the other; a report's error is logged by the caller and ends the run
  considered here.\<close>

definition rd_run :: "env \<Rightarrow> (string \<times> gerr option) list \<Rightarrow> ('a tracker_scheme, unit) proc" where
  "rd_run e reports =
     bindP (rd_New e DefaultPath) (\<lambda>_. forP (\<lambda>(component, err). tr_Report e component err) reports)"

definition latest_ok :: "string \<Rightarrow> (string \<times> gerr option) list \<Rightarrow> bool" where
  "latest_ok component reports =
     (case find (\<lambda>r. fst r = component) (rev reports) of None \<Rightarrow> False | Some r \<Rightarrow> snd r = None)"

lemma latest_ok_snoc: "latest_ok c (rs @ [r]) = (if fst r = c then snd r = None else latest_ok c rs)"
  by (simp add: latest_ok_def)

lemma default_temp: "path_dir DefaultPath @ ''/.pasturestack-network-ready-'' @ r \<noteq> DefaultPath"
  by (simp add: DefaultPath_def path_dir_def)

lemma forP_snoc: "forP f (xs @ [x]) = bindP (forP f xs) (\<lambda>_. f x)"
proof (induction xs)
  case (Cons y ys)
  then show ?case by (auto simp: bindP_def fun_eq_iff split: prod.splits sum.splits)
qed (auto simp: bindP_def retP_def fun_eq_iff split: prod.splits sum.splits)

lemma bindP_assoc: "bindP (bindP m f) g = bindP m (\<lambda>x. bindP (f x) g)"
  by (auto simp: bindP_def fun_eq_iff split: prod.splits sum.splits)

lemma bindP_Inr: "bindP m f s = (Inr y, s') \<longleftrightarrow> (\<exists>x t. m s = (Inr x, t) \<and> f x t = (Inr y, s'))"
  by (auto simp: bindP_def split: prod.splits sum.splits)

lemma run_state:
  assumes "honest e" and "\<forall>r \<in> set reports. fst r \<in> {''hostnat'', ''hostports''}"
    and "rd_run e reports s = (Inr (), s')"
  shows "tr_path s' = DefaultPath \<and> tr_nat s' = latest_ok ''hostnat'' reports \<and> tr_ports s' = latest_ok ''hostports'' reports
    \<and> (files s' DefaultPath \<noteq> None \<longleftrightarrow> latest_ok ''hostnat'' reports \<and> latest_ok ''hostports'' reports)"
  using assms(2,3)
proof (induction reports arbitrary: s' rule: rev_induct)
  case Nil
  have ne: "DefaultPath \<noteq> []" by (simp add: DefaultPath_def)
  note h = clear_hoare [OF assms(1), of DefaultPath "files s DefaultPath" "''clear stale readiness: %w''"]
  from Nil.prems(2) obtain x t where t: "rd_clear e DefaultPath ''clear stale readiness: %w'' s = (Inr x, t)"
    and s': "s' = t\<lparr>tr_path := DefaultPath, tr_nat := False, tr_ports := False\<rparr>"
    by (auto simp: rd_run_def rd_New_def ne bindP_Inr retP_def modifyP_def)
  have "files t DefaultPath = None" using hoare_okD [OF h refl t] .
  then show ?case by (simp add: s' latest_ok_def)
next
  case (snoc r reports)
  obtain c err where r: "r = (c, err)" by (cases r)
  from snoc.prems(2) obtain t where t: "rd_run e reports s = (Inr (), t)" "tr_Report e c err t = (Inr (), s')"
    by (auto simp: rd_run_def forP_snoc bindP_assoc [symmetric] bindP_Inr r)
  have ih: "tr_path t = DefaultPath \<and> tr_nat t = latest_ok ''hostnat'' reports \<and> tr_ports t = latest_ok ''hostports'' reports"
    using snoc.IH [OF _ t(1)] snoc.prems(1) by simp
  have "c \<in> {''hostnat'', ''hostports''}" using snoc.prems(1) r by simp
  from report_result [OF assms(1) _ this t(2)] ih default_temp
  show ?case using \<open>c \<in> {''hostnat'', ''hostports''}\<close> by (auto simp: latest_ok_snoc r reported_def)
qed

text \<open>Readiness is exact: from a start-up that cleared a stale marker, and as long as the tracker reports no
  file error, the marker file exists exactly when both firewall watchers have reported and the latest
  report of each is a success.\<close>

theorem readiness_exact:
  assumes "honest e" and "\<forall>r \<in> set reports. fst r \<in> {''hostnat'', ''hostports''}"
    and "rd_run e reports s = (Inr (), s')"
  shows "files s' DefaultPath \<noteq> None \<longleftrightarrow> latest_ok ''hostnat'' reports \<and> latest_ok ''hostports'' reports"
  using run_state [OF assms] by blast

definition ex_tracker :: "unit tracker_scheme" where
  "ex_tracker = \<lparr>trace = [], files = [DefaultPath \<mapsto> ''stale''], tr_path = [], tr_nat = True, tr_ports = True\<rparr>"

lemma quiet_honest: "honest quiet_env"
  by (simp add: honest_def quiet_env_def)

theorem readiness_exact_witness:
  "\<exists>s'. rd_run quiet_env [(''hostnat'', None), (''hostports'', Some (EnvErr ''x'')), (''hostports'', None)] ex_tracker = (Inr (), s')
     \<and> files s' DefaultPath \<noteq> None"
proof -
  let ?rs = "[(''hostnat'', None), (''hostports'', Some (EnvErr ''x'')), (''hostports'', None)]"
  obtain r s' where h: "rd_run quiet_env ?rs ex_tracker = (r, s')" by fastforce
  have "fst (rd_run quiet_env ?rs ex_tracker) = Inr ()" by code_simp
  with h have r: "rd_run quiet_env ?rs ex_tracker = (Inr (), s')" by simp
  have "\<forall>r \<in> set ?rs. fst r \<in> {''hostnat'', ''hostports''}" "latest_ok ''hostnat'' ?rs" "latest_ok ''hostports'' ?rs"
    by code_simp+
  with readiness_exact [OF quiet_honest _ r] r show ?thesis by blast
qed

text \<open>A report of failure while the marker stands removes it.\<close>

theorem marker_only_when_healthy_witness:
  "\<exists>r s'. tr_Report quiet_env ''hostports'' None (ex_tracker\<lparr>tr_path := DefaultPath, tr_ports := False\<rparr>) = (r, s')
     \<and> files s' (tr_path s') \<noteq> None \<and> ((tr_nat s' \<and> tr_ports s') \<or> r \<noteq> Inr ())"
proof -
  let ?s = "ex_tracker\<lparr>tr_path := DefaultPath, tr_ports := False\<rparr>"
  obtain r s' where h: "tr_Report quiet_env ''hostports'' None ?s = (r, s')" by fastforce
  have "(case snd (tr_Report quiet_env ''hostports'' None ?s) of s' \<Rightarrow> files s' (tr_path s')) \<noteq> None" by code_simp
  with h have "files s' (tr_path s') \<noteq> None" by simp
  with marker_only_when_healthy [OF quiet_honest _ _ h] h default_temp show ?thesis by fastforce
qed

end
