(* ===== verification/Sweep.thy ===== *)
theory Sweep
  imports World
begin

text \<open>
  What several watchers do in the same way: run over a list, ask the outside to remove or correct some
  of the elements, log a failure and go on.  One lemma says which calls such a loop makes; the
  interval of a watcher that sleeps before its next round is here too.
\<close>

section \<open>Best effort\<close>

text \<open>\<open>if err := m; err != nil { logrus.Errorf(...) }\<close>.\<close>

definition ignoring :: "('s, 'a) proc \<Rightarrow> ('s, unit) proc" where
  "ignoring m = bindP (tryP m) (\<lambda>_. retP ())"

definition sweepP :: "env \<Rightarrow> ('x \<Rightarrow> call option) \<Rightarrow> 'x list \<Rightarrow> ('a world_scheme, unit) proc" where
  "sweepP e sel xs = forP (\<lambda>x. case sel x of None \<Rightarrow> retP () | Some c \<Rightarrow> ignoring (perform e c)) xs"

definition calls_of :: "event list \<Rightarrow> call list" where
  "calls_of u = map fst u"

lemma calls_of_simps [simp]:
  "calls_of [] = []" "calls_of (ev # u) = fst ev # calls_of u" "calls_of (u @ v) = calls_of u @ calls_of v"
  by (simp_all add: calls_of_def)

lemma ignoring_perform: "ignoring (perform e c) s = (Inr (), after e c s)"
  by (simp add: ignoring_def bindP_def tryP_def perform_def ask_def retP_def)

lemma ignoring_inr: "\<exists>s'. ignoring m s = (Inr (), s')"
  by (simp add: ignoring_def bindP_def tryP_def retP_def split: prod.splits)

lemma emits_ignoring [emits_rules]: "emits C m \<Longrightarrow> emits C (ignoring m)"
  unfolding ignoring_def by (intro emits_rules)

lemma calls_ignoring [calls_rules]: "calls_only C m \<Longrightarrow> calls_only C (ignoring m)"
  unfolding ignoring_def by (intro calls_rules)

lemma in_map_filter: "y \<in> set (List.map_filter f xs) \<longleftrightarrow> (\<exists>x \<in> set xs. f x = Some y)"
  by (induction xs) (auto simp: map_filter_simps split: option.split)

lemma emits_sweep [emits_rules]: "(\<And>x c. sel x = Some c \<Longrightarrow> C c) \<Longrightarrow> emits C (sweepP e sel xs)"
  unfolding sweepP_def
  by (rule emits_for) (auto intro: emits_basic(1) emits_ignoring emits_basic(5) split: option.split)

text \<open>The calls of a sweep: one for each selected element, in order, whatever fails; the program's own state
  is untouched.\<close>

lemma sweep_exact:
  "\<exists>s' u. sweepP e sel xs s = (Inr (), s') \<and> trace s' = trace s @ u \<and> calls_of u = List.map_filter sel xs
     \<and> world.more s' = world.more s"
proof (induction xs arbitrary: s)
  case Nil
  show ?case by (simp add: sweepP_def retP_def map_filter_simps)
next
  case (Cons x xs)
  show ?case
  proof (cases "sel x")
    case None
    have "sweepP e sel (x # xs) s = sweepP e sel xs s" by (simp add: sweepP_def None bindP_def retP_def)
    then show ?thesis using Cons.IH [of s] by (simp add: map_filter_simps None)
  next
    case (Some c)
    let ?t = "after e c s"
    have eq: "sweepP e sel (x # xs) s = sweepP e sel xs ?t"
      by (simp add: sweepP_def Some bindP_def ignoring_perform)
    from Cons.IH [of ?t] obtain s' u where u: "sweepP e sel xs ?t = (Inr (), s')" "trace s' = trace ?t @ u"
      "calls_of u = List.map_filter sel xs" "world.more s' = world.more ?t" by blast
    have "trace s' = trace s @ ((c, outcome e c s) # u)" using u(2) by simp
    then show ?thesis using eq u by (intro exI [of _ s'] exI [of _ "(c, outcome e c s) # u"]) (simp add: map_filter_simps Some)
  qed
qed

text \<open>The same as a triple on what was called since \<open>t\<close>.\<close>

abbreviation called :: "event list \<Rightarrow> (call list \<Rightarrow> bool) \<Rightarrow> 'a world_scheme \<Rightarrow> bool" where
  "called t P \<equiv> since t (\<lambda>u. P (calls_of u))"

lemma called_start: "P [] \<Longrightarrow> called (trace s) P s"
  by (simp add: since_def)

lemma hoare_sweep:
  assumes "\<And>cs. P cs \<Longrightarrow> Q (cs @ List.map_filter sel xs)"
  shows "hoare (called t P) (sweepP e sel xs :: ('a world_scheme, unit) proc) (\<lambda>_. called t Q) E"
proof (rule hoareI)
  fix s s' :: "'a world_scheme" and x assume P: "called t P s" and r: "sweepP e sel xs s = (Inr x, s')"
  from P obtain v where v: "trace s = t @ v" "P (calls_of v)" by (auto simp: since_def)
  from sweep_exact [of e sel xs s] r obtain u where u: "trace s' = trace s @ u" "calls_of u = List.map_filter sel xs" by auto
  show "called t Q s'" unfolding since_def using u v assms [OF v(2)] by (intro exI [of _ "v @ u"]) simp
next
  fix s s' :: "'a world_scheme" and er assume "sweepP e sel xs s = (Inl er, s')"
  with sweep_exact [of e sel xs s] show "E er s'" by auto
qed

lemma hoare_called_ask:
  assumes "\<And>cs s. P cs \<Longrightarrow> Q (f s) (cs @ [c])" and "\<And>cs. P cs \<Longrightarrow> R (cs @ [c])"
  shows "hoare (called t P) (ask e c f) (\<lambda>x. called t (Q x)) (\<lambda>_. called t R)"
  by (rule hoare_ask) (auto simp: since_def intro: assms)

section \<open>The pause before a round\<close>

text \<open>\<open>timeSinceLastApplied < syncInterval\<close> sleeps for the difference; the zero time is longer ago than any
  interval.\<close>

definition pause :: "env \<Rightarrow> int \<Rightarrow> int option \<Rightarrow> ('a world_scheme, unit) proc" where
  "pause e interval lastApplied =
     bindP (time_Now e) (\<lambda>now.
       case lastApplied of
         None \<Rightarrow> retP ()
       | Some t \<Rightarrow> whenP (now - t < interval) (time_Sleep (interval - (now - t))))"

lemma emits_pause [emits_rules]: "C Clock \<Longrightarrow> (\<And>d. C (Sleep d)) \<Longrightarrow> emits C (pause e interval lastApplied)"
  unfolding pause_def by (intro emits_rules) simp_all

text \<open>The sleeps add up: the round starts at least \<open>interval\<close> after the last one ended, and a sleep is never
  longer than the interval.\<close>

lemma pause_run:
  assumes "pause e interval lastApplied s = (r, s')"
  shows "r = Inr () \<and> world.more s' = world.more s \<and> (\<exists>u. trace s' = trace s @ u \<and>
    (\<forall>t0. lastApplied = Some t0 \<longrightarrow>
       (if interval \<le> e_now e (trace s) - t0 then calls_of u = [Clock]
        else calls_of u = [Clock, Sleep (interval - (e_now e (trace s) - t0))])))"
  using assms
  by (cases lastApplied)
    (auto simp: pause_def bindP_def time_Now_def retP_def whenP_def time_Sleep_def split: if_splits)

end
