(* ===== verification/Frames.thy ===== *)
theory Frames
  imports AtomicFile Identity Sweep
begin

text \<open>
  What a procedure leaves alone.  \<open>frame I m\<close> says that \<open>m\<close> keeps the assertion \<open>I\<close> however it returns; it is
  closed under the control structures, so for most procedures only their calls have to be looked at.
  \<open>kept p d\<close>, the content of one existing file, is the assertion most often framed.
\<close>

named_theorems frame_rules \<open>closure rules for frame\<close>

definition frame :: "('s \<Rightarrow> bool) \<Rightarrow> ('s, 'a) proc \<Rightarrow> bool" where
  "frame I m \<longleftrightarrow> hoare I m (\<lambda>_. I) (\<lambda>_. I)"

lemma frameI: "hoare I m (\<lambda>_. I) (\<lambda>_. I) \<Longrightarrow> frame I m"
  by (simp add: frame_def)

lemma frameD: "frame I m \<Longrightarrow> I s \<Longrightarrow> m s = (r, s') \<Longrightarrow> I s'"
  unfolding frame_def by (rule keepsD)

lemma frame_hoare: "frame I m \<Longrightarrow> hoare I m (\<lambda>_. I) (\<lambda>_. I)"
  by (simp add: frame_def)

lemma frame_basic [frame_rules]: "frame I (retP x)" "frame I (raiseP er)" "frame I (liftP r)" "frame I (getP f)"
  by (auto simp: frame_def hoare_def retP_def raiseP_def liftP_def getP_def split: sum.split)

lemma frame_range_keys [frame_rules]: "frame I (range_keys e m)"
  unfolding range_keys_def by (rule frame_basic)

lemma frame_bind [frame_rules]: "frame I m \<Longrightarrow> (\<And>x. frame I (f x)) \<Longrightarrow> frame I (bindP m f)"
  unfolding frame_def by (rule hoare_bind)

lemma frame_wrap [frame_rules]: "frame I m \<Longrightarrow> frame I (wrapP g m)"
  unfolding frame_def by (rule hoare_wrap)

lemma frame_try [frame_rules]: "frame I m \<Longrightarrow> frame I (tryP m)"
  unfolding frame_def by (rule hoare_try)

lemma frame_ignoring [frame_rules]: "frame I m \<Longrightarrow> frame I (ignoring m)"
  unfolding ignoring_def by (intro frame_rules)

lemma frame_control [frame_rules]:
  "(b \<Longrightarrow> frame I m0) \<Longrightarrow> frame I (whenP b m0)" "(b \<Longrightarrow> frame I m) \<Longrightarrow> (\<not> b \<Longrightarrow> frame I m') \<Longrightarrow> frame I (if b then m else m')"
  "frame I m \<Longrightarrow> (\<And>y. frame I (f y)) \<Longrightarrow> frame I (case x of None \<Rightarrow> m | Some y \<Rightarrow> f y)"
  "(\<And>y. frame I (g y)) \<Longrightarrow> (\<And>z. frame I (h z)) \<Longrightarrow> frame I (case w of Inl y \<Rightarrow> g y | Inr z \<Rightarrow> h z)"
  "(\<And>a b. frame I (k a b)) \<Longrightarrow> frame I (case p of (a, b) \<Rightarrow> k a b)" "frame I (j v) \<Longrightarrow> frame I (Let v j)"
  by (auto simp: whenP_def frame_basic(1) split: option.split sum.split prod.split)

lemma frame_for [frame_rules]: "(\<And>x. x \<in> set xs \<Longrightarrow> frame I (f x)) \<Longrightarrow> frame I (forP f xs)"
  by (induction xs) (auto intro: frame_basic(1) frame_bind)

lemma frame_fold [frame_rules]: "(\<And>x acc. x \<in> set xs \<Longrightarrow> frame I (f x acc)) \<Longrightarrow> frame I (foldP f xs acc)"
  by (induction xs arbitrary: acc) (auto intro: frame_basic(1) frame_bind)

lemma frame_finally [frame_rules]: "frame I m \<Longrightarrow> frame I c \<Longrightarrow> frame I (finallyP m c)"
  unfolding frame_def by (rule hoare_finally)

text \<open>A loop over the keys of a map meets only its keys.\<close>

lemma range_keys_set: "range_keys e m s = (r, s') \<Longrightarrow> s' = s \<and> (\<exists>ks. r = Inr ks \<and> set ks = fst ` set m \<and> (wf_map m \<longrightarrow> distinct ks))"
proof -
  assume h: "range_keys e m s = (r, s')"
  let ?o = "e_order e (trace s) (map fst m)"
  let ?ks = "if mset ?o = mset (map fst m) then ?o else map fst m"
  have "mset ?ks = mset (map fst m)" by simp
  then have "set ?ks = set (map fst m)" "distinct ?ks = distinct (map fst m)"
    by (metis mset_eq_setD, metis mset_eq_imp_distinct_iff)
  then show ?thesis using h by (auto simp: range_keys_def getP_def Let_def wf_map_def)
qed

lemma hoare_range:
  "hoare P (range_keys e m) (\<lambda>ks s. P s \<and> set ks = fst ` set m \<and> (wf_map m \<longrightarrow> distinct ks)) (\<lambda>_ _. False)"
  by (rule hoareI) (auto dest: range_keys_set)

lemma hoare_bind_range:
  assumes "\<And>ks. set ks = fst ` set m \<Longrightarrow> (wf_map m \<Longrightarrow> distinct ks) \<Longrightarrow> hoare P (f ks) Q E"
  shows "hoare P (bindP (range_keys e m) f) Q E"
proof -
  have "case bindP (range_keys e m) f s of (Inr x, s') \<Rightarrow> Q x s' | (Inl er, s') \<Rightarrow> E er s'" if P: "P s" for s
  proof -
    from range_keys_set [of e m s] obtain ks where ks: "range_keys e m s = (Inr ks, s)" "set ks = fst ` set m" "wf_map m \<longrightarrow> distinct ks"
      by (metis prod.collapse)
    have "hoare P (f ks) Q E" using assms ks(2,3) by blast
    then show ?thesis using P ks(1) by (auto simp: hoare_def bindP_def)
  qed
  then show ?thesis by (simp add: hoare_def)
qed

lemma frame_range:
  assumes "\<And>ks. set ks = fst ` set m \<Longrightarrow> frame I (f ks)"
  shows "frame I (bindP (range_keys e m) f)"
  by (rule frameI, rule hoare_bind_range, rule frame_hoare [OF assms])

text \<open>Reading a field whose value is known.\<close>

lemma hoare_bind_get:
  assumes "\<And>s. P s \<Longrightarrow> g s = w" and "hoare P (f w) Q E"
  shows "hoare P (bindP (getP g) f) Q E"
  using assms by (auto simp: hoare_def bindP_def getP_def)

section \<open>A file that stays as it is\<close>

definition kept :: "string \<Rightarrow> string \<Rightarrow> 'a world_scheme \<Rightarrow> bool" where
  "kept p d s \<longleftrightarrow> files s p = Some d"

lemma keptD: "frame (kept p d) m \<Longrightarrow> m s = (r, s') \<Longrightarrow> files s p = Some d \<Longrightarrow> files s' p = Some d"
  using frameD [of "kept p d" m s r s'] by (simp add: kept_def)

lemma kept_ask [frame_rules]: "p \<notin> touches c \<Longrightarrow> frame (kept p d) (ask e c f)"
  by (rule frameI, rule hoare_ask) (simp_all add: kept_def after_untouched)

lemma kept_perform [frame_rules]: "p \<notin> touches c \<Longrightarrow> frame (kept p d) (perform e c)"
  unfolding perform_def by (rule kept_ask)

lemma kept_calls [frame_rules]:
  "p \<notin> touches c \<Longrightarrow> frame (kept p d) (text_of e c)" "frame (kept p d) (time_Now e)" "frame (kept p d) (time_Sleep n)"
  "frame (kept p d) (dc_ContainerInspect e cid)" "frame (kept p d) (dc_ContainerList e)" "frame (kept p d) (os_Lstat e q)"
  "frame (kept p d) (os_LstatDir e q)" "frame (kept p d) (getNetworks e)" "frame (kept p d) (getHosts e)"
  "frame (kept p d) (getSelfHost e)" "frame (kept p d) (getContainers e)" "frame (kept p d) (getServices e)"
  "frame (kept p d) (os_ReadFile e q)"
  unfolding text_of_def dc_ContainerInspect_def dc_ContainerList_def os_Lstat_def os_LstatDir_def getNetworks_def getHosts_def
    getSelfHost_def getContainers_def getServices_def os_ReadFile_def
  by (auto intro: kept_ask) (auto simp: frame_def hoare_def time_Now_def time_Sleep_def kept_def)

lemma kept_modify [frame_rules]: "(\<And>s. files (f s) = files s) \<Longrightarrow> frame (kept p d) (modifyP f)"
  by (simp add: frame_def hoare_def modifyP_def kept_def)

lemma kept_host [frame_rules]: "frame (kept p d) (LocalHostUUID e)" "frame (kept p d) (LocalHost e)"
  unfolding LocalHost_def LocalHostUUID_def localHostUUIDFromDockerLabels_def currentContainerID_def Let_def
  by (intro frame_rules)+

text \<open>A temporary file is a new file.\<close>

lemma kept_create: "hoare (kept p d) (os_CreateTemp e dir pre) (\<lambda>name s. kept p d s \<and> name \<noteq> p) (\<lambda>_. kept p d)"
proof -
  have c: "hoare (kept p d) (perform e (CreateTemp name)) (\<lambda>_ s. kept p d s \<and> name \<noteq> p) (\<lambda>_. kept p d)" for name
  proof (cases "name = p")
    case True
    show ?thesis by (rule hoare_perform) (auto simp: True kept_def outcome_def after_def split: option.splits)
  next
    case False
    then show ?thesis by (intro hoare_perform) (simp_all add: kept_def after_untouched)
  qed
  show ?thesis unfolding os_CreateTemp_def
    by (rule hoare_bind [where R = "\<lambda>_. kept p d"], rule hoare_get, assumption, rule hoare_bind [OF c], rule hoare_ret, assumption)
qed

lemma kept_with_tmp:
  assumes "\<And>name. name \<noteq> p \<Longrightarrow> frame (kept p d) (f name)"
  shows "frame (kept p d) (bindP (wrapP g (os_CreateTemp e dir pre)) f)" "frame (kept p d) (bindP (os_CreateTemp e dir pre) f)"
proof -
  have "hoare (\<lambda>s. kept p d s \<and> name \<noteq> p) (f name) (\<lambda>_. kept p d) (\<lambda>_. kept p d)" for name
    using assms [of name] by (cases "name = p") (simp_all add: hoare_def frame_def)
  then show "frame (kept p d) (bindP (wrapP g (os_CreateTemp e dir pre)) f)" "frame (kept p d) (bindP (os_CreateTemp e dir pre) f)"
    by (auto intro!: frameI intro: hoare_bind [OF hoare_wrap [OF kept_create]] hoare_bind [OF kept_create])
qed

end
