(* ===== verification/Parts.thy ===== *)
theory Parts
  imports Frames
begin

text \<open>
  Components side by side: a procedure of one component run on its part of a larger state, which shares the
  history and the files with the others.
\<close>

definition inside :: "('a world_scheme \<Rightarrow> 'p) \<Rightarrow> ('p \<Rightarrow> 'a world_scheme \<Rightarrow> 'a world_scheme) \<Rightarrow> ('p world_scheme, 'b) proc \<Rightarrow>
    ('a world_scheme, 'b) proc" where
  "inside part put m =
     (\<lambda>s. case m (\<lparr>trace = trace s, files = files s, \<dots> = part s\<rparr>) of
        (r, t) \<Rightarrow> (r, put (world.more t) (s\<lparr>trace := trace t, files := files t\<rparr>)))"

lemma inside_run:
  assumes "inside part put m s = (r, s')"
  obtains t where "m (\<lparr>trace = trace s, files = files s, \<dots> = part s\<rparr>) = (r, t)"
    "s' = put (world.more t) (s\<lparr>trace := trace t, files := files t\<rparr>)"
  using assms by (auto simp: inside_def split: prod.splits)

text \<open>A file that is neither created nor changed nor removed.\<close>

definition same :: "string \<Rightarrow> string option \<Rightarrow> 'a world_scheme \<Rightarrow> bool" where
  "same p x s \<longleftrightarrow> files s p = x"

lemma frame_run: "(\<And>s r s'. I s \<Longrightarrow> m s = (r, s') \<Longrightarrow> I s') \<Longrightarrow> frame I m"
  by (intro frameI hoareI) blast+

lemma world_back [simp]: "\<lparr>trace = trace t, files = files t, \<dots> = world.more t\<rparr> = t" for t :: "'a world_scheme"
  by (cases t) simp

text \<open>A part that leaves a file alone leaves it alone in the larger state.\<close>

lemma inside_same:
  assumes "\<And>x. frame (same p x) m" and "inside part put m s = (r, s')"
  obtains w f t where "s' = put w (s\<lparr>trace := t, files := f\<rparr>)" "f p = files s p"
proof -
  from assms(2) obtain t where t: "m (\<lparr>trace = trace s, files = files s, \<dots> = part s\<rparr>) = (r, t)"
    and s': "s' = put (world.more t) (s\<lparr>trace := trace t, files := files t\<rparr>)" by (rule inside_run)
  have "same p (files s p) t" by (rule frameD [OF assms(1) _ t]) (simp add: same_def)
  then show thesis using that [OF s'] by (simp add: same_def)
qed

lemma same_ask [frame_rules]: "p \<notin> touches c \<Longrightarrow> frame (same p x) (ask e c f)"
  by (rule frameI, rule hoare_ask) (simp_all add: same_def after_untouched)

lemma same_calls [frame_rules]:
  "p \<notin> touches c \<Longrightarrow> frame (same p x) (perform e c)" "p \<notin> touches c \<Longrightarrow> frame (same p x) (text_of e c)"
  "frame (same p x) (time_Now e)" "frame (same p x) (time_Sleep n)" "frame (same p x) (dc_ContainerInspect e cid)"
  "frame (same p x) (getNetworks e)" "frame (same p x) (getHosts e)" "frame (same p x) (getSelfHost e)"
  "frame (same p x) (getContainers e)" "frame (same p x) (getServices e)" "frame (same p x) (os_ReadFile e q)"
  unfolding perform_def text_of_def dc_ContainerInspect_def getNetworks_def getHosts_def getSelfHost_def getContainers_def
    getServices_def os_ReadFile_def
  by (auto intro: same_ask) (auto simp: frame_def hoare_def time_Now_def time_Sleep_def same_def)

lemma same_modify [frame_rules]: "(\<And>s. files (f s) = files s) \<Longrightarrow> frame (same p x) (modifyP f)"
  by (simp add: frame_def hoare_def modifyP_def same_def)

lemma same_host [frame_rules]: "frame (same p x) (LocalHostUUID e)" "frame (same p x) (LocalHost e)"
  unfolding LocalHost_def LocalHostUUID_def localHostUUIDFromDockerLabels_def currentContainerID_def Let_def
  by (intro frame_rules)+

lemma same_create:
  assumes "\<And>r. dir @ ''/'' @ pre @ r \<noteq> p" and "\<And>name. name \<noteq> p \<Longrightarrow> frame (same p x) (f name)"
  shows "frame (same p x) (bindP (os_CreateTemp e dir pre) f)"
proof -
  have step: "frame (same p x) (bindP (bindP (perform e (CreateTemp name)) (\<lambda>_. retP name)) f)" if "name \<noteq> p" for name
  proof -
    have "bindP (bindP (perform e (CreateTemp name)) (\<lambda>_. retP name)) f = bindP (perform e (CreateTemp name)) (\<lambda>_. f name)"
      by (auto simp: bindP_def retP_def fun_eq_iff split: prod.splits sum.splits)
    then show ?thesis using that assms(2) [OF that] by (auto intro!: frame_bind same_calls(1))
  qed
  have "same p x s'" if s: "same p x s" and run: "bindP (os_CreateTemp e dir pre) f s = (r, s')" for s r s'
  proof -
    let ?name = "dir @ ''/'' @ pre @ e_rand e (trace s)"
    have "bindP (bindP (perform e (CreateTemp ?name)) (\<lambda>_. retP ?name)) f s = (r, s')"
      using run by (simp add: os_CreateTemp_def bindP_def getP_def)
    from frameD [OF step [OF assms(1)] s this] show ?thesis .
  qed
  then show ?thesis by (intro frameI hoareI)
qed

end
