(* ===== verification/FirewallSystem.thy ===== *)
theory FirewallSystem
  imports Reconcile Readiness Parts
begin

text \<open>
  The two firewall watchers and the readiness tracker together, as \<open>run\<close> in \<open>src/main.go\<close> connects them: the
  outcome a watcher reports goes to the tracker, whose own error is logged.  The watchers' reconciles and
  repairs interleave in any order; each runs as a whole, as its mutex demands, and the tracker has its own.
\<close>

section \<open>The system\<close>

text \<open>The last field records what the tracker was told and whether it could act on it.\<close>

record fw_state = world +
  fs_ports :: "unit hp_state_ext"
  fs_nat :: "unit hn_state_ext"
  fs_tracker :: "unit tracker_ext"
  fs_told :: "((string \<times> gerr option) \<times> bool) list"

abbreviation in_ports :: "(unit hp_state_ext world_scheme, 'b) proc \<Rightarrow> (fw_state, 'b) proc" where
  "in_ports \<equiv> inside fs_ports (\<lambda>p. fs_ports_update (\<lambda>_. p))"

abbreviation in_nat :: "(unit hn_state_ext world_scheme, 'b) proc \<Rightarrow> (fw_state, 'b) proc" where
  "in_nat \<equiv> inside fs_nat (\<lambda>p. fs_nat_update (\<lambda>_. p))"

abbreviation in_tracker :: "(unit tracker_ext world_scheme, 'b) proc \<Rightarrow> (fw_state, 'b) proc" where
  "in_tracker \<equiv> inside fs_tracker (\<lambda>p. fs_tracker_update (\<lambda>_. p))"

fun component_name :: "component \<Rightarrow> string" where
  "component_name HostNAT = ''hostnat''"
| "component_name HostPorts = ''hostports''"

definition tell :: "env \<Rightarrow> component \<Rightarrow> gerr option \<Rightarrow> (fw_state, unit) proc" where
  "tell e cpt err =
     bindP (tryP (in_tracker (tr_Report e (component_name cpt) err))) (\<lambda>r.
       modifyP (\<lambda>s. s\<lparr>fs_told := fs_told s @ [((component_name cpt, err), r = Inr ())]\<rparr>))"

definition ports_attempt :: "env \<Rightarrow> Backend \<Rightarrow> (fw_state, unit) proc" where
  "ports_attempt e backend =
     bindP (tryP (in_ports (hp_onChangeLocked e backend False))) (\<lambda>r. tell e HostPorts (err_of r))"

definition ports_repair :: "env \<Rightarrow> Backend \<Rightarrow> (fw_state, unit) proc" where
  "ports_repair e backend =
     bindP (tryP (in_ports (if be_Mode backend = NFTables then checkNFTRules e else insertBaseRules e backend))) (\<lambda>r.
     bindP (whenP (err_of r \<noteq> None) (tell e HostPorts (err_of r))) (\<lambda>_.
     bindP (tryP (in_ports (hp_onChangeLocked e backend (err_of r \<noteq> None)))) (\<lambda>r'.
       tell e HostPorts (err_of r'))))"

definition nat_attempt :: "env \<Rightarrow> Backend \<Rightarrow> (fw_state, unit) proc" where
  "nat_attempt e backend = bindP (tryP (in_nat (hn_onChange e backend))) (\<lambda>r. tell e HostNAT (err_of r))"

definition nat_check :: "env \<Rightarrow> Backend \<Rightarrow> (fw_state, unit) proc" where
  "nat_check e backend =
     bindP (in_nat (getP hn_lastApplied)) (\<lambda>lastApplied.
       if lastApplied = None then retP ()
       else
         bindP (tryP (in_nat (checkNativeState e backend))) (\<lambda>r.
           case r of
             Inr _ \<Rightarrow> retP ()
           | Inl er \<Rightarrow>
               bindP (tell e HostNAT (Some (Wrapf ''hostnat native nft state lost: %w'' [] er))) (\<lambda>_.
               bindP (in_nat (getP hn_applied)) (\<lambda>applied.
               bindP (tryP (in_nat (if errors_is er errNativeHookMismatch then applyNFTReplacing e backend applied
                            else hn_apply e backend applied))) (\<lambda>r'.
                 tell e HostNAT (err_of r'))))))"

inductive fw_step :: "env \<Rightarrow> Backend \<Rightarrow> fw_state \<Rightarrow> fw_state \<Rightarrow> bool" for e backend where
  ports: "fw_step e backend s (snd (ports_attempt e backend s))"
| repair: "fw_step e backend s (snd (ports_repair e backend s))"
| nat: "fw_step e backend s (snd (nat_attempt e backend s))"
| native: "be_Mode backend = NFTables \<Longrightarrow> fw_step e backend s (snd (nat_check e backend s))"

section \<open>The tickers\<close>

text \<open>\<open>n\<close> ticks of the host-port watcher's and of the outbound NAT watcher's repair loop, and the entry that reconciles once
  under the lock.\<close>

definition hp_repairBaseRulesNoError :: "env \<Rightarrow> Backend \<Rightarrow> nat \<Rightarrow> ('a hp_state_scheme, unit) proc" where
  "hp_repairBaseRulesNoError e backend n = forP (\<lambda>_. ignoring (hp_repairOnce e backend)) [0..<n]"

definition hn_watchNativeState :: "env \<Rightarrow> Backend \<Rightarrow> nat \<Rightarrow> ('a hn_state_scheme, unit) proc" where
  "hn_watchNativeState e backend n = forP (\<lambda>_. reconcileNativeState e backend) [0..<n]"

definition hp_onChange :: "env \<Rightarrow> Backend \<Rightarrow> ('a hp_state_scheme, unit) proc" where
  "hp_onChange e backend = hp_onChangeLocked e backend False"

lemma emits_hp_check: "emits (\<lambda>c. \<not> is_report c) (if be_Mode backend = NFTables then checkNFTRules e else insertBaseRules e backend)"
  unfolding checkNFTRules_def insertBaseRules_def hook_step_def ensureForwardJumpFirst_def outside_code Let_def
  by (intro emits_rules) simp_all

text \<open>A repair hides nothing: the last thing it reports is the outcome it returns, and before it at most that the rules had
  been lost.\<close>

lemma repair_reports:
  assumes "hp_repairOnce e backend s = (r, s')"
  shows "\<exists>u lost. trace s' = trace s @ u \<and> reports_of u = map (\<lambda>er. (HostPorts, Some er)) lost @ [(HostPorts, err_of r)] \<and> length lost \<le> 1"
proof -
  let ?check = "if be_Mode backend = NFTables then checkNFTRules e else insertBaseRules e backend"
  obtain q t where c: "?check s = (q, t)" by fastforce
  from emitsD [OF emits_hp_check c] obtain u where u: "trace t = trace s @ u" "reports_of u = []"
    using reports_none by (auto simp: since_def)
  define t1 where "t1 = (if err_of q = None then t else t\<lparr>trace := trace t @ [(Report HostPorts (err_of q), None)]\<rparr>)"
  define lost where "lost = (case err_of q of None \<Rightarrow> [] | Some er \<Rightarrow> [er])"
  have t1: "\<exists>u1. trace t1 = trace s @ u1 \<and> reports_of u1 = map (\<lambda>er. (HostPorts, Some er)) lost"
    using u by (cases "err_of q") (auto simp: t1_def lost_def intro!: exI [of _ "u @ [(Report HostPorts (err_of q), None)]"])
  obtain q' t' where m: "hp_onChangeLocked e backend (err_of q \<noteq> None) t1 = (q', t')" by fastforce
  from emitsD [OF emits_hp_change m] obtain v where v: "trace t' = trace t1 @ v" "reports_of v = []"
    using reports_none by (auto simp: since_def)
  have "r = q'" "s' = t'\<lparr>trace := trace t' @ [(Report HostPorts (err_of q'), None)]\<rparr>"
    using assms m unfolding hp_repairOnce_def
    by (auto simp: bindP_def tryP_def c whenP_def report_def retP_def liftP_def t1_def split: if_splits)
  then show ?thesis using t1 v
    by (auto intro!: exI [of _ lost] simp: lost_def split: option.split)
qed

section \<open>The watchers leave the marker alone\<close>

lemma marker_outside:
  "DefaultPath \<noteq> rl_path b" "DefaultPath \<noteq> routeLocalnetStatePath"
  "path_dir routeLocalnetStatePath @ ''/'' @ ''.route-localnet-'' @ r \<noteq> DefaultPath"
  by (simp_all add: DefaultPath_def rl_path_def routeLocalnetStatePath_def path_dir_def)

lemma same_newRules [frame_rules]: "frame (same p x) (hp_newRules e)"
  unfolding hp_newRules_def networksByUUID_def network_step_def container_step_def resolveContainerIPv4_def
    inspectRunningContainerPID_def readContainerNamespaceIPv4_def Let_def
  by (intro frame_rules) simp_all

lemma same_switch [frame_rules]: "frame (same DefaultPath x) (setBridgeRouteLocalnet e b v)"
  unfolding setBridgeRouteLocalnet_def by (intro frame_rules) (simp add: marker_outside)

lemma same_or_close [frame_rules]: "frame (same p x) m \<Longrightarrow> frame (same p x) (or_close e name m)"
  unfolding or_close_def by (intro frame_rules) simp_all

lemma same_save [frame_rules]: "frame (same DefaultPath x) (saveRouteLocalnetState e routeLocalnetStatePath m)"
proof -
  have "frame (same DefaultPath x) (bindP (os_CreateTemp e (path_dir routeLocalnetStatePath) ''.route-localnet-'') (\<lambda>name.
      finallyP
        (bindP (or_close e name (perform e (ChmodFile name 384))) (\<lambda>_.
         bindP (or_close e name (perform e (WriteTemp name (marshal_state m)))) (\<lambda>_.
         bindP (or_close e name (perform e (SyncFile name))) (\<lambda>_.
         bindP (perform e (CloseFile name)) (\<lambda>_.
           perform e (RenameFile name routeLocalnetStatePath))))))
        (perform e (RemoveFile name))))"
    by (rule same_create [OF marker_outside(3)]) (intro frame_rules; simp add: marker_outside(2))
  then show ?thesis unfolding saveRouteLocalnetState_def
    by (intro frame_control(2) frame_basic(1) frame_bind [OF same_calls(1)]) simp_all
qed

lemma same_hp_apply [frame_rules]: "frame (same DefaultPath x) (hp_apply e backend rules)"
  unfolding hp_apply_def applyNFT_def apply_xt_def insertBaseRules_def hook_step_def ensureForwardJumpFirst_def
    applied_now_def restoreRemovedRouteLocalnet_def activateRouteLocalnet_def next_original_def readBridgeRouteLocalnet_def Let_def
  by (intro frame_rules) simp_all

lemma same_hp [frame_rules]:
  "frame (same DefaultPath x) (hp_onChangeLocked e backend force)" "frame (same DefaultPath x) (checkNFTRules e)"
  "frame (same DefaultPath x) (insertBaseRules e backend)"
  unfolding hp_onChangeLocked_def checkNFTRules_def insertBaseRules_def hook_step_def ensureForwardJumpFirst_def Let_def
  by (intro frame_rules; simp)+

lemma same_hn_apply [frame_rules]:
  "frame (same p x) (hn_apply e backend rules)" "frame (same p x) (applyNFTReplacing e backend rules)"
  unfolding hn_apply_def applyNFTReplacing_def hn_apply_xt_def applyNFTScript_def hn_finish_def flushIKEConntrack_def
    enableLocalNetRouting_def nat_nft_def nat_restore_def hn_insertBaseRules_def Let_def
  by (intro frame_rules; simp)+

lemma same_hn [frame_rules]:
  "frame (same p x) (hn_onChange e backend)" "frame (same p x) (checkNativeState e backend)"
  unfolding hn_onChange_def hn_newRules_def masq_step_def addIKESNATRules_def flushStaleIKEConntrack_def stale_step_def
    ListSNAT_def CTEntryDelete_def checkNativeState_def Let_def
  by (intro frame_rules; simp)+

section \<open>The marker of the whole system\<close>

text \<open>After start-up: the tracker as \<open>New\<close> leaves it, the watchers in any state, nothing told yet.\<close>

definition fw_init :: "unit hp_state_ext \<Rightarrow> unit hn_state_ext \<Rightarrow> unit tracker_scheme \<Rightarrow> fw_state" where
  "fw_init p n t =
     \<lparr>trace = trace t, files = files t, fs_ports = p, fs_nat = n, fs_tracker = world.more t, fs_told = []\<rparr>"

definition view :: "fw_state \<Rightarrow> unit tracker_scheme" where
  "view s = \<lparr>trace = trace s, files = files s, \<dots> = fs_tracker s\<rparr>"

definition healthy :: "fw_state \<Rightarrow> bool" where
  "healthy s \<longleftrightarrow> latest_ok ''hostnat'' (map fst (fs_told s)) \<and> latest_ok ''hostports'' (map fst (fs_told s))"

text \<open>The latest report, if any, was carried out.\<close>

definition carried_out :: "fw_state \<Rightarrow> bool" where
  "carried_out s \<longleftrightarrow> fs_told s = [] \<or> snd (last (fs_told s))"

text \<open>The tracker knows the latest outcome of each watcher, and the marker agrees unless the file operation of the
  latest report failed.\<close>

definition fw_inv :: "fw_state \<Rightarrow> bool" where
  "fw_inv s \<longleftrightarrow> tr_path (view s) = DefaultPath
     \<and> tr_nat (view s) = latest_ok ''hostnat'' (map fst (fs_told s))
     \<and> tr_ports (view s) = latest_ok ''hostports'' (map fst (fs_told s))
     \<and> (carried_out s \<longrightarrow> (files s DefaultPath \<noteq> None \<longleftrightarrow> healthy s))"

lemma view_fields:
  "fs_tracker s' = fs_tracker s \<Longrightarrow> tr_path (view s') = tr_path (view s) \<and> tr_nat (view s') = tr_nat (view s)
     \<and> tr_ports (view s') = tr_ports (view s)"
  by (rule tr_more) (simp add: view_def)

lemma inv_tell: assumes "honest e" shows "frame fw_inv (tell e cpt err)"
proof (rule frame_run)
  fix s r s'
  assume inv: "fw_inv s" and run: "tell e cpt err s = (r, s')"
  let ?c = "component_name cpt"
  obtain q t where t: "tr_Report e ?c err (view s) = (q, t)" by fastforce
  have s': "s' = s\<lparr>trace := trace t, files := files t, fs_tracker := world.more t, fs_told := fs_told s @ [((?c, err), q = Inr ())]\<rparr>"
    using run t by (auto simp: tell_def inside_def view_def bindP_def tryP_def modifyP_def)
  have c: "?c \<in> {''hostnat'', ''hostports''}" by (cases cpt) simp_all
  have path: "tr_path (view s) = DefaultPath" using inv by (simp add: fw_inv_def)
  have v: "view s' = t" "fs_told s' = fs_told s @ [((?c, err), q = Inr ())]" "files s' = files t" by (simp_all add: s' view_def)
  from report_result [OF assms _ c t] path default_temp
  have res: "tr_path t = DefaultPath" "(tr_nat t, tr_ports t) = reported ?c err (tr_nat (view s), tr_ports (view s))"
    "q = Inr () \<Longrightarrow> (files t DefaultPath \<noteq> None \<longleftrightarrow> tr_nat t \<and> tr_ports t)" by auto
  have flags: "tr_nat t = latest_ok ''hostnat'' (map fst (fs_told s'))" "tr_ports t = latest_ok ''hostports'' (map fst (fs_told s'))"
    using res(2) inv by (cases cpt; simp add: v latest_ok_snoc reported_def fw_inv_def)+
  show "fw_inv s'"
    using res(1,3) flags by (auto simp: fw_inv_def v(1,3) carried_out_def healthy_def v(2))
qed

lemma fw_inv_cong:
  assumes "fs_told s' = fs_told s" and "fs_tracker s' = fs_tracker s" and "files s' DefaultPath = files s DefaultPath"
  shows "fw_inv s' = fw_inv s"
  using assms view_fields [OF assms(2)] by (simp add: fw_inv_def carried_out_def healthy_def)

lemma inv_ports: "(\<And>x. frame (same DefaultPath x) m) \<Longrightarrow> frame fw_inv (in_ports m)"
  by (rule frame_run, erule inside_same [rotated]) (auto intro: fw_inv_cong [THEN iffD2])

lemma inv_nat: "(\<And>x. frame (same DefaultPath x) m) \<Longrightarrow> frame fw_inv (in_nat m)"
  by (rule frame_run, erule inside_same [rotated]) (auto intro: fw_inv_cong [THEN iffD2])

lemma inv_steps:
  assumes "honest e"
  shows "frame fw_inv (ports_attempt e backend)" "frame fw_inv (ports_repair e backend)" "frame fw_inv (nat_attempt e backend)"
    "frame fw_inv (nat_check e backend)"
  unfolding ports_attempt_def ports_repair_def nat_attempt_def nat_check_def
  by (intro frame_rules inv_ports inv_nat inv_tell [OF assms])+

lemma inv_init:
  assumes "honest e" and "rd_New e DefaultPath t0 = (Inr (), t)"
  shows "fw_inv (fw_init p n t)"
proof -
  have "rd_run e [] t0 = (Inr (), t)" using assms(2) by (simp add: rd_run_def bindP_def retP_def)
  from run_state [OF assms(1) _ this]
  have run: "tr_path t = DefaultPath" "\<not> tr_nat t" "\<not> tr_ports t" "files t DefaultPath = None" by (simp_all add: latest_ok_def)
  have "view (fw_init p n t) = t" by (cases t) (simp add: view_def fw_init_def)
  then show ?thesis using run by (simp add: fw_inv_def carried_out_def healthy_def latest_ok_def fw_init_def)
qed

lemma inv_reached:
  assumes "(fw_step e backend)\<^sup>*\<^sup>* s s'" and "honest e" and "fw_inv s"
  shows "fw_inv s'"
  using assms(1)
proof (induction rule: rtranclp_induct)
  case (step y z)
  from step.hyps(2) step.IH show ?case
    by (cases rule: fw_step.cases) (auto intro: frameD [OF inv_steps(1) [OF assms(2)] _ surjective_pairing]
        frameD [OF inv_steps(2) [OF assms(2)] _ surjective_pairing] frameD [OF inv_steps(3) [OF assms(2)] _ surjective_pairing]
        frameD [OF inv_steps(4) [OF assms(2)] _ surjective_pairing])
qed (fact assms(3))


text \<open>Both watchers find their rules in place: a host with an identity and no workload.\<close>

definition fw_ex_env :: env where
  "fw_ex_env = quiet_env\<lparr>e_selfHost := (\<lambda>_. zero_Host\<lparr>host_UUID := ''h1''\<rparr>), e_hosts := (\<lambda>_. [zero_Host\<lparr>host_UUID := ''h1''\<rparr>])\<rparr>"

definition fw_ex_begin :: fw_state where
  "fw_ex_begin =
     fw_init (world.more (ex_hp\<lparr>hp_lastApplied := Some 0\<rparr>))
       (hn_state_ext \<lparr>nr_MASQ = Some [], nr_IKE = Some []\<rparr> (Some 0) (Some 0) ()) (snd (rd_New fw_ex_env DefaultPath ex_tracker))"

definition fw_ex_xt :: Backend where
  "fw_ex_xt = \<lparr>be_Mode = IptablesLegacy, be_Command = ''iptables'', be_Restore = ''iptables-restore''\<rparr>"


end
