(* ===== verification/ConntrackSync.thy ===== *)
theory ConntrackSync
  imports Conntrack Identity Sweep HostPortRules
begin

text \<open>
  \<open>src/conntracksync/watcher.go\<close>: connection-tracking entries that lead to a container address which is
  not the current one are deleted, for destination and for source translations.
\<close>

section \<open>Which address a published port leads to\<close>

definition ct_key :: "string \<Rightarrow> string \<Rightarrow> string \<Rightarrow> string" where
  "ct_key ip port protocol = ip @ '':'' @ port @ ''/'' @ protocol"

text \<open>The key of one port definition; a definition without three parts has none.\<close>

definition port_key :: "string \<Rightarrow> string option" where
  "port_key aPort =
     (case str_split CHR '':'' aPort of
        [hostIP, hostPort, targetPort] \<Rightarrow>
          Some (ct_key hostIP hostPort
            (case str_split CHR ''/'' targetPort of [_, protocol] \<Rightarrow> protocol | _ \<Rightarrow> ''tcp''))
      | _ \<Rightarrow> None)"

definition put_port :: "Container \<Rightarrow> string \<Rightarrow> Container gomap \<Rightarrow> Container gomap" where
  "put_port c aPort m = (case port_key aPort of None \<Rightarrow> m | Some k \<Rightarrow> mput k c m)"

definition add_ports :: "Host \<Rightarrow> Container \<Rightarrow> Container gomap \<Rightarrow> Container gomap" where
  "add_ports host c m =
     (if \<not> (ctr_HostUUID c = host_UUID host \<and> ctr_Ports c \<noteq> []) then m else fold (put_port c) (ctr_Ports c) m)"

definition containersMap :: "Host \<Rightarrow> Container list \<Rightarrow> Container gomap" where
  "containersMap host containers = fold (add_ports host) containers []"

definition buildContainersMaps :: "env \<Rightarrow> ('a world_scheme, Container gomap) proc" where
  "buildContainersMaps e =
     bindP (LocalHost e) (\<lambda>host. bindP (getContainers e) (\<lambda>containers. retP (containersMap host containers)))"

section \<open>The sweep\<close>

definition ct_lookup :: "Container gomap \<Rightarrow> string \<Rightarrow> string \<Rightarrow> string \<Rightarrow> Container option" where
  "ct_lookup m ip port protocol =
     (case map_of m (ct_key ip port protocol) of
        Some c \<Rightarrow> Some c
      | None \<Rightarrow> map_of m (ct_key ''0.0.0.0'' port protocol))"

definition dnat_owner :: "Container gomap \<Rightarrow> CTEntry \<Rightarrow> Container option" where
  "dnat_owner m entry = ct_lookup m (ce_OriginalDestinationIP entry) (ce_OriginalDestinationPort entry) (ce_Protocol entry)"

definition snat_owner :: "Container gomap \<Rightarrow> CTEntry \<Rightarrow> Container option" where
  "snat_owner m entry = ct_lookup m (ce_ReplyDestinationIP entry) (ce_ReplyDestinationPort entry) (ce_Protocol entry)"

definition dnat_call :: "Container gomap \<Rightarrow> CTEntry \<Rightarrow> call option" where
  "dnat_call m entry =
     (case dnat_owner m entry of
        None \<Rightarrow> None
      | Some c \<Rightarrow> if ctr_PrimaryIp c \<noteq> [] \<and> ce_ReplySourceIP entry \<noteq> ctr_PrimaryIp c then Some (Run (delete_args entry)) else None)"

definition snat_call :: "Container gomap \<Rightarrow> CTEntry \<Rightarrow> call option" where
  "snat_call m entry =
     (case snat_owner m entry of
        None \<Rightarrow> None
      | Some c \<Rightarrow> if ctr_PrimaryIp c \<noteq> [] \<and> ce_OriginalSourceIP entry \<noteq> ctr_PrimaryIp c then Some (Run (delete_args entry)) else None)"

definition sync_tables :: "env \<Rightarrow> Container gomap \<Rightarrow> ('a world_scheme, unit) proc" where
  "sync_tables e m =
     bindP (ListDNAT e) (\<lambda>dCTEntries.
     bindP (sweepP e (dnat_call m) dCTEntries) (\<lambda>_.
     bindP (ListSNAT e) (\<lambda>sCTEntries.
       sweepP e (snat_call m) sCTEntries)))"

definition cs_doSync :: "env \<Rightarrow> ('a world_scheme, unit) proc" where
  "cs_doSync e = bindP (buildContainersMaps e) (sync_tables e)"

section \<open>The watcher\<close>

record cs_state = world +
  cs_syncInterval :: int
  cs_lastApplied :: "int option"

definition DefaultSyncInterval :: int where "DefaultSyncInterval = 5"

text \<open>\<open>time.Duration(syncInterval) * time.Second\<close>; the interval stays an unbounded integer here.\<close>

definition sync_interval :: "string \<Rightarrow> int" where
  "sync_interval s = (case atoi s of Some i \<Rightarrow> i | None \<Rightarrow> DefaultSyncInterval) * second"

definition cs_Watch :: "string \<Rightarrow> ('a cs_state_scheme, unit) proc" where
  "cs_Watch syncIntervalStr =
     modifyP (\<lambda>s. s\<lparr>cs_syncInterval := sync_interval syncIntervalStr, cs_lastApplied := None\<rparr>)"

definition cs_onChangeNoError :: "env \<Rightarrow> ('a cs_state_scheme, unit) proc" where
  "cs_onChangeNoError e =
     bindP (getP cs_lastApplied) (\<lambda>lastApplied.
     bindP (getP cs_syncInterval) (\<lambda>interval.
     bindP (pause e interval lastApplied) (\<lambda>_.
     bindP (ignoring (cs_doSync e)) (\<lambda>_.
     bindP (time_Now e) (\<lambda>now. modifyP (\<lambda>s. s\<lparr>cs_lastApplied := Some now\<rparr>))))))"

section \<open>Properties\<close>

text \<open>Who is in the map: the containers of this host, under the keys of their ports.\<close>

lemma put_port_in: "map_of (put_port c p m) k = Some d \<Longrightarrow> map_of m k = Some d \<or> d = c \<and> port_key p = Some k"
  by (auto simp: put_port_def update_conv split: option.splits if_splits)

lemma put_ports_in:
  "map_of (fold (put_port c) ps m) k = Some d \<Longrightarrow> map_of m k = Some d \<or> d = c \<and> (\<exists>p \<in> set ps. port_key p = Some k)"
proof (induction ps arbitrary: m)
  case (Cons p ps)
  then have "map_of (fold (put_port c) ps (put_port c p m)) k = Some d" by simp
  from Cons.IH [OF this] put_port_in [of c p m k d] show ?case by auto
qed simp

definition publishes :: "Host \<Rightarrow> Container \<Rightarrow> string \<Rightarrow> bool" where
  "publishes host c k \<longleftrightarrow> ctr_HostUUID c = host_UUID host \<and> (\<exists>p \<in> set (ctr_Ports c). port_key p = Some k)"

lemma containersMap_in:
  assumes "map_of (containersMap host cs) k = Some c"
  shows "c \<in> set cs \<and> publishes host c k"
proof -
  have "map_of (fold (add_ports host) cs m) k = Some c \<Longrightarrow> map_of m k = Some c \<or> c \<in> set cs \<and> publishes host c k" for m
  proof (induction cs arbitrary: m)
    case (Cons d cs)
    then have "map_of (fold (add_ports host) cs (add_ports host d m)) k = Some c" by simp
    from Cons.IH [OF this] show ?case
      by (auto simp: add_ports_def publishes_def split: if_splits dest: put_ports_in)
  qed simp
  from this [of "[]"] assms show ?thesis by (simp add: containersMap_def)
qed

lemma ct_lookup_in:
  assumes "ct_lookup (containersMap host cs) ip port protocol = Some c"
  shows "c \<in> set cs \<and> (publishes host c (ct_key ip port protocol) \<or> publishes host c (ct_key ''0.0.0.0'' port protocol))"
  using assms containersMap_in unfolding ct_lookup_def by (auto split: option.splits)

text \<open>The entry leads somewhere else than the container that publishes its port on this host.\<close>

definition stale_dnat :: "Host \<Rightarrow> Container list \<Rightarrow> CTEntry \<Rightarrow> bool" where
  "stale_dnat host cs en \<longleftrightarrow> (\<exists>c \<in> set cs. ctr_PrimaryIp c \<noteq> [] \<and> ce_ReplySourceIP en \<noteq> ctr_PrimaryIp c
     \<and> (\<exists>ip \<in> {ce_OriginalDestinationIP en, ''0.0.0.0''}. publishes host c (ct_key ip (ce_OriginalDestinationPort en) (ce_Protocol en))))"

definition stale_snat :: "Host \<Rightarrow> Container list \<Rightarrow> CTEntry \<Rightarrow> bool" where
  "stale_snat host cs en \<longleftrightarrow> (\<exists>c \<in> set cs. ctr_PrimaryIp c \<noteq> [] \<and> ce_OriginalSourceIP en \<noteq> ctr_PrimaryIp c
     \<and> (\<exists>ip \<in> {ce_ReplyDestinationIP en, ''0.0.0.0''}. publishes host c (ct_key ip (ce_ReplyDestinationPort en) (ce_Protocol en))))"

lemma dnat_call_stale:
  assumes "dnat_call (containersMap host cs) en = Some x"
  shows "x = Run (delete_args en) \<and> stale_dnat host cs en"
proof -
  from assms obtain c where c: "dnat_owner (containersMap host cs) en = Some c" "x = Run (delete_args en)"
    "ctr_PrimaryIp c \<noteq> []" "ce_ReplySourceIP en \<noteq> ctr_PrimaryIp c"
    by (auto simp: dnat_call_def split: option.splits if_splits)
  from ct_lookup_in [OF c(1) [unfolded dnat_owner_def]] c(2-4) show ?thesis unfolding stale_dnat_def by blast
qed

lemma snat_call_stale:
  assumes "snat_call (containersMap host cs) en = Some x"
  shows "x = Run (delete_args en) \<and> stale_snat host cs en"
proof -
  from assms obtain c where c: "snat_owner (containersMap host cs) en = Some c" "x = Run (delete_args en)"
    "ctr_PrimaryIp c \<noteq> []" "ce_OriginalSourceIP en \<noteq> ctr_PrimaryIp c"
    by (auto simp: snat_call_def split: option.splits if_splits)
  from ct_lookup_in [OF c(1) [unfolded snat_owner_def]] c(2-4) show ?thesis unfolding stale_snat_def by blast
qed

abbreviation dnat_list :: call where "dnat_list \<equiv> Output [''conntrack'', ''-g'', ''-L'']"
abbreviation snat_list :: call where "snat_list \<equiv> Output [''conntrack'', ''-n'', ''-L'']"

definition listed :: "env \<Rightarrow> event list \<Rightarrow> call \<Rightarrow> CTEntry list" where
  "listed e h c = (let out = e_text e h c in if out = [] then [] else parseMultipleEntries out)"

lemma list_run:
  "ListDNAT e s = (case outcome e dnat_list s of None \<Rightarrow> Inr (listed e (trace s) dnat_list) | Some er \<Rightarrow> Inl er, after e dnat_list s)"
  "ListSNAT e s = (case outcome e snat_list s of None \<Rightarrow> Inr (listed e (trace s) snat_list) | Some er \<Rightarrow> Inl er, after e snat_list s)"
  by (simp_all add: ListDNAT_def ListSNAT_def bindP_def text_of_def ask_def retP_def listed_def Let_def split: option.split)


text \<open>One container of this host, known by its \<open>/self/host\<close> answer, that publishes port 80 and has moved.\<close>

definition moved_env :: env where
  "moved_env = quiet_env\<lparr>e_selfHost := (\<lambda>_. zero_Host\<lparr>host_UUID := ''h1''\<rparr>),
     e_containers := (\<lambda>_. [zero_Container\<lparr>ctr_HostUUID := ''h1'', ctr_PrimaryIp := ''10.42.0.9'', ctr_Ports := [''192.0.2.1:80:8080'']\<rparr>]),
     e_text := (\<lambda>_ c. if c = dnat_list then row_line (''6'', ''431999'', [''ESTABLISHED''], ex_tcp) @ nl else [])\<rparr>"

definition ex_start :: cs_state where
  "ex_start = \<lparr>trace = [], files = (\<lambda>_. None), cs_syncInterval = 5 * second, cs_lastApplied = None\<rparr>"

lemma moved_runs:
  "fst (LocalHost moved_env ex_start) = Inr (zero_Host\<lparr>host_UUID := ''h1''\<rparr>)" "fst (cs_doSync moved_env ex_start) = Inr ()"
  "listed moved_env h dnat_list = [ex_tcp]"
  "List.map_filter (dnat_call (containersMap (zero_Host\<lparr>host_UUID := ''h1''\<rparr>) (e_containers moved_env h'))) [ex_tcp] = [Run (delete_args ex_tcp)]"
  by code_simp+


text \<open>Whether it succeeds or fails, a synchronisation changes nothing but the connection-tracking table, and
  deletes only entries that lead to another address than the container publishing their port on this
  host.\<close>

theorem conntrack_sync_safe:
  assumes "LocalHost e s = (Inr host, t)" and "cs_doSync e s = (r, s')"
  shows "\<exists>u. trace s' = trace t @ u \<and> (\<forall>c \<in> set (calls_of u). reads_only c
    \<or> (\<exists>en. c = Run (delete_args en) \<and> (stale_dnat host (e_containers e (trace t)) en \<or> stale_snat host (e_containers e (trace t)) en)))"
proof -
  let ?m = "containersMap host (e_containers e (trace t))"
  let ?ok = "\<lambda>c. reads_only c \<or> (\<exists>en. c = Run (delete_args en)
    \<and> (stale_dnat host (e_containers e (trace t)) en \<or> stale_snat host (e_containers e (trace t)) en))"
  have em: "emits ?ok (sync_tables e ?m)"
    unfolding sync_tables_def ListDNAT_def ListSNAT_def
    by (intro emits_rules) (auto dest: dnat_call_stale snat_call_stale)
  have start: "trace (after e GetContainers t) = trace t @ [(GetContainers, outcome e GetContainers t)]" by simp
  show ?thesis
  proof (cases "outcome e GetContainers t")
    case None
    then have run: "sync_tables e ?m (after e GetContainers t) = (r, s')"
      using assms by (simp add: cs_doSync_def buildContainersMaps_def bindP_def getContainers_def ask_def retP_def)
    from emitsD [OF em run] obtain u where "trace s' = trace (after e GetContainers t) @ u" "\<forall>ev \<in> set u. ?ok (fst ev)"
      by (auto simp: since_def)
    then show ?thesis by (intro exI [of _ "(GetContainers, outcome e GetContainers t) # u"]) (auto simp: calls_of_def)
  next
    case (Some er)
    then have "s' = after e GetContainers t"
      using assms by (simp add: cs_doSync_def buildContainersMaps_def bindP_def getContainers_def ask_def)
    then show ?thesis by (intro exI [of _ "[(GetContainers, outcome e GetContainers t)]"]) simp
  qed
qed

theorem conntrack_sync_safe_witness:
  "\<exists>s'. cs_doSync moved_env ex_start = (Inr (), s') \<and> (\<exists>t u. trace s' = t @ u
     \<and> (\<forall>c \<in> set (calls_of u). reads_only c \<or> (\<exists>en. c = Run (delete_args en))))"
proof -
  obtain t where t: "LocalHost moved_env ex_start = (Inr (zero_Host\<lparr>host_UUID := ''h1''\<rparr>), t)"
    using moved_runs(1) by (cases "LocalHost moved_env ex_start") simp
  obtain s' where s': "cs_doSync moved_env ex_start = (Inr (), s')"
    using moved_runs(2) by (cases "cs_doSync moved_env ex_start") simp
  from conntrack_sync_safe [OF t s'] show ?thesis using s' by blast
qed

end
