(* ===== verification/Reaper.thy ===== *)
theory Reaper
  imports Identity Sweep
begin

text \<open>
  \<open>src/reaper/watcher.go\<close>: containers of this host whose label names another container than the metadata
  record does are orphans of an interrupted replacement and are removed; the metadata and DNS services,
  which the orchestration owns, never are.
\<close>

definition uuidLabel :: string where "uuidLabel = ''io.rancher.container.uuid''"
definition serviceNameLabel :: string where "serviceNameLabel = ''io.rancher.stack_service.name''"
definition metadataService :: string where "metadataService = ''network-services/metadata''"
definition dnsService :: string where "dnsService = ''network-services/metadata/dns''"

definition managedDependency :: "Container \<Rightarrow> bool" where
  "managedDependency c \<longleftrightarrow>
     (let name = mget [] (ctr_Labels c) serviceNameLabel in
      (name = metadataService \<or> name = dnsService)
      \<or> (ctr_StackName c = ''network-services''
         \<and> (ctr_ServiceName c = ''metadata'' \<or> ctr_ServiceName c = ''metadata/dns'' \<or> ctr_ServiceName c = ''dns'')))"

definition removeContainer :: "env \<Rightarrow> Container \<Rightarrow> ('a world_scheme, unit) proc" where
  "removeContainer e c = ignoring (perform e (ContainerRemove (ctr_ExternalId c)))"

definition reap_step :: "env \<Rightarrow> string \<Rightarrow> Container \<Rightarrow> ('a world_scheme, unit) proc" where
  "reap_step e hostUUID c =
     (if ctr_HostUUID c \<noteq> hostUUID \<or> managedDependency c then retP ()
      else (case map_of (ctr_Labels c) uuidLabel of
          None \<Rightarrow> retP ()
        | Some uuid \<Rightarrow> if ctr_UUID c \<noteq> uuid then removeContainer e c else retP ()))"

definition removeUnmanaged :: "env \<Rightarrow> Container list \<Rightarrow> string \<Rightarrow> ('a world_scheme, unit) proc" where
  "removeUnmanaged e containers hostUUID = forP (reap_step e hostUUID) containers"

definition rp_onChange :: "env \<Rightarrow> ('a world_scheme, unit) proc" where
  "rp_onChange e =
     bindP (LocalHost e) (\<lambda>host.
     bindP (getContainers e) (\<lambda>containers. removeUnmanaged e containers (host_UUID host)))"

definition rp_onChangeNoError :: "env \<Rightarrow> ('a world_scheme, unit) proc" where
  "rp_onChangeNoError e = ignoring (rp_onChange e)"

section \<open>Properties\<close>

text \<open>An orphan: a container of this host whose label names another container.\<close>

definition orphan :: "Host \<Rightarrow> Container \<Rightarrow> bool" where
  "orphan host c \<longleftrightarrow> ctr_HostUUID c = host_UUID host
     \<and> (\<exists>uuid. map_of (ctr_Labels c) uuidLabel = Some uuid \<and> uuid \<noteq> ctr_UUID c)"

definition reap_call :: "string \<Rightarrow> Container \<Rightarrow> call option" where
  "reap_call hostUUID c =
     (if ctr_HostUUID c \<noteq> hostUUID \<or> managedDependency c then None
      else (case map_of (ctr_Labels c) uuidLabel of
          None \<Rightarrow> None
        | Some uuid \<Rightarrow> if ctr_UUID c \<noteq> uuid then Some (ContainerRemove (ctr_ExternalId c)) else None))"

lemma reap_step_call: "reap_step e hostUUID c = (case reap_call hostUUID c of None \<Rightarrow> retP () | Some x \<Rightarrow> ignoring (perform e x))"
  by (auto simp: reap_step_def reap_call_def removeContainer_def split: option.split)

lemma reap_sweep: "removeUnmanaged e containers hostUUID = sweepP e (reap_call hostUUID) containers"
  unfolding removeUnmanaged_def sweepP_def by (rule arg_cong [where f = "\<lambda>f. forP f containers"]) (rule ext, rule reap_step_call)

lemma reap_calls:
  "List.map_filter (reap_call (host_UUID host)) cs
   = map (ContainerRemove \<circ> ctr_ExternalId) (filter (\<lambda>c. orphan host c \<and> \<not> managedDependency c) cs)"
  by (induction cs) (auto simp: map_filter_simps reap_call_def orphan_def split: option.split)


text \<open>An orphan, a container under its own name, and the DNS service under another name.\<close>

definition reaper_env :: env where
  "reaper_env = quiet_env\<lparr>e_selfHost := (\<lambda>_. zero_Host\<lparr>host_UUID := ''h1''\<rparr>),
     e_containers := (\<lambda>_. [zero_Container\<lparr>ctr_HostUUID := ''h1'', ctr_UUID := ''a'', ctr_ExternalId := ''x1'', ctr_Labels := [(uuidLabel, ''b'')]\<rparr>,
       zero_Container\<lparr>ctr_HostUUID := ''h1'', ctr_UUID := ''c'', ctr_ExternalId := ''x2'', ctr_Labels := [(uuidLabel, ''c'')]\<rparr>,
       zero_Container\<lparr>ctr_HostUUID := ''h1'', ctr_UUID := ''d'', ctr_ExternalId := ''x3'', ctr_StackName := ''network-services'',
         ctr_ServiceName := ''dns'', ctr_Labels := [(uuidLabel, ''e'')]\<rparr>])\<rparr>"

definition reaper_start :: world where
  "reaper_start = \<lparr>trace = [], files = (\<lambda>_. None)\<rparr>"


end
