(* ===== verification/Locks.thy ===== *)
theory Locks
  imports Prelude
begin

text \<open>
  The two lock packages, \<open>src/internal/keylock/keylock.go\<close> and \<open>src/internal/trylock/trylock.go\<close>, under any
  interleaving of their callers.  Code between \<open>Lock\<close> and \<open>Unlock\<close> of a package's own mutex is one step; the
  steps of different calls interleave freely.  A call in progress is a key, the entry it works on and how
  far it is; calls have no identity beyond that, so they form a multiset.  \<open>sync.Once\<close> makes the returned
  function act once: a second use is the step that changes nothing.
\<close>

section \<open>Exclusive access by key\<close>

locale exclusive =
  fixes init :: "'s" and step :: "'s \<Rightarrow> 's \<Rightarrow> bool" and inv :: "'s \<Rightarrow> bool" and holders :: "'s \<Rightarrow> string \<Rightarrow> nat"
    and registered :: "'s \<Rightarrow> string \<Rightarrow> bool" and active :: "'s \<Rightarrow> string \<Rightarrow> nat"
  assumes inv_init: "inv init"
    and inv_step: "inv s \<Longrightarrow> step s s' \<Longrightarrow> inv s'"
    and inv_exclusive: "inv s \<Longrightarrow> holders s k \<le> 1"
    and inv_registered: "inv s \<Longrightarrow> registered s k \<longleftrightarrow> 0 < active s k"
begin

lemma reachable_inv: "step\<^sup>*\<^sup>* init s \<Longrightarrow> inv s"
  by (induction rule: rtranclp_induct) (auto intro: inv_init inv_step)

lemma reachable_exclusive: "step\<^sup>*\<^sup>* init s \<Longrightarrow> holders s k \<le> 1"
  by (rule inv_exclusive [OF reachable_inv])

lemma reachable_no_leak: "step\<^sup>*\<^sup>* init s \<Longrightarrow> registered s k \<longleftrightarrow> 0 < active s k"
  by (rule inv_registered [OF reachable_inv])

end

section \<open>keylock\<close>

datatype kl_phase = Waiting | Holding | Leaving

type_synonym kl_call = "string \<times> nat \<times> kl_phase"

text \<open>Entries live at addresses: \<open>m.entries\<close> maps a key to one, \<open>refs\<close> and the mutex of an entry are read there.\<close>

record kl_state =
  kl_entries :: "string \<Rightarrow> nat option"
  kl_refs :: "nat \<Rightarrow> int"
  kl_locked :: "nat \<Rightarrow> bool"
  kl_fresh :: nat
  kl_calls :: "kl_call multiset"

definition kl_init :: kl_state where
  "kl_init = \<lparr>kl_entries = (\<lambda>_. None), kl_refs = (\<lambda>_. 0), kl_locked = (\<lambda>_. False), kl_fresh = 0, kl_calls = {#}\<rparr>"

text \<open>The entry of \<open>key\<close>, created if there is none; the caller counts itself in.\<close>

definition kl_register :: "string \<Rightarrow> kl_state \<Rightarrow> kl_state" where
  "kl_register key s =
     (case kl_entries s key of
        Some i \<Rightarrow> s\<lparr>kl_refs := (kl_refs s)(i := kl_refs s i + 1), kl_calls := add_mset (key, i, Waiting) (kl_calls s)\<rparr>
      | None \<Rightarrow> let i = kl_fresh s in
          s\<lparr>kl_entries := (kl_entries s)(key \<mapsto> i), kl_refs := (kl_refs s)(i := 1), kl_fresh := Suc i,
            kl_calls := add_mset (key, i, Waiting) (kl_calls s)\<rparr>)"

definition kl_move :: "string \<Rightarrow> nat \<Rightarrow> kl_phase \<Rightarrow> kl_phase \<Rightarrow> kl_state \<Rightarrow> kl_state" where
  "kl_move key i p q s = s\<lparr>kl_calls := add_mset (key, i, q) (kl_calls s - {#(key, i, p)#})\<rparr>"

text \<open>\<open>e.mu.Lock()\<close> returns.\<close>

definition kl_acquire :: "string \<Rightarrow> nat \<Rightarrow> kl_state \<Rightarrow> kl_state" where
  "kl_acquire key i s = (kl_move key i Waiting Holding s)\<lparr>kl_locked := (kl_locked s)(i := True)\<rparr>"

text \<open>\<open>e.mu.Unlock()\<close>.\<close>

definition kl_unlock :: "string \<Rightarrow> nat \<Rightarrow> kl_state \<Rightarrow> kl_state" where
  "kl_unlock key i s = (kl_move key i Holding Leaving s)\<lparr>kl_locked := (kl_locked s)(i := False)\<rparr>"

text \<open>\<open>e.refs--\<close>, and the entry goes with the last one.\<close>

definition kl_leave :: "string \<Rightarrow> nat \<Rightarrow> kl_state \<Rightarrow> kl_state" where
  "kl_leave key i s =
     (let r = kl_refs s i - 1 in
      s\<lparr>kl_refs := (kl_refs s)(i := r), kl_entries := (if r = 0 then (kl_entries s)(key := None) else kl_entries s),
        kl_calls := kl_calls s - {#(key, i, Leaving)#}\<rparr>)"

inductive kl_step :: "kl_state \<Rightarrow> kl_state \<Rightarrow> bool" where
  register: "kl_step s (kl_register key s)"
| acquire: "(key, i, Waiting) \<in># kl_calls s \<Longrightarrow> \<not> kl_locked s i \<Longrightarrow> kl_step s (kl_acquire key i s)"
| unlock: "(key, i, Holding) \<in># kl_calls s \<Longrightarrow> kl_step s (kl_unlock key i s)"
| leave: "(key, i, Leaving) \<in># kl_calls s \<Longrightarrow> kl_step s (kl_leave key i s)"
| again: "kl_step s s"

definition on_entry :: "nat \<Rightarrow> kl_call multiset \<Rightarrow> nat" where
  "on_entry i cs = size (filter_mset (\<lambda>c. fst (snd c) = i) cs)"

definition holding :: "nat \<Rightarrow> kl_call multiset \<Rightarrow> nat" where
  "holding i cs = size (filter_mset (\<lambda>c. snd c = (i, Holding)) cs)"

definition kl_holders :: "kl_state \<Rightarrow> string \<Rightarrow> nat" where
  "kl_holders s k = size (filter_mset (\<lambda>c. fst c = k \<and> snd (snd c) = Holding) (kl_calls s))"

definition kl_active :: "kl_state \<Rightarrow> string \<Rightarrow> nat" where
  "kl_active s k = size (filter_mset (\<lambda>c. fst c = k) (kl_calls s))"

text \<open>Calls work on the entry of their key, which counts them; the mutex of an entry is held by as many calls
  as it is locked times; addresses not handed out are unused.\<close>

definition kl_inv :: "kl_state \<Rightarrow> bool" where
  "kl_inv s \<longleftrightarrow>
     (\<forall>k i p. (k, i, p) \<in># kl_calls s \<longrightarrow> kl_entries s k = Some i)
     \<and> (\<forall>k i. kl_entries s k = Some i \<longrightarrow> i < kl_fresh s \<and> 0 < on_entry i (kl_calls s) \<and> (\<forall>k'. kl_entries s k' = Some i \<longrightarrow> k' = k))
     \<and> (\<forall>i. kl_refs s i = int (on_entry i (kl_calls s)))
     \<and> (\<forall>i. holding i (kl_calls s) = (if kl_locked s i then 1 else 0))"

lemma count_simps [simp]:
  "on_entry i {#} = 0" "on_entry i (add_mset c cs) = (if fst (snd c) = i then Suc (on_entry i cs) else on_entry i cs)"
  "holding i {#} = 0" "holding i (add_mset c cs) = (if snd c = (i, Holding) then Suc (holding i cs) else holding i cs)"
  by (simp_all add: on_entry_def holding_def)

lemma size_pos: "0 < size (filter_mset P cs) \<longleftrightarrow> (\<exists>c. c \<in># cs \<and> P c)"
  by (induction cs) auto

lemma on_entry_pos: "0 < on_entry i cs \<longleftrightarrow> (\<exists>k p. (k, i, p) \<in># cs)"
  unfolding on_entry_def size_pos by auto

lemma take_call: "c \<in># cs \<Longrightarrow> \<exists>cs'. cs = add_mset c cs'"
  by (rule multi_member_split)

lemma kl_invD:
  assumes "kl_inv s"
  shows "(k, i, p) \<in># kl_calls s \<Longrightarrow> kl_entries s k = Some i"
    and "kl_entries s k = Some i \<Longrightarrow> i < kl_fresh s"
    and "kl_entries s k = Some i \<Longrightarrow> 0 < on_entry i (kl_calls s)"
    and "kl_entries s k = Some i \<Longrightarrow> kl_entries s k' = Some i \<Longrightarrow> k' = k"
    and "kl_refs s i = int (on_entry i (kl_calls s))"
    and "holding i (kl_calls s) = (if kl_locked s i then 1 else 0)"
  using assms unfolding kl_inv_def by blast+

lemma kl_invI:
  assumes "\<And>k i p. (k, i, p) \<in># kl_calls s \<Longrightarrow> kl_entries s k = Some i"
    and "\<And>k i. kl_entries s k = Some i \<Longrightarrow> i < kl_fresh s"
    and "\<And>k i. kl_entries s k = Some i \<Longrightarrow> 0 < on_entry i (kl_calls s)"
    and "\<And>k k' i. kl_entries s k = Some i \<Longrightarrow> kl_entries s k' = Some i \<Longrightarrow> k' = k"
    and "\<And>i. kl_refs s i = int (on_entry i (kl_calls s))"
    and "\<And>i. holding i (kl_calls s) = (if kl_locked s i then 1 else 0)"
  shows "kl_inv s"
  using assms unfolding kl_inv_def by blast

lemma kl_inv_register:
  assumes inv: "kl_inv s"
  shows "kl_inv (kl_register key s)"
proof (cases "kl_entries s key")
  case None
  let ?i = "kl_fresh s"
  have unused: "(k, ?i, p) \<notin># kl_calls s" "kl_entries s k \<noteq> Some ?i" for k p
    using kl_invD(1,2) [OF inv] by blast+
  have z: "on_entry ?i (kl_calls s) = 0" using unused(1) on_entry_pos [of ?i "kl_calls s"] by blast
  have nokey: "(key, i, p) \<notin># kl_calls s" for i p using kl_invD(1) [OF inv, of key i p] None by auto
  note reg = kl_register_def None Let_def
  show ?thesis
  proof (rule kl_invI)
    show "kl_entries (kl_register key s) k = Some i" if "(k, i, p) \<in># kl_calls (kl_register key s)" for k i p
      using that nokey kl_invD(1) [OF inv] by (auto simp: reg)
    show "i < kl_fresh (kl_register key s)" if "kl_entries (kl_register key s) k = Some i" for k i
      using that kl_invD(2) [OF inv, of k i] by (auto simp: reg split: if_splits)
    show "0 < on_entry i (kl_calls (kl_register key s))" if "kl_entries (kl_register key s) k = Some i" for k i
      using that kl_invD(3) [OF inv, of k i] by (auto simp: reg split: if_splits)
    show "k' = k" if "kl_entries (kl_register key s) k = Some i" "kl_entries (kl_register key s) k' = Some i" for k k' i
      using that unused(2) kl_invD(4) [OF inv, of k i k'] by (auto simp: reg split: if_splits)
    show "kl_refs (kl_register key s) i = int (on_entry i (kl_calls (kl_register key s)))" for i
      using kl_invD(5) [OF inv, of i] z by (auto simp: reg)
    show "holding i (kl_calls (kl_register key s)) = (if kl_locked (kl_register key s) i then 1 else 0)" for i
      using kl_invD(6) [OF inv, of i] by (simp add: reg)
  qed
next
  case (Some j)
  show ?thesis
  proof (rule kl_invI)
    show "kl_entries (kl_register key s) k = Some i" if "(k, i, p) \<in># kl_calls (kl_register key s)" for k i p
      using that Some kl_invD(1) [OF inv, of k i p] by (auto simp: kl_register_def)
    show "kl_refs (kl_register key s) i = int (on_entry i (kl_calls (kl_register key s)))" for i
      by (simp add: kl_register_def Some kl_invD(5) [OF inv])
    show "holding i (kl_calls (kl_register key s)) = (if kl_locked (kl_register key s) i then 1 else 0)" for i
      using kl_invD(6) [OF inv, of i] by (simp add: kl_register_def Some)
    show "k' = k" if "kl_entries (kl_register key s) k = Some i" "kl_entries (kl_register key s) k' = Some i" for k k' i
      using that kl_invD(4) [OF inv, of k i k'] by (simp add: kl_register_def Some)
  qed (use kl_invD(2,3) [OF inv] in \<open>auto simp: kl_register_def Some\<close>)
qed

text \<open>A call moves on: only the mutex count of its entry can change.\<close>

lemma kl_inv_move:
  assumes inv: "kl_inv s" and c: "(key, i, p) \<in># kl_calls s"
    and h: "(if kl_locked s i then 1 else 0) + (if q = Holding then 1 else 0) = (if b then 1 else 0) + (if p = Holding then 1 else (0 :: nat))"
  shows "kl_inv ((kl_move key i p q s)\<lparr>kl_locked := (kl_locked s)(i := b)\<rparr>)"
proof -
  from take_call [OF c] obtain cs where cs: "kl_calls s = add_mset (key, i, p) cs" by blast
  let ?s = "(kl_move key i p q s)\<lparr>kl_locked := (kl_locked s)(i := b)\<rparr>"
  have calls: "kl_calls ?s = add_mset (key, i, q) cs" and fields: "kl_entries ?s = kl_entries s" "kl_refs ?s = kl_refs s"
    "kl_fresh ?s = kl_fresh s" "kl_locked ?s = (kl_locked s)(i := b)"
    by (simp_all add: kl_move_def cs)
  have on: "on_entry j (kl_calls ?s) = on_entry j (kl_calls s)" for j
    unfolding calls cs by simp
  show ?thesis
  proof (rule kl_invI; (unfold fields on)?)
    show "kl_entries s k = Some j" if "(k, j, r) \<in># kl_calls ?s" for k j r
      using that kl_invD(1) [OF inv, of k j] kl_invD(1) [OF inv c] unfolding calls cs by auto
    show "holding j (kl_calls ?s) = (if ((kl_locked s)(i := b)) j then 1 else 0)" for j
    proof (cases "j = i")
      case True
      have "holding i cs + (if p = Holding then 1 else 0) = (if kl_locked s i then 1 else 0)"
        using kl_invD(6) [OF inv, of i] unfolding cs by (cases p) simp_all
      then show ?thesis using h True unfolding calls by (cases p; cases q; cases b; cases "kl_locked s i") simp_all
    next
      case False
      then show ?thesis using kl_invD(6) [OF inv, of j] unfolding calls cs by simp
    qed
    show "k' = k" if "kl_entries s k = Some j" "kl_entries s k' = Some j" for k k' j
      using kl_invD(4) [OF inv that] .
  qed (use kl_invD(2,3,5) [OF inv] in blast)+
qed

lemma kl_inv_leave:
  assumes inv: "kl_inv s" and c: "(key, i, Leaving) \<in># kl_calls s"
  shows "kl_inv (kl_leave key i s)"
proof -
  from take_call [OF c] obtain cs where cs: "kl_calls s = add_mset (key, i, Leaving) cs" by blast
  let ?s = "kl_leave key i s"
  have key: "kl_entries s key = Some i" by (rule kl_invD(1) [OF inv c])
  have refs: "kl_refs s i - 1 = int (on_entry i cs)" using kl_invD(5) [OF inv, of i] cs by simp
  have calls: "kl_calls ?s = cs" and fresh: "kl_fresh ?s = kl_fresh s" and locked: "kl_locked ?s = kl_locked s"
    and entries: "kl_entries ?s = (if on_entry i cs = 0 then (kl_entries s)(key := None) else kl_entries s)"
    and refs': "kl_refs ?s = (kl_refs s)(i := int (on_entry i cs))"
    by (simp_all add: kl_leave_def Let_def cs refs)
  have old: "kl_entries s k = Some j" if "kl_entries ?s k = Some j" for k j
    using that unfolding entries by (auto split: if_splits)
  show ?thesis
  proof (rule kl_invI; (unfold calls fresh locked)?)
    show "kl_entries ?s k = Some j" if m: "(k, j, p) \<in># cs" for k j p
    proof -
      have e: "kl_entries s k = Some j" using kl_invD(1) [OF inv, of k j p] m cs by simp
      have "on_entry i cs \<noteq> 0" if "k = key" using e key m that on_entry_pos [of i cs] by auto
      then show ?thesis using e unfolding entries by auto
    qed
    show "j < kl_fresh s" if "kl_entries ?s k = Some j" for k j by (rule kl_invD(2) [OF inv old [OF that]])
    show "0 < on_entry j cs" if h: "kl_entries ?s k = Some j" for k j
    proof (cases "j = i")
      case True
      then have "k = key" using kl_invD(4) [OF inv key] old [OF h] by simp
      then show ?thesis using h True unfolding entries by (auto split: if_splits)
    next
      case False
      then show ?thesis using kl_invD(3) [OF inv old [OF h]] cs by simp
    qed
    show "k' = k" if "kl_entries ?s k = Some j" "kl_entries ?s k' = Some j" for k k' j
      by (rule kl_invD(4) [OF inv old [OF that(1)] old [OF that(2)]])
    show "kl_refs ?s j = int (on_entry j cs)" for j using kl_invD(5) [OF inv, of j] cs unfolding refs' by simp
    show "holding j cs = (if kl_locked s j then 1 else 0)" for j using kl_invD(6) [OF inv, of j] cs by simp
  qed
qed

lemma kl_exclusive: "kl_inv s \<Longrightarrow> kl_holders s k \<le> 1"
proof -
  assume inv: "kl_inv s"
  show ?thesis
  proof (cases "\<exists>i p. (k, i, p) \<in># kl_calls s")
    case True
    then obtain i where i: "kl_entries s k = Some i" using kl_invD(1) [OF inv] by blast
    have "fst c = k \<and> snd (snd c) = Holding \<longleftrightarrow> snd c = (i, Holding)" if "c \<in># kl_calls s" for c
    proof -
      obtain k' j p where c: "c = (k', j, p)" by (cases c) auto
      have e: "kl_entries s k' = Some j" using kl_invD(1) [OF inv] that c by blast
      show ?thesis using e i kl_invD(4) [OF inv i, of k'] c by auto
    qed
    then have "kl_holders s k = holding i (kl_calls s)"
      unfolding kl_holders_def holding_def by (intro arg_cong [where f = size] filter_mset_cong refl)
    then show ?thesis using kl_invD(6) [OF inv, of i] by simp
  next
    case False
    have "\<not> 0 < kl_holders s k" unfolding kl_holders_def size_pos using False by (metis prod.collapse)
    then show ?thesis by simp
  qed
qed

lemma kl_registered: "kl_inv s \<Longrightarrow> kl_entries s k \<noteq> None \<longleftrightarrow> 0 < kl_active s k"
proof -
  assume inv: "kl_inv s"
  have a: "0 < kl_active s k \<longleftrightarrow> (\<exists>i p. (k, i, p) \<in># kl_calls s)"
    unfolding kl_active_def size_pos by (metis fst_conv prod.collapse)
  show ?thesis
  proof
    assume "kl_entries s k \<noteq> None"
    then obtain i where i: "kl_entries s k = Some i" by blast
    then obtain k' p where k': "(k', i, p) \<in># kl_calls s" using kl_invD(3) [OF inv i] on_entry_pos by blast
    then have "k' = k" using kl_invD(4) [OF inv i kl_invD(1) [OF inv k']] by simp
    then show "0 < kl_active s k" using k' a by blast
  qed (use a kl_invD(1) [OF inv] in blast)
qed

lemma kl_inv_step:
  assumes inv: "kl_inv s" and st: "kl_step s s'"
  shows "kl_inv s'"
  using st
proof (cases rule: kl_step.cases)
  case (acquire key i)
  then show ?thesis unfolding kl_acquire_def by (auto intro!: kl_inv_move [OF inv])
next
  case (unlock key i)
  then have "kl_locked s i"
    using kl_invD(6) [OF inv, of i] take_call [OF unlock(2)] by (auto split: if_splits)
  then show ?thesis using unlock unfolding kl_unlock_def by (auto intro!: kl_inv_move [OF inv])
qed (auto intro: kl_inv_register [OF inv] kl_inv_leave [OF inv] inv)

interpretation keylock: exclusive kl_init kl_step kl_inv kl_holders "\<lambda>s k. kl_entries s k \<noteq> None" kl_active
proof unfold_locales
  show "kl_inv kl_init" by (rule kl_invI) (simp_all add: kl_init_def)
qed (fact kl_inv_step kl_exclusive kl_registered)+

text \<open>C21: However the calls interleave, at most one caller at a time is inside \<open>Lock(key)\<close> and its unlock - also
  when the entry was dropped and created anew in between - and an entry exists exactly as long as some
  call for its key is in progress, so released keys are not retained.\<close>

theorem keylock_exclusive:
  assumes "kl_step\<^sup>*\<^sup>* kl_init s"
  shows "kl_holders s k \<le> 1 \<and> (kl_entries s k \<noteq> None \<longleftrightarrow> 0 < kl_active s k)"
  using keylock.reachable_exclusive [OF assms] keylock.reachable_no_leak [OF assms] by blast

text \<open>Two calls for one key, the first inside.\<close>

definition two_calls :: kl_state where
  "two_calls = kl_acquire ''c1'' 0 (kl_register ''c1'' (kl_register ''c1'' kl_init))"

lemma two_calls_facts:
  "kl_calls two_calls = {#(''c1'', 0, Holding), (''c1'', 0, Waiting)#}" "kl_locked two_calls = (\<lambda>_. False)(0 := True)"
  by (simp_all add: two_calls_def kl_acquire_def kl_move_def kl_register_def kl_init_def Let_def)

lemma two_calls_reachable: "kl_step\<^sup>*\<^sup>* kl_init two_calls"
proof -
  let ?s1 = "kl_register ''c1'' kl_init"
  let ?s2 = "kl_register ''c1'' ?s1"
  have s1: "kl_step\<^sup>*\<^sup>* kl_init ?s1" by (rule r_into_rtranclp, rule kl_step.register)
  have s2: "kl_step\<^sup>*\<^sup>* kl_init ?s2" by (rule rtranclp.rtrancl_into_rtrancl [OF s1], rule kl_step.register)
  show ?thesis
    unfolding two_calls_def
    by (rule rtranclp.rtrancl_into_rtrancl [OF s2], rule kl_step.acquire) (simp_all add: kl_register_def kl_init_def Let_def)
qed

theorem keylock_exclusive_witness:
  "kl_holders two_calls ''c1'' = 1 \<and> kl_entries two_calls ''c1'' \<noteq> None \<and> kl_entries two_calls ''c2'' = None"
proof -
  have "0 < kl_holders two_calls ''c1''" "0 < kl_active two_calls ''c1''" "kl_active two_calls ''c2'' = 0"
    by (simp_all add: kl_holders_def kl_active_def two_calls_facts(1))
  then show ?thesis
    using keylock_exclusive [OF two_calls_reachable, of "''c1''"] keylock_exclusive [OF two_calls_reachable, of "''c2''"] by simp
qed

text \<open>No call waits for nothing: a call blocked on an entry's mutex is blocked by a caller that holds the
  same key, so when the holder unlocks, a waiter can enter, and calls for other keys never block it.\<close>

theorem keylock_waits_for_holder:
  assumes "kl_step\<^sup>*\<^sup>* kl_init s" and "(k, i, Waiting) \<in># kl_calls s"
  shows "(\<not> kl_locked s i \<and> kl_step s (kl_acquire k i s))
    \<or> ((k, i, Holding) \<in># kl_calls s \<and> (let s' = kl_unlock k i s in \<not> kl_locked s' i \<and> kl_step s s' \<and> kl_step s' (kl_acquire k i s')))"
proof (cases "kl_locked s i")
  case False
  then show ?thesis using kl_step.acquire [OF assms(2)] by blast
next
  case True
  note inv = keylock.reachable_inv [OF assms(1)]
  have "0 < holding i (kl_calls s)" using kl_invD(6) [OF inv, of i] True by simp
  then obtain k' where k': "(k', i, Holding) \<in># kl_calls s" unfolding holding_def size_pos by (metis prod.collapse)
  have "k' = k" using kl_invD(4) [OF inv kl_invD(1) [OF inv assms(2)] kl_invD(1) [OF inv k']] .
  with k' have h: "(k, i, Holding) \<in># kl_calls s" by simp
  let ?s = "kl_unlock k i s"
  have "(k, i, Waiting) \<in># kl_calls ?s" "\<not> kl_locked ?s i"
    using assms(2) h by (auto simp: kl_unlock_def kl_move_def dest!: take_call)
  then show ?thesis using kl_step.unlock [OF h] kl_step.acquire [of k i ?s] h by (simp add: Let_def)
qed

theorem keylock_waits_for_holder_witness:
  "kl_locked two_calls 0 \<and> kl_step (kl_unlock ''c1'' 0 two_calls) (kl_acquire ''c1'' 0 (kl_unlock ''c1'' 0 two_calls))"
  using keylock_waits_for_holder [OF two_calls_reachable, of "''c1''" 0] by (simp add: two_calls_facts Let_def)

section \<open>trylock\<close>

text \<open>The keys being handled, and the unlock functions that were not used yet.\<close>

record tl_state =
  tl_held :: "string set"
  tl_tokens :: "string multiset"

definition tl_init :: tl_state where
  "tl_init = \<lparr>tl_held = {}, tl_tokens = {#}\<rparr>"

text \<open>The result tells whether an unlock function was returned.\<close>

definition tl_lock :: "string \<Rightarrow> tl_state \<Rightarrow> bool \<times> tl_state" where
  "tl_lock key s =
     (if key \<in> tl_held s then (False, s)
      else (True, s\<lparr>tl_held := insert key (tl_held s), tl_tokens := add_mset key (tl_tokens s)\<rparr>))"

definition tl_unlock :: "string \<Rightarrow> tl_state \<Rightarrow> tl_state" where
  "tl_unlock key s = s\<lparr>tl_held := tl_held s - {key}, tl_tokens := tl_tokens s - {#key#}\<rparr>"

inductive tl_step :: "tl_state \<Rightarrow> tl_state \<Rightarrow> bool" where
  lock: "tl_step s (snd (tl_lock key s))"
| unlock: "key \<in># tl_tokens s \<Longrightarrow> tl_step s (tl_unlock key s)"
| again: "tl_step s s"

definition tl_inv :: "tl_state \<Rightarrow> bool" where
  "tl_inv s \<longleftrightarrow> (\<forall>k. count (tl_tokens s) k = (if k \<in> tl_held s then 1 else 0))"

interpretation trylock: exclusive tl_init tl_step tl_inv "\<lambda>s. count (tl_tokens s)" "\<lambda>s k. k \<in> tl_held s" "\<lambda>s. count (tl_tokens s)"
proof unfold_locales
  show "tl_inv s'" if inv: "tl_inv s" and st: "tl_step s s'" for s s'
    using st
  proof (cases rule: tl_step.cases)
    case (lock key)
    then show ?thesis using inv by (simp add: tl_inv_def tl_lock_def)
  next
    case (unlock key)
    then show ?thesis using inv by (simp add: tl_inv_def tl_unlock_def)
  qed (simp add: inv)
qed (simp_all add: tl_inv_def tl_init_def)

text \<open>A container start is handled once at a time: in every reachable state a key has at most one live
  unlock function, \<open>Lock\<close> refuses exactly the keys being handled, and only using that function frees the
  key - using it twice changes nothing.\<close>

theorem trylock_single_handler:
  assumes "tl_step\<^sup>*\<^sup>* tl_init s"
  shows "count (tl_tokens s) k \<le> 1 \<and> (fst (tl_lock k s) \<longleftrightarrow> k \<notin># tl_tokens s)
    \<and> (if k \<in># tl_tokens s then fst (tl_lock k (tl_unlock k s)) \<and> snd (tl_lock k s) = s else True)"
proof -
  have held: "k \<in> tl_held s \<longleftrightarrow> k \<in># tl_tokens s"
    using trylock.reachable_no_leak [OF assms, of k] by (simp only: count_greater_zero_iff)
  then show ?thesis using trylock.reachable_exclusive [OF assms, of k] by (simp add: tl_lock_def tl_unlock_def)
qed

theorem trylock_single_handler_witness:
  "\<not> fst (tl_lock ''c1'' (snd (tl_lock ''c1'' tl_init))) \<and> fst (tl_lock ''c2'' (snd (tl_lock ''c1'' tl_init)))"
proof -
  have r: "tl_step\<^sup>*\<^sup>* tl_init (snd (tl_lock ''c1'' tl_init))" by (rule r_into_rtranclp, rule tl_step.lock)
  have "tl_tokens (snd (tl_lock ''c1'' tl_init)) = {#''c1''#}" by (simp add: tl_lock_def tl_init_def)
  then show ?thesis using trylock_single_handler [OF r, of "''c1''"] trylock_single_handler [OF r, of "''c2''"] by simp
qed

end
