(* ===== verification/BinVersions.thy ===== *)
theory BinVersions
  imports World
begin

text \<open>
  The pure parts of \<open>src/binexec/watcher.go\<close>: names of driver binaries, the preference between two running
  providers of one binary, and the wrapper script with its quoted arguments.  The preference is a strict
  total order on providers with different ids, so the choice does not depend on the order in which a map
  of services is visited.
\<close>

section \<open>Names\<close>

definition name_char :: "char \<Rightarrow> bool" where
  "name_char c \<longleftrightarrow> is_lower c \<or> is_upper c \<or> is_digit c \<or> c = CHR ''.'' \<or> c = CHR ''_'' \<or> c = CHR ''-''"

definition validBinaryName :: "string \<Rightarrow> bool" where
  "validBinaryName value \<longleftrightarrow>
     \<not> (value = [] \<or> value = ''.'' \<or> value = ''..'' \<or> list_ex (\<lambda>c. c = CHR ''/'' \<or> c = CHR 0x5C) value)
     \<and> list_all name_char value"

section \<open>Versions\<close>

fun parse_parts :: "string list \<Rightarrow> int list option" where
  "parse_parts [] = Some []"
| "parse_parts (part # parts) =
     (if part = [] then None
      else (case atoi part of
          None \<Rightarrow> None
        | Some v \<Rightarrow> if v < 0 then None else map_option ((#) v) (parse_parts parts)))"

definition numericVersionParts :: "string \<Rightarrow> int list option" where
  "numericVersionParts value =
     (let v = trim_prefix (trim_space value) ''v'' in
      if v = [] then None else parse_parts (str_split CHR ''.'' v))"

text \<open>The loop over the indexes of both lists: a missing part counts as zero.\<close>

definition part0 :: "int list \<Rightarrow> int" where
  "part0 ps = (case ps of [] \<Rightarrow> 0 | p # _ \<Rightarrow> p)"

function cmp_parts :: "int list \<Rightarrow> int list \<Rightarrow> int" where
  "cmp_parts ls rs =
     (if ls = [] \<and> rs = [] then 0
      else if part0 ls < part0 rs then - 1
      else if part0 ls > part0 rs then 1
      else cmp_parts (tl ls) (tl rs))"
  by pat_completeness auto
termination
proof (relation "measure (\<lambda>(ls, rs). length ls + length rs)")
  fix ls rs :: "int list" assume "\<not> (ls = [] \<and> rs = [])"
  then show "((tl ls, tl rs), ls, rs) \<in> measure (\<lambda>(ls, rs). length ls + length rs)"
    by (cases ls; cases rs) auto
qed simp

declare cmp_parts.simps [simp del]

definition compareNumericVersions :: "string \<Rightarrow> string \<Rightarrow> int \<times> bool" where
  "compareNumericVersions left right =
     (case (numericVersionParts left, numericVersionParts right) of
        (Some ls, Some rs) \<Rightarrow> (cmp_parts ls rs, True)
      | _ \<Rightarrow> (0, False))"

definition preferProvider :: "string \<Rightarrow> string \<Rightarrow> string \<Rightarrow> string \<Rightarrow> bool" where
  "preferProvider current currentVersion candidate candidateVersion =
     (case compareNumericVersions candidateVersion currentVersion of (comparison, comparable) \<Rightarrow>
        if comparable \<and> comparison \<noteq> 0 then comparison > 0
        else
          let currentNumeric = numericVersionParts currentVersion \<noteq> None;
              candidateNumeric = numericVersionParts candidateVersion \<noteq> None
          in if currentNumeric \<noteq> candidateNumeric then candidateNumeric else candidate < current)"

subsection \<open>The order\<close>

lemma cmp_step: "cmp_parts ls rs = (if part0 ls < part0 rs then - 1 else if part0 ls > part0 rs then 1 else cmp_parts (tl ls) (tl rs))"
proof (cases "ls = [] \<and> rs = []")
  case True
  then have "cmp_parts (tl ls) (tl rs) = 0" by (simp add: cmp_parts.simps)
  then show ?thesis using True by (simp add: cmp_parts.simps part0_def)
next
  case False
  then show ?thesis by (subst cmp_parts.simps) auto
qed

lemma cmp_empty: "cmp_parts [] [] = 0"
  by (simp add: cmp_parts.simps)

lemma cmp_values: "cmp_parts ls rs \<in> {- 1, 0, 1}"
proof (induction ls rs rule: cmp_parts.induct)
  case (1 ls rs)
  then show ?case by (cases "ls = [] \<and> rs = []") (auto simp: cmp_empty cmp_step [of ls rs])
qed

lemma cmp_flip: "cmp_parts rs ls = - cmp_parts ls rs"
proof (induction ls rs rule: cmp_parts.induct)
  case (1 ls rs)
  show ?case
  proof (cases "ls = [] \<and> rs = []")
    case False
    then show ?thesis using 1 by (cases "part0 ls = part0 rs") (auto simp: cmp_step [of ls rs] cmp_step [of rs ls])
  qed (simp add: cmp_empty)
qed

lemma cmp_trans: "0 \<le> cmp_parts a b \<Longrightarrow> 0 \<le> cmp_parts b c \<Longrightarrow>
    0 \<le> cmp_parts a c \<and> (0 < cmp_parts a b \<or> 0 < cmp_parts b c \<longrightarrow> 0 < cmp_parts a c)"
proof (induction "length a + length b + length c" arbitrary: a b c rule: less_induct)
  case less
  show ?case
  proof (cases "a = [] \<and> b = [] \<and> c = []")
    case False
    have dec: "length (tl a) + length (tl b) + length (tl c) < length a + length b + length c"
      using False by (cases a; cases b; cases c) auto
    have ab: "part0 b < part0 a \<or> part0 a = part0 b \<and> 0 \<le> cmp_parts (tl a) (tl b)"
      using less.prems(1) by (simp add: cmp_step [of a b] split: if_splits)
    have bc: "part0 c < part0 b \<or> part0 b = part0 c \<and> 0 \<le> cmp_parts (tl b) (tl c)"
      using less.prems(2) by (simp add: cmp_step [of b c] split: if_splits)
    show ?thesis
    proof (cases "part0 a = part0 b \<and> part0 b = part0 c")
      case True
      then show ?thesis using ab bc less.hyps [OF dec]
        by (simp add: cmp_step [of a b] cmp_step [of b c] cmp_step [of a c])
    next
      case neq: False
      then have "part0 c < part0 a" using ab bc by auto
      then show ?thesis by (simp add: cmp_step [of a c])
    qed
  qed (simp add: cmp_empty)
qed

text \<open>A provider: its container id and its version text.\<close>

type_synonym provider = "string \<times> string"

definition better :: "provider \<Rightarrow> provider \<Rightarrow> bool" where
  "better p q \<longleftrightarrow> preferProvider (fst q) (snd q) (fst p) (snd p)"

lemma better_iff:
  "better p q \<longleftrightarrow>
     (case (numericVersionParts (snd p), numericVersionParts (snd q)) of
        (Some ps, Some qs) \<Rightarrow> 0 < cmp_parts ps qs \<or> cmp_parts ps qs = 0 \<and> fst p < fst q
      | (Some _, None) \<Rightarrow> True
      | (None, Some _) \<Rightarrow> False
      | (None, None) \<Rightarrow> fst p < fst q)"
  unfolding better_def preferProvider_def compareNumericVersions_def Let_def
  by (auto split: option.splits)

lemma better_irrefl: "\<not> better p p"
proof -
  have "cmp_parts ps ps = 0" for ps using cmp_flip [of ps ps] by simp
  then show ?thesis by (auto simp: better_iff split: option.split)
qed

lemma better_trans: "better p q \<Longrightarrow> better q r \<Longrightarrow> better p r"
proof -
  assume pq: "better p q" and qr: "better q r"
  show ?thesis
  proof (cases "numericVersionParts (snd p)"; cases "numericVersionParts (snd q)"; cases "numericVersionParts (snd r)")
    fix a b c
    assume n: "numericVersionParts (snd p) = Some a" "numericVersionParts (snd q) = Some b" "numericVersionParts (snd r) = Some c"
    have le: "0 \<le> cmp_parts a b" "0 \<le> cmp_parts b c" using pq qr n by (auto simp: better_iff)
    from cmp_trans [OF this] cmp_values [of a c] pq qr n show ?thesis
      by (cases "0 < cmp_parts a b"; cases "0 < cmp_parts b c"; cases "cmp_parts a c = 0") (auto simp: better_iff)
  qed (use pq qr in \<open>auto simp: better_iff\<close>)
qed

lemma better_total: "fst p \<noteq> fst q \<Longrightarrow> better p q \<or> better q p"
proof -
  assume ne: "fst p \<noteq> fst q"
  show ?thesis
  proof (cases "numericVersionParts (snd p)"; cases "numericVersionParts (snd q)")
    fix a b
    assume n: "numericVersionParts (snd p) = Some a" "numericVersionParts (snd q) = Some b"
    have v: "cmp_parts a b \<in> {- 1, 0, 1}" by (rule cmp_values)
    have "fst p < fst q \<or> fst q < fst p" using ne by (rule neq_iff [THEN iffD1])
    then show ?thesis using n v cmp_flip [of b a] by (auto simp: better_iff)
  qed (use ne in \<open>auto simp: better_iff neq_iff\<close>)
qed

section \<open>The choice\<close>

text \<open>One running provider of \<open>binName\<close>; \<open>binaries\<close> and \<open>versions\<close> always have the same keys.\<close>

definition pick :: "string \<times> provider \<Rightarrow> string gomap \<times> string gomap \<Rightarrow> string gomap \<times> string gomap" where
  "pick c acc =
     (let binName = fst c; cid = fst (snd c); version = snd (snd c); binaries = fst acc; versions = snd acc in
      if \<not> mhas binaries binName \<or> preferProvider (mget [] binaries binName) (mget [] versions binName) cid version
      then (mput binName cid binaries, mput binName version versions)
      else (binaries, versions))"

definition pick_all :: "(string \<times> provider) list \<Rightarrow> string gomap \<times> string gomap" where
  "pick_all cs = fold pick cs ([], [])"

text \<open>The best provider of a binary so far.\<close>

definition chosen :: "string gomap \<times> string gomap \<Rightarrow> string \<Rightarrow> provider option" where
  "chosen acc b = (case map_of (fst acc) b of None \<Rightarrow> None | Some cid \<Rightarrow> Some (cid, mget [] (snd acc) b))"

definition best_of :: "(string \<times> provider) set \<Rightarrow> string \<Rightarrow> provider option \<Rightarrow> bool" where
  "best_of C b r \<longleftrightarrow> (case r of None \<Rightarrow> (\<forall>p. (b, p) \<notin> C)
     | Some p \<Rightarrow> (b, p) \<in> C \<and> (\<forall>q. (b, q) \<in> C \<and> q \<noteq> p \<longrightarrow> better p q))"

definition one_version :: "(string \<times> provider) set \<Rightarrow> bool" where
  "one_version C \<longleftrightarrow> (\<forall>b p b' p'. (b, p) \<in> C \<and> (b', p') \<in> C \<and> fst p = fst p' \<longrightarrow> p = p')"

lemma chosen_pick:
  "chosen (pick (b, p) acc) b' =
     (if b' \<noteq> b then chosen acc b'
      else (case chosen acc b of None \<Rightarrow> Some p | Some q \<Rightarrow> Some (if better p q then p else q)))"
  by (cases "map_of (fst acc) b")
    (auto simp: chosen_def pick_def Let_def mhas_def better_def update_conv mget_def split: option.split)

lemma best_of_pick:
  assumes best: "best_of C b' r" and one: "one_version (insert (b, p) C)"
  shows "best_of (insert (b, p) C) b' (if b' \<noteq> b then r else (case r of None \<Rightarrow> Some p | Some q \<Rightarrow> Some (if better p q then p else q)))"
proof (cases "b' = b")
  case False
  then show ?thesis using best by (auto simp: best_of_def split: option.splits)
next
  case True
  show ?thesis
  proof (cases r)
    case None
    then show ?thesis using best True by (auto simp: best_of_def)
  next
    case (Some q)
    then have q: "(b, q) \<in> C" "\<And>x. (b, x) \<in> C \<Longrightarrow> x \<noteq> q \<Longrightarrow> better q x" using best True by (auto simp: best_of_def)
    show ?thesis
    proof (cases "better p q")
      case better: True
      have "better p x" if "(b, x) \<in> C" "x \<noteq> p" for x
        using better better_trans [OF better] q(2) [OF that(1)] by (cases "x = q") auto
      then show ?thesis using True Some better by (auto simp: best_of_def)
    next
      case worse: False
      have "better q x" if "(b, x) \<in> insert (b, p) C" "x \<noteq> q" for x
      proof (cases "(b, x) \<in> C")
        case False
        then have "x = p" using that by simp
        moreover have "fst p \<noteq> fst q" using one q(1) that \<open>x = p\<close> unfolding one_version_def by blast
        ultimately show ?thesis using better_total [of p q] worse by simp
      qed (use q(2) that in blast)
      then show ?thesis using True Some worse q(1) by (auto simp: best_of_def)
    qed
  qed
qed

lemma pick_all_best:
  assumes "one_version (set cs)"
  shows "best_of (set cs) b (chosen (pick_all cs) b)"
  using assms
proof (induction cs rule: rev_induct)
  case Nil
  show ?case by (simp add: best_of_def pick_all_def chosen_def)
next
  case (snoc c cs)
  obtain b' p where c: "c = (b', p)" by (cases c)
  have one: "one_version (insert (b', p) (set cs))" using snoc.prems c by simp
  then have "one_version (set cs)" unfolding one_version_def by blast
  from best_of_pick [OF snoc.IH [OF this] one]
  have "best_of (insert (b', p) (set cs)) b (chosen (pick (b', p) (pick_all cs)) b)" by (cases "b = b'") (simp_all add: chosen_pick)
  then show ?case by (simp add: c pick_all_def)
qed

lemma best_of_unique:
  assumes "best_of C b r" and "best_of C b r'"
  shows "r = r'"
proof (cases r; cases r')
  fix p q assume h: "r = Some p" "r' = Some q"
  have "(b, p) \<in> C" "(b, q) \<in> C" and x: "\<And>x. (b, x) \<in> C \<Longrightarrow> x \<noteq> p \<Longrightarrow> better p x" "\<And>x. (b, x) \<in> C \<Longrightarrow> x \<noteq> q \<Longrightarrow> better q x"
    using assms unfolding h best_of_def option.case by blast+
  then have "p = q \<or> better p q \<and> better q p" using x(1) [of q] x(2) [of p] by blast
  then show ?thesis using better_trans [of p q p] better_irrefl [of p] h by blast
qed (use assms in \<open>auto simp: best_of_def\<close>)

text \<open>C22: Which provider of a driver binary is chosen does not depend on the order in which the services and
  their containers are visited: with one version per container, it is the one preferred to every other
  running provider - the highest numeric version, a numeric version before any other text, and the
  smaller container id among equals - and there is one exactly when some provider of the binary runs.\<close>

theorem provider_choice_order_free:
  assumes "one_version (set cs)" and "mset cs' = mset cs"
  shows "map_of (fst (pick_all cs)) b = map_of (fst (pick_all cs')) b
    \<and> (case map_of (fst (pick_all cs)) b of
         None \<Rightarrow> \<forall>p. (b, p) \<notin> set cs
       | Some cid \<Rightarrow> \<exists>version. (b, (cid, version)) \<in> set cs
           \<and> (\<forall>q. (b, q) \<in> set cs \<and> q \<noteq> (cid, version) \<longrightarrow> preferProvider (fst q) (snd q) cid version))"
proof -
  have s: "set cs' = set cs" using assms(2) by (rule mset_eq_setD)
  have b1: "best_of (set cs) b (chosen (pick_all cs) b)" by (rule pick_all_best [OF assms(1)])
  have b2: "best_of (set cs) b (chosen (pick_all cs') b)" using pick_all_best [of cs' b] assms(1) unfolding s by simp
  have "chosen (pick_all cs) b = chosen (pick_all cs') b" by (rule best_of_unique [OF b1 b2])
  then have "map_of (fst (pick_all cs)) b = map_of (fst (pick_all cs')) b" by (auto simp: chosen_def split: option.splits)
  moreover have "case map_of (fst (pick_all cs)) b of None \<Rightarrow> \<forall>p. (b, p) \<notin> set cs
       | Some cid \<Rightarrow> \<exists>version. (b, (cid, version)) \<in> set cs
           \<and> (\<forall>q. (b, q) \<in> set cs \<and> q \<noteq> (cid, version) \<longrightarrow> preferProvider (fst q) (snd q) cid version)"
  proof (cases "map_of (fst (pick_all cs)) b")
    case None
    then show ?thesis using b1 by (simp add: chosen_def best_of_def)
  next
    case (Some cid)
    let ?p = "(cid, mget [] (snd (pick_all cs)) b)"
    have "chosen (pick_all cs) b = Some ?p" by (simp add: chosen_def Some)
    then have "(b, ?p) \<in> set cs" "\<forall>q. (b, q) \<in> set cs \<and> q \<noteq> ?p \<longrightarrow> better ?p q"
      using b1 by (auto simp: best_of_def)
    then show ?thesis unfolding better_def Some by auto
  qed
  ultimately show ?thesis by blast
qed

theorem provider_choice_order_free_witness:
  "map_of (fst (pick_all [(''d'', (''c9'', ''v1.10'')), (''d'', (''c1'', ''1.9'')), (''d'', (''a0'', ''latest''))])) ''d'' = Some ''c9''
   \<and> map_of (fst (pick_all [(''d'', (''a0'', ''latest'')), (''d'', (''c1'', ''1.9'')), (''d'', (''c9'', ''v1.10''))])) ''d'' = Some ''c9''"
proof -
  let ?cs = "[(''d'', (''c9'', ''v1.10'')), (''d'', (''c1'', ''1.9'')), (''d'', (''a0'', ''latest''))]"
  have "one_version (set ?cs)" by (auto simp: one_version_def)
  moreover have "mset [(''d'', (''a0'', ''latest'')), (''d'', (''c1'', ''1.9'')), (''d'', (''c9'', ''v1.10''))] = mset ?cs" by simp
  moreover have "map_of (fst (pick_all ?cs)) ''d'' = Some ''c9''" by code_simp
  ultimately show ?thesis using provider_choice_order_free [of ?cs "[(''d'', (''a0'', ''latest'')), (''d'', (''c1'', ''1.9'')), (''d'', (''c9'', ''v1.10''))]" "''d''"]
    by simp
qed

section \<open>The wrapper\<close>

abbreviation squote :: string where "squote \<equiv> [CHR 0x27]"
abbreviation bslash :: string where "bslash \<equiv> [CHR 0x5C]"

definition shellQuote :: "string \<Rightarrow> string" where
  "shellQuote value =
     squote @ concat (map (\<lambda>c. if c = CHR 0x27 then squote @ dquote @ squote @ dquote @ squote else [c]) value) @ squote"

text \<open>\<open>driverWrapperScript\<close>, cut at its two \<open>%s\<close>.\<close>

definition wrapper_head :: string where
  "wrapper_head =
   ''#!/bin/sh'' @ nl
   @ ''set -eu'' @ nl
   @ ''target=''"

definition wrapper_mid :: string where
  "wrapper_mid = nl
   @ ''binary_name=''"

definition wrapper_tail :: string where
  "wrapper_tail =
   nl
   @ ''socket=/var/run/docker.sock'' @ nl
   @ ''api_prefix='' @ dquote @ dquote @ nl
   @ ''if [ -n '' @ dquote @ ''${DOCKER_API_VERSION:-}'' @ dquote @ '' ]; then'' @ nl
   @ ''    case '' @ dquote @ ''${DOCKER_API_VERSION}'' @ dquote @ '' in'' @ nl
   @ ''        *[!0-9.]*|'' @ squote @ squote @ '') echo '' @ squote @ ''{'' @ dquote @ ''code'' @ dquote @ '':100,'' @ dquote @ ''msg'' @ dquote @ '':'' @ dquote @ ''invalid Docker API version'' @ dquote @ ''}'' @ squote @ '' >&2; exit 1 ;;'' @ nl
   @ ''    esac'' @ nl
   @ ''    api_prefix='' @ dquote @ ''/v${DOCKER_API_VERSION}'' @ dquote @ nl
   @ ''fi'' @ nl
   @ ''case '' @ dquote @ ''${target}'' @ dquote @ '' in'' @ nl
   @ ''    *[!0-9a-fA-F]*|'' @ squote @ squote @ '') echo '' @ squote @ ''{'' @ dquote @ ''code'' @ dquote @ '':100,'' @ dquote @ ''msg'' @ dquote @ '':'' @ dquote @ ''invalid CNI driver container id'' @ dquote @ ''}'' @ squote @ '' >&2; exit 1 ;;'' @ nl
   @ ''esac'' @ nl
   @ ''pid='' @ dquote @ ''$(curl -fsS --max-time 10 --unix-socket '' @ dquote @ ''${socket}'' @ dquote @ '' '' @ bslash @ nl
   @ ''    '' @ dquote @ ''http://localhost${api_prefix}/containers/${target}/json'' @ dquote @ '' | jq -r '' @ squote @ ''.State.Pid // 0'' @ squote @ '' || true)'' @ dquote @ nl
   @ ''case '' @ dquote @ ''${pid}'' @ dquote @ '' in'' @ nl
   @ ''    '' @ squote @ squote @ ''|0|*[!0-9]*)'' @ nl
   @ ''    echo '' @ dquote @ ''{'' @ bslash @ dquote @ ''code'' @ bslash @ dquote @ '':100,'' @ bslash @ dquote @ ''msg'' @ bslash @ dquote @ '':'' @ bslash @ dquote @ ''selected cni driver container not running: ${target}'' @ bslash @ dquote @ ''}'' @ dquote @ '' >&2'' @ nl
   @ ''    exit 1'' @ nl
   @ ''    ;;'' @ nl
   @ ''esac'' @ nl
   @ ''private_binary='' @ dquote @ ''/opt/cni/bin/${binary_name}'' @ dquote @ nl
   @ ''if /usr/bin/nsenter -m -u -i -n -p -t '' @ dquote @ ''${pid}'' @ dquote @ '' -- test -x '' @ dquote @ ''${private_binary}'' @ dquote @ ''; then'' @ nl
   @ ''    exec /usr/bin/nsenter -m -u -i -n -p -t '' @ dquote @ ''${pid}'' @ dquote @ '' -- '' @ bslash @ nl
   @ ''        /usr/bin/env CNI_PATH=/opt/cni/bin '' @ dquote @ ''${private_binary}'' @ dquote @ '' '' @ dquote @ ''$@'' @ dquote @ nl
   @ ''fi'' @ nl
   @ ''exec /usr/bin/nsenter -m -u -i -n -p -t '' @ dquote @ ''${pid}'' @ dquote @ '' -- '' @ dquote @ ''$0'' @ dquote @ '' '' @ dquote @ ''$@'' @ dquote @ nl"

definition renderDriverWrapper :: "string \<Rightarrow> string \<Rightarrow> string" where
  "renderDriverWrapper target name = wrapper_head @ shellQuote target @ wrapper_mid @ shellQuote name @ wrapper_tail"

text \<open>How a POSIX shell reads one word of an assignment: quoted parts are joined until an unquoted
  separator; \<open>None\<close> where it would expand something or the quoting does not end.\<close>

datatype sh_mode = Bare | Single | Double

definition sh_end :: "char \<Rightarrow> bool" where
  "sh_end c \<longleftrightarrow> c \<in> set ('' ;&|<>()'' @ nl @ [CHR 0x09])"

definition sh_active :: "char \<Rightarrow> bool" where
  "sh_active c \<longleftrightarrow> c = CHR 0x5C \<or> c = CHR ''$'' \<or> c = CHR 0x60"

definition push :: "char \<Rightarrow> (string \<times> string) option \<Rightarrow> (string \<times> string) option" where
  "push c r = map_option (\<lambda>(w, rest). (c # w, rest)) r"

fun sh_word :: "sh_mode \<Rightarrow> string \<Rightarrow> (string \<times> string) option" where
  "sh_word Bare [] = Some ([], [])"
| "sh_word Bare (c # cs) =
     (if c = CHR 0x27 then sh_word Single cs else if c = CHR 0x22 then sh_word Double cs
      else if sh_end c then Some ([], c # cs) else if sh_active c then None else push c (sh_word Bare cs))"
| "sh_word Single [] = None"
| "sh_word Single (c # cs) = (if c = CHR 0x27 then sh_word Bare cs else push c (sh_word Single cs))"
| "sh_word Double [] = None"
| "sh_word Double (c # cs) = (if c = CHR 0x22 then sh_word Bare cs else if sh_active c then None else push c (sh_word Double cs))"

lemma sh_word_quoted:
  "sh_word Single (concat (map (\<lambda>c. if c = CHR 0x27 then squote @ dquote @ squote @ dquote @ squote else [c]) v) @ squote @ rest)
   = map_option (\<lambda>(w, r). (v @ w, r)) (sh_word Bare rest)"
proof (induction v)
  case Nil
  show ?case by (cases "sh_word Bare rest") auto
next
  case (Cons c v)
  then show ?case by (cases "sh_word Bare rest") (auto simp: push_def sh_active_def)
qed

lemma sh_word_shellQuote: "sh_word Bare (shellQuote v @ nl @ rest) = Some (v, nl @ rest)"
  using sh_word_quoted [of v "nl @ rest"] by (simp add: shellQuote_def sh_end_def)

text \<open>C23: The wrapper assigns exactly the chosen container id and the binary name, whatever characters they
  hold: a shell reads back the two quoted words unchanged, and each assignment ends at its line break.\<close>

theorem wrapper_quotes_exactly:
  "\<exists>q1 q2. renderDriverWrapper target name = wrapper_head @ q1 \<and> sh_word Bare q1 = Some (target, nl @ ''binary_name='' @ q2)
     \<and> sh_word Bare q2 = Some (name, wrapper_tail)"
proof -
  have m: "wrapper_mid = nl @ ''binary_name=''" by (simp add: wrapper_mid_def)
  obtain tl' where t: "wrapper_tail = nl @ tl'" by (simp add: wrapper_tail_def)
  show ?thesis
    by (intro exI [of _ "shellQuote target @ nl @ ''binary_name='' @ shellQuote name @ wrapper_tail"] exI [of _ "shellQuote name @ wrapper_tail"])
      (simp only: renderDriverWrapper_def m t append_assoc sh_word_shellQuote simp_thms refl)
qed

end
