(* ===== verification/BinExec.thy ===== *)
theory BinExec
  imports BinVersions AtomicFile HostPorts
begin

text \<open>
  The driver wrappers (\<open>src/binexec/watcher.go\<close>): which running container provides each CNI driver binary,
  and the wrapper scripts in \<open>/opt/cni/bin\<close> that enter it.  The watcher's mutex makes a reconcile one
  procedure; its goroutines (metadata changes, the drift ticker, Docker events) only decide when it runs.
\<close>

definition binDir :: string where "binDir = ''/opt/cni/bin''"

definition bx_reapplyEvery :: int where "bx_reapplyEvery = 5 * 60 * second"

record bx_state = world +
  bx_applied :: "string gomap"
  bx_lastApplied :: "int option"

definition binary_label :: string where "binary_label = ''io.rancher.network.cni.binary''"

definition getBinaryName :: "Container \<Rightarrow> string" where
  "getBinaryName c = mget [] (ctr_Labels c) binary_label"

definition hasDriverLabel :: "Container \<Rightarrow> bool" where
  "hasDriverLabel c \<longleftrightarrow> [] \<noteq> mget [] (ctr_Labels c) binary_label"

definition inspectProvider :: "env \<Rightarrow> string \<Rightarrow> ('a world_scheme, DockerContainer) proc" where
  "inspectProvider e target = dc_ContainerInspect e target"

text \<open>\<open>State != nil && State.Running && State.Pid > 0\<close>.\<close>

definition provider_runs :: "DockerContainer \<Rightarrow> bool" where
  "provider_runs p \<longleftrightarrow> (case dk_State p of None \<Rightarrow> False | Some (running, pid) \<Rightarrow> running \<and> pid > 0)"

section \<open>Wrapper files\<close>

definition wrapper_path :: "string \<Rightarrow> string" where
  "wrapper_path name = binDir @ ''/'' @ name"

definition path_base :: "string \<Rightarrow> string" where
  "path_base p = rev (takeWhile (\<lambda>c. c \<noteq> CHR ''/'') (rev p))"

definition wrapperFileMatches :: "env \<Rightarrow> string \<Rightarrow> string \<Rightarrow> ('a world_scheme, bool) proc" where
  "wrapperFileMatches e path expected =
     bindP (tryP (os_Lstat e path)) (\<lambda>r.
       case r of
         Inl _ \<Rightarrow> retP False
       | Inr info \<Rightarrow>
           if \<not> fi_Regular info \<or> fi_Perm info \<noteq> 448 then retP False
           else bindP (tryP (os_ReadFile e path)) (\<lambda>r'.
             retP (case r' of Inl _ \<Rightarrow> False | Inr actual \<Rightarrow> actual = expected)))"

fun files_match :: "env \<Rightarrow> string gomap \<Rightarrow> string list \<Rightarrow> ('a world_scheme, bool) proc" where
  "files_match e binaries [] = retP True"
| "files_match e binaries (name # names) =
     bindP (wrapperFileMatches e (wrapper_path name) (renderDriverWrapper (mget [] binaries name) name)) (\<lambda>ok.
       if \<not> ok then retP False else files_match e binaries names)"

definition wrapperFilesMatch :: "env \<Rightarrow> string gomap \<Rightarrow> ('a world_scheme, bool) proc" where
  "wrapperFilesMatch e binaries = bindP (range_keys e binaries) (files_match e binaries)"

text \<open>\<open>defer\<close> of a clean-up that is skipped once the work is committed.\<close>

definition unless_committed :: "('s, unit) proc \<Rightarrow> ('s, unit) proc \<Rightarrow> ('s, unit) proc" where
  "unless_committed c m = bindP (tryP m) (\<lambda>r. case r of Inr _ \<Rightarrow> retP () | Inl er \<Rightarrow> bindP (tryP c) (\<lambda>_. raiseP er))"

definition writeWrapperAtomic :: "env \<Rightarrow> string \<Rightarrow> string \<Rightarrow> ('a world_scheme, unit) proc" where
  "writeWrapperAtomic e path content =
     bindP (wrapP (Wrapf ''create private CNI wrapper temporary file: %w'' [])
              (os_CreateTemp e (path_dir path) (''.'' @ path_base path @ ''.tmp-''))) (\<lambda>name.
       unless_committed (bindP (tryP (perform e (CloseFile name))) (\<lambda>_. bindP (tryP (perform e (RemoveFile name))) (\<lambda>_. retP ())))
         (bindP (wrapP (Wrapf ''write private CNI wrapper temporary file: %w'' []) (perform e (WriteTemp name content))) (\<lambda>_.
          bindP (wrapP (Wrapf ''set private CNI wrapper permissions: %w'' []) (perform e (ChmodFile name 448))) (\<lambda>_.
          bindP (wrapP (Wrapf ''sync private CNI wrapper temporary file: %w'' []) (perform e (SyncFile name))) (\<lambda>_.
          bindP (wrapP (Wrapf ''close private CNI wrapper temporary file: %w'' []) (perform e (CloseFile name))) (\<lambda>_.
            wrapP (Wrapf ''install private CNI wrapper: %w'' []) (perform e (RenameFile name path))))))))"

section \<open>Selecting providers\<close>

record selection =
  se_binaries :: "string gomap"
  se_versions :: "string gomap"
  se_uncertain :: "(string \<times> string) list"
  se_available :: "unit gomap"
  se_errors :: "gerr list"

definition empty_selection :: selection where
  "empty_selection = \<lparr>se_binaries = [], se_versions = [], se_uncertain = [], se_available = [], se_errors = []\<rparr>"

definition is_driver_service :: "Service \<Rightarrow> bool" where
  "is_driver_service svc \<longleftrightarrow> \<not> (svc_Kind svc \<noteq> ''networkDriverService'' \<and> svc_Kind svc \<noteq> ''storageDriverService'')"

definition service_key :: "Service \<Rightarrow> string \<Rightarrow> string" where
  "service_key svc name = svc_StackUUID svc @ ''/'' @ name"

text \<open>Driver services, then the services whose primary service is one (sidekicks).\<close>

definition driver_services :: "Service list \<Rightarrow> Service gomap" where
  "driver_services services =
     fold (\<lambda>svc m. if mhas m (service_key svc (svc_PrimaryServiceName svc)) then mput (service_key svc (svc_Name svc)) svc m else m)
       services
       (fold (\<lambda>svc m. if is_driver_service svc then mput (service_key svc (svc_Name svc)) svc m else m) services [])"

text \<open>The outcome of inspecting a provider that metadata authorises for \<open>binName\<close>.\<close>

definition judge :: "string \<Rightarrow> string \<Rightarrow> DockerContainer result \<Rightarrow> selection \<Rightarrow> selection" where
  "judge binName cid r sel =
     (case r of
        Inl er \<Rightarrow>
          (let sel' = (if \<not> errdefs_is_not_found er then sel\<lparr>se_uncertain := (binName, cid) # se_uncertain sel\<rparr> else sel)
           in sel'\<lparr>se_errors := se_errors sel' @ [Wrapf ''inspect CNI provider %s for %s: %w'' [cid, binName] er]\<rparr>)
      | Inr p \<Rightarrow>
          if \<not> provider_runs p then sel
          else let version = (case dk_Labels p of None \<Rightarrow> [] | Some labels \<Rightarrow> trim_space (mget [] labels ''org.opencontainers.image.version''));
                   acc = pick (binName, (cid, version)) (se_binaries sel, se_versions sel)
               in sel\<lparr>se_binaries := fst acc, se_versions := snd acc\<rparr>)"

definition consider_container :: "env \<Rightarrow> string \<Rightarrow> Container \<Rightarrow> selection \<Rightarrow> ('a world_scheme, selection) proc" where
  "consider_container e hostUUID c sel =
     (if ctr_ExternalId c \<noteq> [] \<and> ctr_HostUUID c = hostUUID \<and> hasDriverLabel c then
        let binName = getBinaryName c in
        if binName \<noteq> [] then
          if \<not> validBinaryName binName then
            retP (sel\<lparr>se_errors := se_errors sel @ [Errorf ''invalid CNI driver binary name %q'' [binName]]\<rparr>)
          else
            bindP (tryP (inspectProvider e (ctr_ExternalId c))) (\<lambda>r.
              retP (judge binName (ctr_ExternalId c) r (sel\<lparr>se_available := mput binName () (se_available sel)\<rparr>)))
        else retP sel
      else retP sel)"

definition select_providers :: "env \<Rightarrow> string \<Rightarrow> Service gomap \<Rightarrow> ('a world_scheme, selection) proc" where
  "select_providers e hostUUID ds =
     bindP (range_keys e ds) (\<lambda>keys.
       foldP (\<lambda>key. foldP (consider_container e hostUUID) (svc_Containers (mget zero_Service ds key))) keys empty_selection)"

text \<open>A provider in use that could not be inspected is kept.\<close>

definition preserve :: "string gomap \<Rightarrow> (string \<times> string) list \<Rightarrow> string list \<Rightarrow> string gomap \<Rightarrow> string gomap" where
  "preserve applied uncertain keys binaries =
     fold (\<lambda>name b. if mget [] b name = [] \<and> (name, mget [] applied name) \<in> set uncertain
                    then mput name (mget [] applied name) b else b) keys binaries"

definition missing_errors :: "string gomap \<Rightarrow> string list \<Rightarrow> gerr list" where
  "missing_errors binaries names =
     map (\<lambda>name. Errorf ''no running metadata-authorized CNI provider for %s'' [name]) (filter (\<lambda>name. mget [] binaries name = []) names)"

section \<open>Applying\<close>

text \<open>While the wrappers are written: what is applied so far, which of it has no running provider, the errors.\<close>

record progress =
  pg_updated :: "string gomap"
  pg_unavailable :: "string list"
  pg_errors :: "gerr list"

definition pg_fail :: "gerr \<Rightarrow> progress \<Rightarrow> progress" where
  "pg_fail er pg = pg\<lparr>pg_errors := pg_errors pg @ [er]\<rparr>"

text \<open>A provider found absent or stopped becomes unavailable if it is the one in use.\<close>

definition pg_lost :: "string \<Rightarrow> string \<Rightarrow> progress \<Rightarrow> progress" where
  "pg_lost name target pg = (if mget [] (pg_updated pg) name = target then pg\<lparr>pg_unavailable := name # pg_unavailable pg\<rparr> else pg)"

definition install_step :: "env \<Rightarrow> string gomap \<Rightarrow> string \<Rightarrow> progress \<Rightarrow> ('a world_scheme, progress) proc" where
  "install_step e binaries name pg =
     (let target = mget [] binaries name in
      bindP (tryP (inspectProvider e target)) (\<lambda>r.
        case r of
          Inl er \<Rightarrow> retP (pg_fail (Wrapf ''inspect selected CNI provider %s for %s: %w'' [target, name] er)
                          (if errdefs_is_not_found er then pg_lost name target pg else pg))
        | Inr p \<Rightarrow>
            if \<not> provider_runs p then
              retP (pg_fail (Errorf ''CNI provider %s for %s is not running'' [target, name]) (pg_lost name target pg))
            else
              bindP (tryP (writeWrapperAtomic e (wrapper_path name) (renderDriverWrapper target name))) (\<lambda>w.
                retP (case w of
                    Inl er \<Rightarrow> pg_fail er pg
                  | Inr _ \<Rightarrow> pg\<lparr>pg_updated := mput name target (pg_updated pg)\<rparr>))))"

definition cleanup_step :: "env \<Rightarrow> string gomap \<Rightarrow> string gomap \<Rightarrow> string \<Rightarrow> progress \<Rightarrow> ('a world_scheme, progress) proc" where
  "cleanup_step e applied binaries name pg =
     (if mhas binaries name \<and> name \<notin> set (pg_unavailable pg) then retP pg
      else
        let p = wrapper_path name; dropped = pg\<lparr>pg_updated := mdel name (pg_updated pg)\<rparr> in
        bindP (wrapperFileMatches e p (renderDriverWrapper (mget [] applied name) name)) (\<lambda>own.
          if \<not> own then retP dropped
          else bindP (tryP (perform e (RemoveFile p))) (\<lambda>r.
            retP (case r of
                Inr _ \<Rightarrow> dropped
              | Inl er \<Rightarrow> if \<not> os_is_not_exist er then pg_fail (Wrapf ''remove unavailable CNI provider wrapper %s: %w'' [name] er) pg
                          else dropped))))"

definition bx_apply :: "env \<Rightarrow> string gomap \<Rightarrow> ('a bx_state_scheme, unit) proc" where
  "bx_apply e binaries =
     bindP (wrapP (Wrapf ''create CNI wrapper directory: %w'' []) (perform e (MkdirAll binDir))) (\<lambda>_.
     bindP (getP bx_applied) (\<lambda>applied.
     bindP (range_keys e binaries) (\<lambda>names.
     bindP (foldP (install_step e binaries) names \<lparr>pg_updated = applied, pg_unavailable = [], pg_errors = []\<rparr>) (\<lambda>pg.
     bindP (range_keys e applied) (\<lambda>old.
     bindP (foldP (cleanup_step e applied binaries) old pg) (\<lambda>pg'.
     bindP (modifyP (\<lambda>s. s\<lparr>bx_applied := pg_updated pg'\<rparr>)) (\<lambda>_.
       case errors_join (pg_errors pg') of
         None \<Rightarrow> bindP (time_Now e) (\<lambda>now. modifyP (\<lambda>s. s\<lparr>bx_lastApplied := Some now\<rparr>))
       | Some er \<Rightarrow> raiseP er)))))))"

section \<open>Reconciling\<close>

definition bx_needs_apply :: "env \<Rightarrow> string gomap \<Rightarrow> ('a bx_state_scheme, bool) proc" where
  "bx_needs_apply e binaries =
     bindP (time_Now e) (\<lambda>now.
     bindP (getP (\<lambda>s. (bx_applied s, bx_lastApplied s))) (\<lambda>(applied, lastApplied).
       if elapsed now lastApplied bx_reapplyEvery \<or> \<not> meq binaries applied then retP True
       else bindP (wrapperFilesMatch e binaries) (\<lambda>ok. retP (\<not> ok))))"

definition raise_all :: "gerr list \<Rightarrow> ('s, unit) proc" where
  "raise_all errs = (case errors_join errs of None \<Rightarrow> retP () | Some er \<Rightarrow> raiseP er)"

definition bx_onChange :: "env \<Rightarrow> ('a bx_state_scheme, unit) proc" where
  "bx_onChange e =
     bindP (getServices e) (\<lambda>services.
     bindP (LocalHostUUID e) (\<lambda>hostUUID.
     bindP (select_providers e hostUUID (driver_services services)) (\<lambda>sel.
     bindP (getP bx_applied) (\<lambda>applied.
     bindP (range_keys e applied) (\<lambda>old.
     bindP (range_keys e (se_available sel)) (\<lambda>names.
       let binaries = preserve applied (se_uncertain sel) old (se_binaries sel);
           errs = se_errors sel @ missing_errors binaries names
       in bindP (bx_needs_apply e binaries) (\<lambda>needsApply.
            if \<not> needsApply then raise_all errs
            else bindP (tryP (bx_apply e binaries)) (\<lambda>r.
              raise_all (errs @ (case r of Inl er \<Rightarrow> [er] | Inr _ \<Rightarrow> []))))))))))"

definition bx_onChangeNoError :: "env \<Rightarrow> ('a bx_state_scheme, unit) proc" where
  "bx_onChangeNoError e = bindP (tryP (bx_onChange e)) (\<lambda>_. retP ())"

text \<open>An event concerns the wrappers when it is about a provider in use, or starts a container that names a
  driver binary.\<close>

definition bx_concerned :: "docker_event \<Rightarrow> string gomap \<Rightarrow> bool" where
  "bx_concerned ev applied \<longleftrightarrow>
     (\<exists>x \<in> set applied. snd x = de_ActorID ev)
     \<or> de_Action ev = ''start'' \<and> validBinaryName (mget [] (de_Attributes ev) binary_label)"

definition bx_Handle :: "env \<Rightarrow> docker_event option \<Rightarrow> ('a bx_state_scheme, unit) proc" where
  "bx_Handle e event =
     (case event of
        None \<Rightarrow> retP ()
      | Some ev \<Rightarrow>
          bindP (getP bx_applied) (\<lambda>applied.
            if bx_concerned ev applied
            then bindP (modifyP (\<lambda>s. s\<lparr>bx_lastApplied := None\<rparr>)) (\<lambda>_. bx_onChange e)
            else retP ()))"

definition bx_Watch :: "env \<Rightarrow> ('a bx_state_scheme, unit) proc" where
  "bx_Watch e =
     bindP (modifyP (\<lambda>s. s\<lparr>bx_applied := [], bx_lastApplied := None\<rparr>)) (\<lambda>_. bx_onChangeNoError e)"

end
