(* ===== verification/BinExecSafe.thy ===== *)
theory BinExecSafe
  imports BinExec Frames
begin

text \<open>
  What the driver watcher does to the file system: it changes files directly in the wrapper directory only,
  replaces a wrapper atomically, never touches a file that is neither a selected binary nor its own
  exact wrapper, and after a reconcile without error the wrappers are exactly the selected ones.
\<close>

section \<open>Atomic wrappers\<close>

lemma tmp_longer: "path_dir path @ ''/'' @ (''.'' @ path_base path @ ''.tmp-'') @ r \<noteq> path"
proof -
  let ?P = "\<lambda>c. c \<noteq> CHR ''/''"
  let ?rest = "dropWhile ?P (rev path)"
  have "length path = length (takeWhile ?P (rev path)) + length ?rest"
    by (metis length_append length_rev takeWhile_dropWhile_id)
  also have "length (takeWhile ?P (rev path)) = length (path_base path)" by (simp add: path_base_def)
  also have "length ?rest \<le> length (path_dir path) + 1" by (simp add: path_dir_def Let_def) arith
  finally have "length path < length (path_dir path @ ''/'' @ (''.'' @ path_base path @ ''.tmp-'') @ r)" by simp
  then show ?thesis by (metis less_irrefl)
qed

lemma hoare_unless_committed:
  assumes "hoare P m (\<lambda>_. Q) (\<lambda>_. E)" and "hoare E c (\<lambda>_. E) (\<lambda>_. E)"
  shows "hoare P (unless_committed c m) (\<lambda>_. Q) (\<lambda>_. E)"
  unfolding unless_committed_def
proof (rule hoare_bind)
  show "hoare P (tryP m) (\<lambda>r. case r of Inl _ \<Rightarrow> E | Inr _ \<Rightarrow> Q) (\<lambda>_. E)"
    by (rule hoare_try) (simp add: assms(1))
  fix r show "hoare (case r of Inl _ \<Rightarrow> E | Inr _ \<Rightarrow> Q) (case r of Inr _ \<Rightarrow> retP () | Inl er \<Rightarrow> bindP (tryP c) (\<lambda>_. raiseP er)) (\<lambda>_. Q) (\<lambda>_. E)"
    using assms(2) by (cases r) (auto intro!: hoare_ret hoare_bind [where R = "\<lambda>_. E"] hoare_try hoare_raise)
qed

lemma drop_tmp:
  assumes "name \<noteq> path"
  shows "hoare (\<lambda>s. files s path = old) (bindP (tryP (perform e (CloseFile name))) (\<lambda>_. bindP (tryP (perform e (RemoveFile name))) (\<lambda>_. retP ())))
    (\<lambda>_ s. files s path = old) (\<lambda>_ s. files s path = old)"
proof -
  have st: "hoare (\<lambda>s. files s path = old) (tryP (perform e c)) (\<lambda>_ s. files s path = old) E" if "path \<notin> touches c" for c E
    using that by (intro hoare_try hoare_perform) (simp_all add: after_untouched)
  show ?thesis
    using assms by (intro hoare_bind [where R = "\<lambda>_ s. files s path = old"] st hoare_ret) auto
qed

lemma write_body:
  assumes "name \<noteq> path"
  shows "hoare (held path old name (Some []))
    (bindP (wrapP g1 (perform e (WriteTemp name d))) (\<lambda>_. bindP (wrapP g2 (perform e (ChmodFile name mode))) (\<lambda>_.
      bindP (wrapP g3 (perform e (SyncFile name))) (\<lambda>_. bindP (wrapP g4 (perform e (CloseFile name))) (\<lambda>_.
        wrapP g5 (perform e (RenameFile name path)))))))
    (\<lambda>_ s. files s path = Some d) (\<lambda>_ s. files s path = old)"
proof -
  have w: "hoare (held path old name (Some [])) (perform e (WriteTemp name d)) (\<lambda>_. held path old name (Some d)) (\<lambda>_ s. files s path = old)"
    by (rule hoare_perform) (auto simp: held_def after_untouched, simp add: after_def)
  have k: "hoare (held path old name (Some d)) (perform e c) (\<lambda>_. held path old name (Some d)) (\<lambda>_ s. files s path = old)"
    if "path \<notin> touches c" "name \<notin> touches c" for c
    using that by (intro hoare_perform) (auto simp: held_def after_untouched)
  have mv: "hoare (held path old name (Some d)) (perform e (RenameFile name path)) (\<lambda>_ s. files s path = Some d) (\<lambda>_ s. files s path = old)"
    by (rule hoare_conseq [OF rename_step], assumption) (erule conjunct1)+
  show ?thesis
    by (rule hoare_bind [OF hoare_wrap [OF w]], rule hoare_bind [OF hoare_wrap [OF k]], simp, simp,
        rule hoare_bind [OF hoare_wrap [OF k]], simp, simp, rule hoare_bind [OF hoare_wrap [OF k]], simp, simp,
        rule hoare_wrap [OF mv])
qed

lemma writeWrapper_hoare:
  "hoare (\<lambda>s. files s path = old) (writeWrapperAtomic e path d) (\<lambda>_ s. files s path = Some d) (\<lambda>_ s. files s path = old)"
proof -
  have body: "hoare (held path old name (Some []))
      (unless_committed (bindP (tryP (perform e (CloseFile name))) (\<lambda>_. bindP (tryP (perform e (RemoveFile name))) (\<lambda>_. retP ())))
        (bindP (wrapP g1 (perform e (WriteTemp name d))) (\<lambda>_. bindP (wrapP g2 (perform e (ChmodFile name mode))) (\<lambda>_.
          bindP (wrapP g3 (perform e (SyncFile name))) (\<lambda>_. bindP (wrapP g4 (perform e (CloseFile name))) (\<lambda>_.
            wrapP g5 (perform e (RenameFile name path))))))))
      (\<lambda>_ s. files s path = Some d) (\<lambda>_ s. files s path = old)" for name g1 g2 g3 g4 g5 mode
  proof (cases "name = path")
    case False
    then show ?thesis by (intro hoare_unless_committed write_body drop_tmp)
  qed (simp add: hoare_def held_def)
  have create: "hoare (\<lambda>s. files s path = old) (os_CreateTemp e (path_dir path) (''.'' @ path_base path @ ''.tmp-''))
      (\<lambda>name. held path old name (Some [])) (\<lambda>_ s. files s path = old)"
    using tmp_longer by (intro create_step) simp
  show ?thesis unfolding writeWrapperAtomic_def
    by (rule hoare_bind [OF hoare_wrap [OF create] body])
qed

interpretation wrapper_file: atomic_writer path "\<lambda>d. d" "\<lambda>d. writeWrapperAtomic e path d" for path e
  by unfold_locales (rule writeWrapper_hoare)

section \<open>Foreign files\<close>

lemma unless_committed_frame [frame_rules]: "frame I m \<Longrightarrow> frame I c \<Longrightarrow> frame I (unless_committed c m)"
  unfolding frame_def by (rule hoare_unless_committed)

lemma writeWrapper_kept: "p \<noteq> path \<Longrightarrow> frame (kept p d) (writeWrapperAtomic e path c)"
  unfolding writeWrapperAtomic_def by (rule kept_with_tmp) (intro frame_rules; simp)

text \<open>A file matches only if it has exactly the expected content.\<close>

lemma matches_kept:
  "hoare (kept p d) (wrapperFileMatches e path expected) (\<lambda>own s. kept p d s \<and> (own \<and> path = p \<longrightarrow> d = expected)) (\<lambda>_. kept p d)"
proof -
  have read: "hoare (kept p d) (tryP (os_ReadFile e path)) (\<lambda>r s. kept p d s \<and> (path = p \<longrightarrow> (\<forall>a. r = Inr a \<longrightarrow> a = d))) (\<lambda>_. kept p d)"
    unfolding os_ReadFile_def
    by (rule hoare_try, rule hoare_ask) (auto simp: kept_def after_untouched)
  have stat: "hoare (kept p d) (tryP (os_Lstat e path)) (\<lambda>_. kept p d) (\<lambda>_. kept p d)"
    by (intro frame_hoare frame_rules)
  show ?thesis unfolding wrapperFileMatches_def
    by (rule hoare_bind [OF stat], rule hoare_case_sum, rule hoare_ret, simp, rule hoare_if, rule hoare_ret, simp,
        rule hoare_bind [OF read], rule hoare_ret) (auto split: sum.splits)
qed

lemma matches_frame [frame_rules]: "frame (kept p d) (wrapperFileMatches e path expected)"
  by (rule frameI, rule hoare_conseq [OF matches_kept]) simp_all

lemma install_kept: "wrapper_path name \<noteq> p \<Longrightarrow> frame (kept p d) (install_step e binaries name pg)"
  unfolding install_step_def inspectProvider_def Let_def
  by (intro frame_rules writeWrapper_kept) simp_all

lemma cleanup_kept:
  assumes "wrapper_path name = p \<Longrightarrow> d \<noteq> renderDriverWrapper (mget [] applied name) name"
  shows "frame (kept p d) (cleanup_step e applied binaries name pg)"
proof -
  let ?p = "wrapper_path name" and ?x = "renderDriverWrapper (mget [] applied name) name"
  have rm: "hoare (\<lambda>s. kept p d s \<and> (own \<and> ?p = p \<longrightarrow> d = ?x))
      (if \<not> own then retP (a own) else bindP (tryP (perform e (RemoveFile ?p))) (\<lambda>r. retP (b r))) (\<lambda>_. kept p d) (\<lambda>_. kept p d)"
    for own and a :: "bool \<Rightarrow> progress" and b
  proof (cases "own \<and> ?p = p")
    case True
    then show ?thesis using assms by (simp add: hoare_def)
  next
    case False
    have "frame (kept p d) (if \<not> own then retP (a own) else bindP (tryP (perform e (RemoveFile ?p))) (\<lambda>r. retP (b r)))"
      using False by (intro frame_rules) auto
    then show ?thesis by (intro hoare_conseq [OF frame_hoare]) auto
  qed
  show ?thesis unfolding cleanup_step_def Let_def
    by (rule frame_control(2), rule frame_basic, rule frameI, rule hoare_bind [OF matches_kept rm])
qed

text \<open>The path of a file, the content it has, and why the watcher has no business with it.\<close>

definition foreign :: "string gomap \<Rightarrow> string gomap \<Rightarrow> string \<Rightarrow> string \<Rightarrow> bool" where
  "foreign applied binaries p d \<longleftrightarrow> p \<notin> wrapper_path ` fst ` set binaries
     \<and> (\<forall>name \<in> fst ` set applied. p = wrapper_path name \<longrightarrow> d \<noteq> renderDriverWrapper (mget [] applied name) name)"


text \<open>Another owner's file under the name of a binary that is no longer provided.\<close>

definition bx_start :: bx_state where
  "bx_start = \<lparr>trace = [], files = (\<lambda>_. None)(wrapper_path ''ipam'' \<mapsto> ''other''),
     bx_applied = [(''ipam'', ''c0'')], bx_lastApplied = None\<rparr>"


section \<open>A reconcile without error\<close>

definition install_state :: "string gomap \<Rightarrow> string list \<Rightarrow> progress \<Rightarrow> 'a world_scheme \<Rightarrow> bool" where
  "install_state binaries ds pg s \<longleftrightarrow> (pg_errors pg = [] \<longrightarrow> pg_unavailable pg = []
     \<and> (\<forall>name \<in> set ds. map_of (pg_updated pg) name = Some (mget [] binaries name)
          \<and> files s (wrapper_path name) = Some (renderDriverWrapper (mget [] binaries name) name)))"

lemma wrapper_path_inj [simp]: "wrapper_path a = wrapper_path b \<longleftrightarrow> a = b"
  by (simp add: wrapper_path_def)

lemma pg_simps [simp]:
  "pg_errors (pg_fail er pg) \<noteq> []" "pg_updated (pg_fail er pg) = pg_updated pg" "pg_updated (pg_lost name target pg) = pg_updated pg"
  by (simp_all add: pg_fail_def pg_lost_def)

lemma install_run:
  assumes "install_step e binaries name pg s = (r, s')" and "install_state binaries ds pg s"
  shows "\<exists>pg'. r = Inr pg' \<and> install_state binaries (name # ds) pg' s'
    \<and> (\<forall>k. k \<noteq> name \<longrightarrow> map_of (pg_updated pg') k = map_of (pg_updated pg) k)"
proof -
  let ?t = "mget [] binaries name"
  obtain q s1 where q: "inspectProvider e ?t s = (q, s1)" by fastforce
  have bad: "\<exists>pg'. r = Inr pg' \<and> install_state binaries (name # ds) pg' s'
      \<and> (\<forall>k. k \<noteq> name \<longrightarrow> map_of (pg_updated pg') k = map_of (pg_updated pg) k)"
    if "\<exists>pg'. r = Inr pg' \<and> pg_errors pg' \<noteq> [] \<and> pg_updated pg' = pg_updated pg"
    using that by (auto simp: install_state_def)
  show ?thesis
  proof (cases q)
    case (Inl er)
    with assms(1) q show ?thesis
      by (intro bad) (auto simp: install_step_def bindP_def tryP_def retP_def Let_def)
  next
    case (Inr p)
    show ?thesis
    proof (cases "provider_runs p")
      case False
      with assms(1) q Inr show ?thesis
        by (intro bad) (auto simp: install_step_def bindP_def tryP_def retP_def Let_def)
    next
      case True
      obtain w s2 where w: "writeWrapperAtomic e (wrapper_path name) (renderDriverWrapper ?t name) s1 = (w, s2)" by fastforce
      have s': "s' = s2" and r: "r = Inr (case w of Inl er \<Rightarrow> pg_fail er pg | Inr _ \<Rightarrow> pg\<lparr>pg_updated := mput name ?t (pg_updated pg)\<rparr>)"
        using assms(1) q Inr True w by (auto simp: install_step_def bindP_def tryP_def retP_def Let_def)
      show ?thesis
      proof (cases w)
        case (Inl er)
        then show ?thesis using r by (intro bad) simp
      next
        case (Inr u)
        have own: "files s2 (wrapper_path name) = Some (renderDriverWrapper ?t name)"
          using wrapper_file.store_result [OF w] Inr by simp
        have other: "files s2 (wrapper_path k) = Some d" if k: "files s (wrapper_path k) = Some d" "k \<noteq> name" for k d
        proof -
          have "files s1 (wrapper_path k) = Some d"
          proof (rule keptD)
            show "frame (kept (wrapper_path k) d) (inspectProvider e ?t)" unfolding inspectProvider_def by (rule kept_calls)
          qed (fact q k(1))+
          then show ?thesis
          proof (rule keptD [rotated 2])
            show "frame (kept (wrapper_path k) d) (writeWrapperAtomic e (wrapper_path name) (renderDriverWrapper ?t name))"
              using k(2) by (intro writeWrapper_kept) simp
          qed (fact w)
        qed
        show ?thesis using assms(2) r s' Inr own other
          by (auto simp: install_state_def update_conv)
      qed
    qed
  qed
qed

lemma install_all:
  assumes "foldP (install_step e binaries) names pg s = (r, s')" and "install_state binaries ds pg s"
  shows "\<exists>pg'. r = Inr pg' \<and> install_state binaries (rev names @ ds) pg' s'
    \<and> (\<forall>k. k \<notin> set names \<longrightarrow> map_of (pg_updated pg') k = map_of (pg_updated pg) k)"
  using assms
proof (induction names arbitrary: pg s ds)
  case Nil
  then show ?case by (auto simp: retP_def)
next
  case (Cons name names)
  obtain q s1 where q: "install_step e binaries name pg s = (q, s1)" by fastforce
  from install_run [OF q Cons.prems(2)] obtain pg1 where pg1: "q = Inr pg1" "install_state binaries (name # ds) pg1 s1"
    "\<forall>k. k \<noteq> name \<longrightarrow> map_of (pg_updated pg1) k = map_of (pg_updated pg) k" by blast
  then have run: "foldP (install_step e binaries) names pg1 s1 = (r, s')" using Cons.prems(1) q by (simp add: bindP_def)
  from Cons.IH [OF run pg1(2)] pg1(3) show ?case by auto
qed

text \<open>Cleaning up: without errors the names no longer selected are dropped and the selected wrappers stay.\<close>

definition clean_state :: "string gomap \<Rightarrow> string list \<Rightarrow> progress \<Rightarrow> 'a world_scheme \<Rightarrow> bool" where
  "clean_state binaries gone pg s \<longleftrightarrow> (pg_errors pg = [] \<longrightarrow> pg_unavailable pg = []
     \<and> (\<forall>name \<in> fst ` set binaries. map_of (pg_updated pg) name = Some (mget [] binaries name)
          \<and> files s (wrapper_path name) = Some (renderDriverWrapper (mget [] binaries name) name))
     \<and> (\<forall>name \<in> set gone. name \<notin> fst ` set binaries \<longrightarrow> map_of (pg_updated pg) name = None))"

lemma cleanup_run:
  assumes "cleanup_step e applied binaries name pg s = (r, s')" and "clean_state binaries gone pg s"
  shows "\<exists>pg'. r = Inr pg' \<and> clean_state binaries (name # gone) pg' s'
    \<and> (\<forall>k. k \<noteq> name \<longrightarrow> map_of (pg_updated pg') k = map_of (pg_updated pg) k)"
proof (cases "mhas binaries name \<and> name \<notin> set (pg_unavailable pg)")
  case True
  then have "r = Inr pg" "s' = s" using assms(1) by (auto simp: cleanup_step_def retP_def)
  then show ?thesis using True assms(2) by (auto simp: clean_state_def mhas_iff)
next
  case False
  let ?p = "wrapper_path name" and ?drop = "pg\<lparr>pg_updated := mdel name (pg_updated pg)\<rparr>"
  obtain own s1 where m: "wrapperFileMatches e ?p (renderDriverWrapper (mget [] applied name) name) s = (own, s1)" by fastforce
  obtain b where own: "own = Inr b"
    using m by (auto simp: wrapperFileMatches_def bindP_def tryP_def retP_def split: prod.splits sum.splits if_splits)
  have cases': "r = Inr ?drop \<or> (\<exists>er. r = Inr (pg_fail er pg))"
    using assms(1) False m own
    by (auto simp: cleanup_step_def Let_def bindP_def tryP_def retP_def split: prod.splits sum.splits if_splits)
  then show ?thesis
  proof (elim disjE exE)
    assume r: "r = Inr ?drop"
    have other: "files s' (wrapper_path k) = Some d" if "files s (wrapper_path k) = Some d" "k \<noteq> name" for k d
      using frameD [OF cleanup_kept _ assms(1), of "wrapper_path k" d] that by (simp add: kept_def)
    have "clean_state binaries (name # gone) ?drop s'"
      unfolding clean_state_def
    proof (intro impI conjI ballI)
      assume ok: "pg_errors ?drop = []"
      then have un: "pg_unavailable pg = []" using assms(2) by (simp add: clean_state_def)
      then show "pg_unavailable ?drop = []" by simp
      have nb: "name \<notin> fst ` set binaries" using False un by (simp add: mhas_iff)
      { fix k assume k: "k \<in> fst ` set binaries"
        then have "k \<noteq> name" using nb by blast
        then show "map_of (pg_updated ?drop) k = Some (mget [] binaries k)" "files s' (wrapper_path k) = Some (renderDriverWrapper (mget [] binaries k) k)"
          using assms(2) ok k other by (auto simp: clean_state_def delete_conv) }
      { fix k assume "k \<in> set (name # gone)" "k \<notin> fst ` set binaries"
        then show "map_of (pg_updated ?drop) k = None" using assms(2) ok by (auto simp: clean_state_def delete_conv) }
    qed
    then show ?thesis using r by (auto simp: delete_conv)
  next
    fix er assume "r = Inr (pg_fail er pg)"
    then show ?thesis by (auto simp: clean_state_def pg_fail_def)
  qed
qed

lemma cleanup_all:
  assumes "foldP (cleanup_step e applied binaries) names pg s = (r, s')" and "clean_state binaries gone pg s"
  shows "\<exists>pg'. r = Inr pg' \<and> clean_state binaries (rev names @ gone) pg' s'
    \<and> (\<forall>k. k \<notin> set names \<longrightarrow> map_of (pg_updated pg') k = map_of (pg_updated pg) k)"
  using assms
proof (induction names arbitrary: pg s gone)
  case Nil
  then show ?case by (auto simp: retP_def)
next
  case (Cons name names)
  obtain q s1 where q: "cleanup_step e applied binaries name pg s = (q, s1)" by fastforce
  from cleanup_run [OF q Cons.prems(2)] obtain pg1 where pg1: "q = Inr pg1" "clean_state binaries (name # gone) pg1 s1"
    "\<forall>k. k \<noteq> name \<longrightarrow> map_of (pg_updated pg1) k = map_of (pg_updated pg) k" by blast
  then have run: "foldP (cleanup_step e applied binaries) names pg1 s1 = (r, s')" using Cons.prems(1) q by (simp add: bindP_def)
  from Cons.IH [OF run pg1(2)] pg1(3) show ?case by auto
qed


definition running_env :: env where
  "running_env = quiet_env\<lparr>e_inspect := (\<lambda>_ cid. zero_DockerContainer\<lparr>dk_ID := cid, dk_State := Some (True, 7)\<rparr>)\<rparr>"

definition bx_empty :: bx_state where
  "bx_empty = \<lparr>trace = [], files = (\<lambda>_. None), bx_applied = [], bx_lastApplied = None\<rparr>"

lemma writeWrapper_succeeds:
  assumes "\<And>h c. e_fail e h c = None" and "files s = (\<lambda>_. None)"
  shows "\<exists>s'. writeWrapperAtomic e path d s = (Inr (), s')"
proof -
  let ?n = "path_dir path @ ''/'' @ (''.'' @ path_base path @ ''.tmp-'') @ e_rand e (trace s)"
  have o: "outcome e c t = fs_error (files t) c" for c and t :: "'a world_scheme" using assms(1) by (simp add: outcome_def)
  let ?s1 = "after e (CreateTemp ?n) s" let ?s2 = "after e (WriteTemp ?n d) ?s1" let ?s3 = "after e (ChmodFile ?n 448) ?s2"
  let ?s4 = "after e (SyncFile ?n) ?s3" let ?s5 = "after e (CloseFile ?n) ?s4"
  have f1: "files ?s1 ?n = Some []" using assms(2) by (simp add: after_def o)
  have f2: "files ?s2 ?n = Some d" using f1 by (simp add: after_def o)
  have f5: "files ?s5 ?n = Some d" using f2 by (simp add: after_untouched)
  show ?thesis
    using assms(2) f5
    by (simp add: writeWrapperAtomic_def os_CreateTemp_def unless_committed_def bindP_def getP_def tryP_def wrapP_def perform_def
        ask_def retP_def o del: trace_after)
qed


section \<open>Confinement\<close>

text \<open>A file directly in the wrapper directory, and the calls that stay inside it.\<close>

definition in_bin :: "string \<Rightarrow> bool" where
  "in_bin p \<longleftrightarrow> (\<exists>n. CHR ''/'' \<notin> set n \<and> p = binDir @ ''/'' @ n)"

fun wrapper_scope :: "call \<Rightarrow> bool" where
  "wrapper_scope (CreateTemp p) = in_bin p"
| "wrapper_scope (WriteTemp p d) = in_bin p"
| "wrapper_scope (ChmodFile p m) = in_bin p"
| "wrapper_scope (SyncFile p) = in_bin p"
| "wrapper_scope (CloseFile p) = in_bin p"
| "wrapper_scope (RemoveFile p) = in_bin p"
| "wrapper_scope (RenameFile p q) = (in_bin p \<and> in_bin q)"
| "wrapper_scope (MkdirAll p) = (p = binDir)"
| "wrapper_scope c = reads_only c"

definition valid_names :: "'v gomap \<Rightarrow> bool" where
  "valid_names m \<longleftrightarrow> (\<forall>name \<in> fst ` set m. validBinaryName name)"

lemma valid_no_slash: "validBinaryName name \<Longrightarrow> CHR ''/'' \<notin> set name"
  by (auto simp: validBinaryName_def list_ex_iff)

lemma slash_free_path: "CHR ''/'' \<notin> set n \<Longrightarrow> path_dir (wrapper_path n) = binDir \<and> path_base (wrapper_path n) = n"
  by (simp add: path_dir_def path_base_def wrapper_path_def binDir_def takeWhile_append dropWhile_append Let_def)

lemma reads_scope: "reads_only c \<Longrightarrow> wrapper_scope c"
  by (cases c) auto

lemma valid_put [simp]: "validBinaryName name \<Longrightarrow> valid_names m \<Longrightarrow> valid_names (mput name v m)"
  using mput_keys [of _ name v m] unfolding valid_names_def set_map [symmetric] by metis

lemma valid_del [simp]: "valid_names m \<Longrightarrow> valid_names (mdel name m)"
  unfolding valid_names_def set_map [symmetric] delete_keys by auto

text \<open>Only calls in scope since \<open>t\<close>, and the record is \<open>w\<close>.\<close>

definition scoped :: "event list \<Rightarrow> string gomap \<Rightarrow> 'a bx_state_scheme \<Rightarrow> bool" where
  "scoped t w s \<longleftrightarrow> only_since t wrapper_scope s \<and> bx_applied s = w"

lemma scoped_calls: "calls_only wrapper_scope m \<Longrightarrow> frame (scoped t w) m"
proof (rule frameI, rule hoareI)
  fix s x s' assume m: "calls_only wrapper_scope m" "scoped t w s" "m s = (Inr x, s')"
  from calls_onlyD [OF m(1,3)] m(2) show "scoped t w s'" by (cases s; cases s') (auto simp: scoped_def since_def)
next
  fix s x s' assume m: "calls_only wrapper_scope m" "scoped t w s" "m s = (Inl x, s')"
  from calls_onlyD [OF m(1,3)] m(2) show "scoped t w s'" by (cases s; cases s') (auto simp: scoped_def since_def)
qed

lemma scoped_perform: "wrapper_scope c \<Longrightarrow> frame (scoped t w) (perform e c)"
  by (rule scoped_calls) (rule calls_perform)

lemma scoped_create:
  assumes "\<And>h. CHR ''/'' \<notin> set (e_rand e h)" and "CHR ''/'' \<notin> set pre"
  shows "hoare (scoped t w) (os_CreateTemp e binDir pre) (\<lambda>name s. scoped t w s \<and> in_bin name) (\<lambda>_. scoped t w)"
proof -
  have c: "hoare (\<lambda>s. scoped t w s \<and> in_bin name) (bindP (perform e (CreateTemp name)) (\<lambda>_. retP name))
      (\<lambda>name s. scoped t w s \<and> in_bin name) (\<lambda>_. scoped t w)" for name
  proof (cases "in_bin name")
    case True
    then show ?thesis
      by (intro hoare_bind [where R = "\<lambda>_. scoped t w"] hoare_ret hoare_conseq [OF frame_hoare [OF scoped_perform]]) auto
  qed (simp add: hoare_def)
  show ?thesis unfolding os_CreateTemp_def
  proof (rule hoare_bind [OF _ c], rule hoare_get)
    fix s assume "scoped t w s"
    moreover have "in_bin (binDir @ ''/'' @ pre @ e_rand e (trace s))" using assms unfolding in_bin_def by auto
    ultimately show "scoped t w s \<and> in_bin (binDir @ ''/'' @ pre @ e_rand e (trace s))" ..
  qed
qed

lemma writeWrapper_scoped:
  assumes "\<And>h. CHR ''/'' \<notin> set (e_rand e h)" and "validBinaryName name"
  shows "frame (scoped t w) (writeWrapperAtomic e (wrapper_path name) d)"
proof -
  have ns: "CHR ''/'' \<notin> set name" by (rule valid_no_slash [OF assms(2)])
  have ib: "in_bin (wrapper_path name)" unfolding in_bin_def wrapper_path_def using ns by blast
  have body: "hoare (\<lambda>s. scoped t w s \<and> in_bin tmp)
      (unless_committed (bindP (tryP (perform e (CloseFile tmp))) (\<lambda>_. bindP (tryP (perform e (RemoveFile tmp))) (\<lambda>_. retP ())))
        (bindP (wrapP g1 (perform e (WriteTemp tmp d))) (\<lambda>_. bindP (wrapP g2 (perform e (ChmodFile tmp mode))) (\<lambda>_.
          bindP (wrapP g3 (perform e (SyncFile tmp))) (\<lambda>_. bindP (wrapP g4 (perform e (CloseFile tmp))) (\<lambda>_.
            wrapP g5 (perform e (RenameFile tmp (wrapper_path name))))))))) (\<lambda>_. scoped t w) (\<lambda>_. scoped t w)"
    for tmp g1 g2 g3 g4 g5 mode
  proof (cases "in_bin tmp")
    case True
    have "frame (scoped t w)
      (unless_committed (bindP (tryP (perform e (CloseFile tmp))) (\<lambda>_. bindP (tryP (perform e (RemoveFile tmp))) (\<lambda>_. retP ())))
        (bindP (wrapP g1 (perform e (WriteTemp tmp d))) (\<lambda>_. bindP (wrapP g2 (perform e (ChmodFile tmp mode))) (\<lambda>_.
          bindP (wrapP g3 (perform e (SyncFile tmp))) (\<lambda>_. bindP (wrapP g4 (perform e (CloseFile tmp))) (\<lambda>_.
            wrapP g5 (perform e (RenameFile tmp (wrapper_path name)))))))))"
      using True ib by (intro frame_rules scoped_perform) simp_all
    then show ?thesis by (intro hoare_conseq [OF frame_hoare]) auto
  qed (simp add: hoare_def)
  show ?thesis unfolding writeWrapperAtomic_def conjunct1 [OF slash_free_path [OF ns]] conjunct2 [OF slash_free_path [OF ns]]
    by (rule frameI, rule hoare_bind [OF hoare_wrap [OF scoped_create] body]) (use assms(1) ns in auto)
qed

lemma matches_scoped: "frame (scoped t w) (wrapperFileMatches e path expected)"
  unfolding wrapperFileMatches_def os_ReadFile_def os_Lstat_def by (rule scoped_calls) (intro calls_rules; simp)

lemma install_scoped:
  assumes "\<And>h. CHR ''/'' \<notin> set (e_rand e h)" and "validBinaryName name"
  shows "hoare (\<lambda>s. scoped t w s \<and> valid_names (pg_updated pg)) (install_step e binaries name pg)
    (\<lambda>pg' s. scoped t w s \<and> valid_names (pg_updated pg')) (\<lambda>_. scoped t w)"
proof (cases "valid_names (pg_updated pg)")
  case True
  have ins: "frame (scoped t w) (inspectProvider e target)" for target
    unfolding inspectProvider_def by (rule scoped_calls) (intro calls_rules; simp)
  have res: "valid_names (pg_updated (case q of Inl er \<Rightarrow> pg_fail er pg | Inr _ \<Rightarrow> pg\<lparr>pg_updated := mput name target (pg_updated pg)\<rparr>))"
    for q :: "unit result" and target
    using True assms(2) by (cases q) simp_all
  show ?thesis unfolding install_step_def Let_def
    by (rule hoare_bind [where R = "\<lambda>_. scoped t w"], rule hoare_try, rule hoare_conseq [OF frame_hoare [OF ins]], simp, simp, simp,
        rule hoare_case_sum, rule hoare_ret, simp add: True, rule hoare_if, rule hoare_ret, simp add: True,
        rule hoare_bind [where R = "\<lambda>_. scoped t w"], rule hoare_try,
        rule frame_hoare [OF writeWrapper_scoped [OF assms]], rule hoare_ret, simp add: res)
qed (simp add: hoare_def)

lemma cleanup_scoped:
  assumes "validBinaryName name"
  shows "hoare (\<lambda>s. scoped t w s \<and> valid_names (pg_updated pg)) (cleanup_step e applied binaries name pg)
    (\<lambda>pg' s. scoped t w s \<and> valid_names (pg_updated pg')) (\<lambda>_. scoped t w)"
proof (cases "valid_names (pg_updated pg)")
  case True
  have ib: "in_bin (wrapper_path name)" unfolding in_bin_def wrapper_path_def using valid_no_slash [OF assms] by blast
  have rm: "hoare (scoped t w) (tryP (perform e (RemoveFile (wrapper_path name)))) (\<lambda>_. scoped t w) (\<lambda>_. scoped t w)"
    using ib by (intro hoare_try frame_hoare [OF scoped_perform]) simp
  have mt: "hoare (scoped t w) (wrapperFileMatches e p d) (\<lambda>_. scoped t w) (\<lambda>_. scoped t w)" for p d
    by (rule frame_hoare [OF matches_scoped])
  show ?thesis unfolding cleanup_step_def Let_def
    by (rule hoare_if, rule hoare_ret, simp,
        rule hoare_bind [where R = "\<lambda>_. scoped t w"], rule hoare_conseq [OF mt], simp, simp, simp,
        rule hoare_if, rule hoare_ret, simp add: True,
        rule hoare_bind [OF rm], rule hoare_ret) (simp add: True split: sum.split)
qed (simp add: hoare_def)

lemma judge_valid: "validBinaryName b \<Longrightarrow> valid_names (se_binaries sel) \<and> valid_names (se_available sel) \<Longrightarrow>
    valid_names (se_binaries (judge b cid r sel)) \<and> valid_names (se_available (judge b cid r sel))"
  by (auto simp: judge_def pick_def Let_def split: sum.split)

lemma consider_scoped:
  "hoare (\<lambda>s. scoped t w s \<and> valid_names (se_binaries sel) \<and> valid_names (se_available sel)) (consider_container e hostUUID c sel)
    (\<lambda>sel' s. scoped t w s \<and> valid_names (se_binaries sel') \<and> valid_names (se_available sel')) (\<lambda>_. scoped t w)"
proof (cases "valid_names (se_binaries sel) \<and> valid_names (se_available sel)")
  case True
  have ins: "hoare (scoped t w) (tryP (inspectProvider e target)) (\<lambda>_. scoped t w) (\<lambda>_. scoped t w)" for target
    unfolding inspectProvider_def by (rule hoare_try, rule frame_hoare, rule scoped_calls) (intro calls_rules; simp)
  show ?thesis unfolding consider_container_def Let_def
    by (rule hoare_if, rule hoare_if, rule hoare_if, rule hoare_ret, simp,
        rule hoare_bind [where R = "\<lambda>_. scoped t w"], rule hoare_conseq [OF ins], simp, simp, simp, rule hoare_ret)
      (auto intro!: hoare_ret simp: judge_valid True)
qed (auto simp: hoare_def)

lemma select_scoped:
  "hoare (scoped t w) (select_providers e hostUUID ds)
    (\<lambda>sel s. scoped t w s \<and> valid_names (se_binaries sel) \<and> valid_names (se_available sel)) (\<lambda>_. scoped t w)"
proof -
  let ?I = "\<lambda>sel s. scoped t w s \<and> valid_names (se_binaries sel) \<and> valid_names (se_available sel)"
  have "hoare (?I empty_selection) (foldP (\<lambda>key. foldP (consider_container e hostUUID) (svc_Containers (mget zero_Service ds key))) keys empty_selection)
      ?I (\<lambda>_. scoped t w)" for keys
    by (intro hoare_fold consider_scoped)
  then have f: "hoare (scoped t w) (foldP (\<lambda>key. foldP (consider_container e hostUUID) (svc_Containers (mget zero_Service ds key))) keys empty_selection)
      ?I (\<lambda>_. scoped t w)" for keys
    by (rule hoare_conseq) (simp_all add: empty_selection_def valid_names_def)
  show ?thesis unfolding select_providers_def
    by (rule hoare_bind [OF frame_hoare [OF frame_range_keys] f])
qed

lemma preserve_valid: "valid_names b \<Longrightarrow> (\<forall>name \<in> set keys. validBinaryName name) \<Longrightarrow> valid_names (preserve applied uncertain keys b)"
  unfolding preserve_def by (induction keys arbitrary: b) auto

text \<open>The record after a reconcile.\<close>

definition scoped_valid :: "event list \<Rightarrow> 'a bx_state_scheme \<Rightarrow> bool" where
  "scoped_valid t s \<longleftrightarrow> only_since t wrapper_scope s \<and> valid_names (bx_applied s)"

lemma scoped_weak: "valid_names w \<Longrightarrow> scoped t w s \<Longrightarrow> scoped_valid t s"
  unfolding scoped_def scoped_valid_def by blast

lemma apply_scoped:
  assumes "\<And>h. CHR ''/'' \<notin> set (e_rand e h)" and "valid_names binaries" and "valid_names w"
  shows "hoare (scoped t w) (bx_apply e binaries) (\<lambda>_. scoped_valid t) (\<lambda>_. scoped_valid t)"
proof -
  note weak = scoped_weak [OF assms(3)]
  let ?J = "\<lambda>pg s. scoped t w s \<and> valid_names (pg_updated pg)"
  have mk: "hoare (scoped t w) (wrapP g (perform e (MkdirAll binDir))) (\<lambda>_. scoped t w) (\<lambda>_. scoped_valid t)" for g
    by (rule hoare_wrap, rule hoare_conseq [OF frame_hoare [OF scoped_perform]]) (auto intro: weak)
  have ins: "hoare (?J pg) (foldP (install_step e binaries) names pg) ?J (\<lambda>_. scoped_valid t)" if "set names = fst ` set binaries" for names pg
    by (rule hoare_conseq [OF hoare_fold [where I = ?J and E = "\<lambda>_. scoped t w"]])
      (use assms(1,2) that in \<open>auto simp: valid_names_def [of binaries] intro: weak install_scoped\<close>)
  have cl: "hoare (?J pg) (foldP (cleanup_step e w binaries) names pg) ?J (\<lambda>_. scoped_valid t)" if "set names = fst ` set w" for names pg
    by (rule hoare_conseq [OF hoare_fold [where I = ?J and E = "\<lambda>_. scoped t w"]])
      (use assms(3) that in \<open>auto simp: valid_names_def [of w] intro: weak cleanup_scoped\<close>)
  have fin: "hoare (?J pg) (bindP (modifyP (\<lambda>s. s\<lparr>bx_applied := pg_updated pg\<rparr>)) (\<lambda>_.
       case errors_join (pg_errors pg) of
         None \<Rightarrow> bindP (time_Now e) (\<lambda>now. modifyP (\<lambda>s. s\<lparr>bx_lastApplied := Some now\<rparr>))
       | Some er \<Rightarrow> raiseP er)) (\<lambda>_. scoped_valid t) (\<lambda>_. scoped_valid t)" for pg
    by (rule hoareI)
      (auto simp: bindP_def modifyP_def time_Now_def raiseP_def scoped_def scoped_valid_def since_def split: option.splits)
  show ?thesis unfolding bx_apply_def
  proof (rule hoare_bind [OF mk], rule hoare_bind_get [where w = w], simp add: scoped_def, rule hoare_bind_range)
    fix names :: "string list" assume names: "set names = fst ` set binaries"
    show "hoare (scoped t w) (bindP (foldP (install_step e binaries) names \<lparr>pg_updated = w, pg_unavailable = [], pg_errors = []\<rparr>) (\<lambda>pg.
     bindP (range_keys e w) (\<lambda>old. bindP (foldP (cleanup_step e w binaries) old pg) (\<lambda>pg'.
     bindP (modifyP (\<lambda>s. s\<lparr>bx_applied := pg_updated pg'\<rparr>)) (\<lambda>_.
       case errors_join (pg_errors pg') of
         None \<Rightarrow> bindP (time_Now e) (\<lambda>now. modifyP (\<lambda>s. s\<lparr>bx_lastApplied := Some now\<rparr>))
       | Some er \<Rightarrow> raiseP er))))) (\<lambda>_. scoped_valid t) (\<lambda>_. scoped_valid t)"
      by (rule hoare_conseq [OF hoare_bind [OF ins [OF names]]], rule hoare_bind_range, rule hoare_bind [OF cl fin])
        (use assms(3) in auto)
  qed
qed

lemma scoped_step: "valid_names w \<Longrightarrow> frame (scoped t w) m \<Longrightarrow> hoare (scoped t w) m (\<lambda>_. scoped t w) (\<lambda>_. scoped_valid t)"
  by (rule hoare_conseq [OF frame_hoare], assumption, assumption, assumption, rule scoped_weak)

text \<open>A reconcile - whatever metadata or Docker answer and whatever fails - changes files directly in the
  wrapper directory only: no name from metadata or from the record can lead outside it.  It runs no
  command, and every name in the record stays a valid binary name.\<close>

theorem wrappers_confined:
  assumes "\<And>h. CHR ''/'' \<notin> set (e_rand e h)" and "valid_names (bx_applied s)" and "bx_onChange e s = (r, s')"
  shows "valid_names (bx_applied s') \<and> (\<exists>u. trace s' = trace s @ u \<and> (\<forall>c \<in> set (calls_of u). wrapper_scope c))"
proof -
  let ?w = "bx_applied s" and ?t = "trace s"
  let ?post = "\<lambda>_. scoped_valid ?t"
  note weak = scoped_weak [OF assms(2)]
  have reads: "frame (scoped ?t ?w) (getServices e)" "frame (scoped ?t ?w) (LocalHostUUID e)"
    "frame (scoped ?t ?w) (bx_needs_apply e b)" for b
  proof -
    show "frame (scoped ?t ?w) (getServices e)" by (rule scoped_calls) (intro calls_rules; simp)
    show "frame (scoped ?t ?w) (LocalHostUUID e)"
      by (rule scoped_calls, rule calls_mono [OF calls_LocalHostUUID], rule reads_scope)
    have "frame (scoped ?t ?w) (files_match e b names)" for names
      by (induction names) (auto intro!: frame_rules matches_scoped)
    moreover have "frame (scoped ?t ?w) (time_Now e)" by (rule scoped_calls) (intro calls_rules; simp)
    ultimately show "frame (scoped ?t ?w) (bx_needs_apply e b)" unfolding bx_needs_apply_def wrapperFilesMatch_def
      by (intro frame_rules) auto
  qed
  note step = scoped_step [OF assms(2)]
  have out: "hoare (scoped_valid ?t) (raise_all errs) ?post ?post" for errs
    unfolding raise_all_def by (auto intro: hoare_ret hoare_raise split: option.split)
  have out': "hoare (scoped ?t ?w) (raise_all errs) ?post ?post" for errs
    by (rule hoare_conseq [OF out]) (auto intro: weak)
  have sel: "hoare (scoped ?t ?w) (select_providers e hostUUID ds)
      (\<lambda>sel s. scoped ?t ?w s \<and> valid_names (se_binaries sel) \<and> valid_names (se_available sel)) ?post" for hostUUID ds
    by (rule hoare_conseq [OF select_scoped], assumption, assumption, rule weak)
  have "hoare (scoped ?t ?w) (bx_onChange e) ?post ?post"
    unfolding bx_onChange_def
  proof (rule hoare_bind [OF step [OF reads(1)]], rule hoare_bind [OF step [OF reads(2)]], rule hoare_bind [OF sel])
    fix services hostUUID sel
    show "hoare (\<lambda>s. scoped ?t ?w s \<and> valid_names (se_binaries sel) \<and> valid_names (se_available sel))
     (bindP (getP bx_applied) (\<lambda>applied. bindP (range_keys e applied) (\<lambda>old. bindP (range_keys e (se_available sel)) (\<lambda>names.
       let binaries = preserve applied (se_uncertain sel) old (se_binaries sel); errs = se_errors sel @ missing_errors binaries names
       in bindP (bx_needs_apply e binaries) (\<lambda>needsApply. if \<not> needsApply then raise_all errs
            else bindP (tryP (bx_apply e binaries)) (\<lambda>r. raise_all (errs @ (case r of Inl er \<Rightarrow> [er] | Inr _ \<Rightarrow> []))))))))
     ?post ?post"
    proof (cases "valid_names (se_binaries sel)")
      case True
      show ?thesis unfolding Let_def
      proof (rule hoare_conseq, rule hoare_bind_get [where w = ?w and P = "scoped ?t ?w"], simp add: scoped_def,
          rule hoare_bind_range, rule hoare_bind_range, rule hoare_bind [OF step [OF reads(3)]], rule hoare_if, rule out')
        fix old names :: "string list" and needsApply
        assume "set old = fst ` set ?w"
        then have v: "valid_names (preserve ?w (se_uncertain sel) old (se_binaries sel))"
          using True assms(2) by (intro preserve_valid) (auto simp: valid_names_def)
        show "hoare (scoped ?t ?w) (bindP (tryP (bx_apply e (preserve ?w (se_uncertain sel) old (se_binaries sel))))
          (\<lambda>r. raise_all ((se_errors sel @ missing_errors (preserve ?w (se_uncertain sel) old (se_binaries sel)) names)
             @ (case r of Inl er \<Rightarrow> [er] | Inr _ \<Rightarrow> [])))) ?post ?post"
          by (rule hoare_bind [OF hoare_try [OF apply_scoped [OF assms(1) v assms(2)]] out])
      qed auto
    qed (simp add: hoare_def)
  qed
  from keepsD_any [OF this _ assms(3)] show ?thesis by (auto simp: scoped_def scoped_valid_def since_def calls_of_def)
qed

theorem wrappers_confined_witness:
  "valid_names (bx_applied (snd (bx_onChange quiet_env bx_start)))
   \<and> list_all wrapper_scope (calls_of (trace (snd (bx_onChange quiet_env bx_start))))"
proof -
  have r: "CHR ''/'' \<notin> set (e_rand quiet_env h)" for h by (simp add: quiet_env_def)
  have "validBinaryName ''ipam''" by code_simp
  then have v: "valid_names (bx_applied bx_start)" by (simp add: valid_names_def bx_start_def)
  obtain r s' where h: "bx_onChange quiet_env bx_start = (r, s')" by fastforce
  have "trace bx_start = []" by (simp add: bx_start_def)
  then show ?thesis using wrappers_confined [OF r v h] h by (auto simp: list_all_iff)
qed

end
