(* ===== verification/CniConf.thy ===== *)
theory CniConf
  imports BinExecSafe Json
begin

text \<open>
  The CNI configuration watcher (\<open>src/cniconf/watcher.go\<close>, \<open>src/cniconf/files.go\<close>): the files of a network's
  \<open>cniConfig\<close> metadata are validated and serialized, written one by one with an atomic replacement, the
  \<open>managed.d\<close> link follows the default network, and the file of the other platform generation is retired
  to a backup.  What the CNI library says about a file and how Go prints a float are parameters.
\<close>

section \<open>Names and paths\<close>

definition legacyConfigName :: string where "legacyConfigName = ''10-rancher.conf''"
definition currentConfigName :: string where "currentConfigName = ''10-pasturestack.conf''"
definition retiredSuffix :: string where "retiredSuffix = ''.pasturestack-retired''"

text \<open>\<open>fmt.Sprintf("/etc/cni/%s.d", name)\<close>.\<close>

definition cniDir :: "string \<Rightarrow> string" where "cniDir name = ''/etc/cni/'' @ name @ ''.d''"

definition validConfigName :: "string \<Rightarrow> bool" where
  "validConfigName name \<longleftrightarrow> \<not> (name = [] \<or> name = ''.'' \<or> name = ''..'') \<and> list_all name_char name"

text \<open>The directory and its ancestors; the chain ends at the root, whose parent is itself.\<close>

function dir_chain :: "string \<Rightarrow> string list" where
  "dir_chain p = p # (if length (path_dir p) < length p then dir_chain (path_dir p) else [])"
  by pat_completeness auto
termination by (relation "measure length") auto

declare dir_chain.simps [simp del]

definition check_dir :: "env \<Rightarrow> string \<Rightarrow> ('a world_scheme, unit) proc" where
  "check_dir e current =
     bindP (tryP (os_LstatDir e current)) (\<lambda>r.
       case r of
         Inr info \<Rightarrow> if \<not> fi_Dir info \<or> fi_Symlink info
           then raiseP (Errorf ''CNI directory is not a regular directory: %s'' [current]) else retP ()
       | Inl er \<Rightarrow> if \<not> os_is_not_exist er then raiseP er else retP ())"

definition checkConfigDirectory :: "env \<Rightarrow> string \<Rightarrow> ('a world_scheme, unit) proc" where
  "checkConfigDirectory e path = forP (check_dir e) (dir_chain path)"

definition ensureConfigDirectory :: "env \<Rightarrow> string \<Rightarrow> ('a world_scheme, unit) proc" where
  "ensureConfigDirectory e path = bindP (checkConfigDirectory e path) (\<lambda>_. perform e (MkdirAll path))"

definition checkConfigFile :: "env \<Rightarrow> string \<Rightarrow> ('a world_scheme, unit) proc" where
  "checkConfigFile e path =
     bindP (tryP (os_Lstat e path)) (\<lambda>r.
       case r of
         Inl er \<Rightarrow> if os_is_not_exist er then retP () else raiseP er
       | Inr info \<Rightarrow> if \<not> fi_Regular info then raiseP (Errorf ''CNI file is not a regular file: %s'' [path]) else retP ())"

section \<open>Serialising a configuration\<close>

text \<open>\<open>libcni.NetworkPluginConfFromBytes\<close> (its error) and \<open>encoding/json\<close>'s rendering of a \<open>float64\<close> given by its
  literal.\<close>

record conf_lib =
  cl_check :: "string \<Rightarrow> gerr option"
  cl_number :: "string \<Rightarrow> string"

text \<open>The line and paragraph separators are escaped besides what \<open>json_escape\<close> treats.\<close>

fun escape_text :: "string \<Rightarrow> string" where
  "escape_text [] = []"
| "escape_text (c # s) =
     (if c = CHR 0xE2 \<and> prefix [CHR 0x80, CHR 0xA8] s then CHR 0x5C # ''u2028'' @ escape_text (drop 2 s)
      else if c = CHR 0xE2 \<and> prefix [CHR 0x80, CHR 0xA9] s then CHR 0x5C # ''u2029'' @ escape_text (drop 2 s)
      else json_escape c @ escape_text s)"

definition text_quote :: "string \<Rightarrow> string" where
  "text_quote s = dquote @ escape_text s @ dquote"

definition indent :: "nat \<Rightarrow> string" where
  "indent d = nl @ concat (replicate d ''  '')"

definition block :: "string \<Rightarrow> string \<Rightarrow> nat \<Rightarrow> string list \<Rightarrow> string" where
  "block open_text close_text d items =
     (if items = [] then open_text @ close_text
      else open_text @ str_join '','' (map (\<lambda>t. indent (Suc d) @ t) items) @ indent d @ close_text)"

text \<open>\<open>json.MarshalIndent(config, "", "  ")\<close>: object members in key order.\<close>

fun pretty :: "(string \<Rightarrow> string) \<Rightarrow> nat \<Rightarrow> json \<Rightarrow> string" where
  "pretty num d JNull = ''null''"
| "pretty num d (JBool b) = json_bool b"
| "pretty num d (JNum l) = num l"
| "pretty num d (JStr s) = text_quote s"
| "pretty num d (JArr vs) = block ''['' '']'' d (map (pretty num (Suc d)) vs)"
| "pretty num d (JObj m) =
     block ''{'' ''}'' d (map (\<lambda>kv. text_quote (fst kv) @ '': '' @ snd kv)
       (sort_key fst (map (\<lambda>kv. (fst kv, pretty num (Suc d) (snd kv))) m)))"

definition marshal_config :: "conf_lib \<Rightarrow> json \<Rightarrow> string" where
  "marshal_config lib config = pretty (cl_number lib) 0 config"

section \<open>Preparing\<close>

text \<open>A desired file: path and content.\<close>

type_synonym config_file = "string \<times> string"

definition prepare_step :: "env \<Rightarrow> conf_lib \<Rightarrow> string \<Rightarrow> json gomap \<Rightarrow> string \<Rightarrow> config_file list \<Rightarrow> ('a world_scheme, config_file list) proc" where
  "prepare_step e lib directory configs name acc =
     (if \<not> validConfigName name then raiseP (Errorf ''invalid CNI config filename %q'' [name])
      else
        let path = directory @ ''/'' @ name; content = marshal_config lib (mget JNull configs name) in
        bindP (checkConfigFile e path) (\<lambda>_.
          case cl_check lib content of
            Some er \<Rightarrow> raiseP (Wrapf ''validate CNI config %q: %w'' [name] er)
          | None \<Rightarrow> retP (acc @ [(path, content)])))"

definition prepareConfigFiles :: "env \<Rightarrow> conf_lib \<Rightarrow> string \<Rightarrow> json gomap \<Rightarrow> ('a world_scheme, config_file list) proc" where
  "prepareConfigFiles e lib directory configs =
     bindP (checkConfigDirectory e directory) (\<lambda>_.
     bindP (range_keys e configs) (\<lambda>names.
     bindP (foldP (prepare_step e lib directory configs) names []) (\<lambda>files'.
       retP (sort_key fst files'))))"

definition writeConfigAtomic :: "env \<Rightarrow> string \<Rightarrow> string \<Rightarrow> ('a world_scheme, unit) proc" where
  "writeConfigAtomic e path content =
     bindP (checkConfigFile e path) (\<lambda>_.
     bindP (wrapP (Wrapf ''create CNI config temporary file: %w'' [])
              (os_CreateTemp e (path_dir path) (''.'' @ path_base path @ ''.tmp-''))) (\<lambda>name.
       finallyP
         (bindP (wrapP (Wrapf ''write CNI config temporary file: %w'' []) (perform e (WriteTemp name content))) (\<lambda>_.
          bindP (perform e (ChmodFile name 384)) (\<lambda>_.
          bindP (perform e (SyncFile name)) (\<lambda>_.
          bindP (perform e (CloseFile name)) (\<lambda>_.
          bindP (checkConfigFile e path) (\<lambda>_.
            wrapP (Wrapf ''install CNI config: %w'' []) (perform e (RenameFile name path))))))))
         (bindP (tryP (perform e (CloseFile name))) (\<lambda>_. perform e (RemoveFile name)))))"

section \<open>Retiring the other generation's file\<close>

record bridgeContract =
  bc_Name :: string
  bc_Type :: string
  bc_IPAM :: string

definition contract_fields :: "bridgeContract \<Rightarrow> string list" where
  "contract_fields c = [bc_Name c, bc_Type c, bc_IPAM c]"

text \<open>\<open>json.Unmarshal\<close> into the contract; each \<open>ipam\<close> member decodes into the same struct.\<close>

definition dec_contract :: "string \<Rightarrow> bridgeContract result" where
  "dec_contract content =
     (case json_parse content of
        None \<Rightarrow> Inl (EnvErr ''invalid JSON'')
      | Some v \<Rightarrow>
          bindR (dec_object v) (\<lambda>ms.
          bindR (dec_string ''name'' ms) (\<lambda>nam.
          bindR (dec_string ''type'' ms) (\<lambda>typ.
          bindR (foldR (\<lambda>x acc. bindR (dec_object x) (\<lambda>ims.
                   if field_values ''type'' ims = [] then Inr acc else dec_string ''type'' ims)) (field_values ''ipam'' ms) []) (\<lambda>ipam.
            Inr \<lparr>bc_Name = nam, bc_Type = typ, bc_IPAM = ipam\<rparr>)))))"

definition matchingContractFields :: "bridgeContract \<Rightarrow> string list \<Rightarrow> nat" where
  "matchingContractFields config expected = length (filter (\<lambda>(a, x). a = x) (zip (contract_fields config) expected))"

definition currentContract :: "string list" where
  "currentContract = [''pasturestack-cni-network'', ''pasture-bridge'', ''metadata-cni-ipam'']"

definition legacyContract :: "string list" where
  "legacyContract = [''rancher-cni-network'', ''rancher-bridge'', ''rancher-cni-ipam'']"

record legacyRetirement =
  lr_path :: string
  lr_backup :: string
  lr_content :: string

definition checkBackup :: "env \<Rightarrow> legacyRetirement \<Rightarrow> ('a world_scheme, unit) proc" where
  "checkBackup e r =
     bindP (checkConfigFile e (lr_backup r)) (\<lambda>_.
     bindP (tryP (os_ReadFile e (lr_backup r))) (\<lambda>q.
       case q of
         Inl er \<Rightarrow> if os_is_not_exist er then retP () else raiseP er
       | Inr backup \<Rightarrow> if backup \<noteq> lr_content r
           then raiseP (Errorf ''retired CNI backup differs from active legacy config: %s'' [lr_backup r]) else retP ()))"

text \<open>The last requested file with a given base name.\<close>

definition file_named :: "string \<Rightarrow> config_file list \<Rightarrow> config_file option" where
  "file_named name files' = find (\<lambda>f. path_base (fst f) = name) (rev files')"

definition classify_old :: "env \<Rightarrow> conf_lib \<Rightarrow> string \<Rightarrow> string list \<Rightarrow> ('a world_scheme, legacyRetirement option) proc" where
  "classify_old e lib path oldExpected =
     bindP (checkConfigFile e path) (\<lambda>_.
     bindP (tryP (os_ReadFile e path)) (\<lambda>q.
       case q of
         Inl er \<Rightarrow> if os_is_not_exist er then retP None else raiseP er
       | Inr content \<Rightarrow>
           (case cl_check lib content of
              Some er \<Rightarrow> raiseP (Wrapf ''cannot classify legacy CNI config %s: %w'' [path] er)
            | None \<Rightarrow>
                bindP (wrapP (Wrapf ''cannot classify legacy CNI config %s: %w'' [path]) (liftP (dec_contract content))) (\<lambda>old.
                  let ownedFields = matchingContractFields old oldExpected in
                  if ownedFields = 0 then retP None
                  else if ownedFields \<noteq> 3 then raiseP (Errorf ''ambiguous platform ownership of legacy CNI config %s'' [path])
                  else
                    let retirement = \<lparr>lr_path = path, lr_backup = path @ retiredSuffix, lr_content = content\<rparr> in
                    bindP (checkBackup e retirement) (\<lambda>_. retP (Some retirement))))))"

definition prepareLegacyRetirement :: "env \<Rightarrow> conf_lib \<Rightarrow> string \<Rightarrow> config_file list \<Rightarrow> ('a world_scheme, legacyRetirement option) proc" where
  "prepareLegacyRetirement e lib directory files' =
     (let current = file_named currentConfigName files'; legacy = file_named legacyConfigName files' in
      case (current, legacy) of
        (Some successor, None) \<Rightarrow>
          (case dec_contract (snd successor) of
             Inr desired \<Rightarrow> if matchingContractFields desired currentContract \<noteq> 3 then retP None
               else classify_old e lib (directory @ ''/'' @ legacyConfigName) legacyContract
           | Inl _ \<Rightarrow> retP None)
      | (None, Some successor) \<Rightarrow>
          (case dec_contract (snd successor) of
             Inr desired \<Rightarrow> if matchingContractFields desired legacyContract \<noteq> 3 then retP None
               else classify_old e lib (directory @ ''/'' @ currentConfigName) currentContract
           | Inl _ \<Rightarrow> retP None)
      | _ \<Rightarrow> retP None)"

definition retire_file :: "env \<Rightarrow> legacyRetirement \<Rightarrow> ('a world_scheme, unit) proc" where
  "retire_file e r =
     bindP (checkConfigFile e (lr_path r)) (\<lambda>_.
     bindP (os_ReadFile e (lr_path r)) (\<lambda>content.
       if content \<noteq> lr_content r then raiseP (Errorf ''legacy CNI config changed during migration: %s'' [lr_path r])
       else
         bindP (checkBackup e r) (\<lambda>_.
         bindP (tryP (os_Lstat e (lr_backup r))) (\<lambda>q.
           case q of
             Inr _ \<Rightarrow> perform e (RemoveFile (lr_path r))
           | Inl er \<Rightarrow> if \<not> os_is_not_exist er then raiseP er else perform e (RenameFile (lr_path r) (lr_backup r))))))"

definition retire :: "env \<Rightarrow> legacyRetirement option \<Rightarrow> ('a world_scheme, unit) proc" where
  "retire e retirement = (case retirement of None \<Rightarrow> retP () | Some r \<Rightarrow> retire_file e r)"

section \<open>The managed link\<close>

definition replaceManagedSymlink :: "env \<Rightarrow> string \<Rightarrow> string \<Rightarrow> ('a world_scheme, unit) proc" where
  "replaceManagedSymlink e path target =
     bindP (bindP (tryP (os_Lstat e path)) (\<lambda>r.
         case r of
           Inr info \<Rightarrow> if \<not> fi_Symlink info then raiseP (Errorf ''managed CNI path is not a symlink: %s'' [path]) else retP ()
         | Inl er \<Rightarrow> if \<not> os_is_not_exist er then raiseP er else retP ())) (\<lambda>_.
     bindP (os_CreateTemp e (path_dir path) ''.managed.d.tmp-'') (\<lambda>staged.
     bindP (unless_committed (bindP (tryP (perform e (RemoveFile staged))) (\<lambda>_. retP ())) (perform e (CloseFile staged))) (\<lambda>_.
       finallyP
         (bindP (perform e (RemoveFile staged)) (\<lambda>_.
          bindP (perform e (Symlink target staged)) (\<lambda>_.
            perform e (RenameFile staged path))))
         (perform e (RemoveFile staged)))))"

section \<open>The watcher\<close>

record cn_state = world +
  cn_applied :: "Network gomap"
  cn_lastApplied :: "int option"

definition cn_reapplyEvery :: int where "cn_reapplyEvery = 5 * 60 * second"

definition hasCniConfig :: "Network \<Rightarrow> bool" where
  "hasCniConfig n \<longleftrightarrow> is_obj (map_of (net_Metadata n) ''cniConfig'')"

definition localCNINetworks :: "Network list \<Rightarrow> Service list \<Rightarrow> string \<Rightarrow> unit gomap" where
  "localCNINetworks networks services hostUUID =
     (if \<not> (\<exists>svc \<in> set services. svc_Kind svc = ''networkDriverService'' \<and> (\<exists>c \<in> set (svc_Containers svc). ctr_HostUUID c = hostUUID))
      then []
      else fold (\<lambda>n m. if hasCniConfig n then mput (net_UUID n) () m else m) networks [])"

text \<open>\<open>reflect.DeepEqual\<close> of two networks: JSON objects are maps, so their members are compared in key order.\<close>

fun json_canon :: "json \<Rightarrow> json" where
  "json_canon (JArr vs) = JArr (map json_canon vs)"
| "json_canon (JObj m) = JObj (sort_key fst (map (\<lambda>kv. (fst kv, json_canon (snd kv))) m))"
| "json_canon v = v"

definition network_eq :: "Network \<Rightarrow> Network \<Rightarrow> bool" where
  "network_eq a b \<longleftrightarrow> a\<lparr>net_Metadata := []\<rparr> = b\<lparr>net_Metadata := []\<rparr>
     \<and> json_canon (JObj (net_Metadata a)) = json_canon (JObj (net_Metadata b))"

text \<open>\<open>os.Stat\<close> of both directories and \<open>os.SameFile\<close>.\<close>

definition managed_is :: "env \<Rightarrow> string \<Rightarrow> string \<Rightarrow> ('a world_scheme, bool) proc" where
  "managed_is e managedDir confDir =
     bindP (tryP (perform e (StatDir managedDir))) (\<lambda>a.
     bindP (tryP (perform e (StatDir confDir))) (\<lambda>b.
     bindP (getP (\<lambda>s. e_samefile e (trace s) managedDir confDir)) (\<lambda>same.
       retP (a = Inr () \<and> b = Inr () \<and> same))))"

definition link_default :: "env \<Rightarrow> Network \<Rightarrow> ('a world_scheme, unit) proc" where
  "link_default e network =
     whenP (net_Default network)
       (bindP (managed_is e (cniDir ''managed'') (cniDir (net_Name network))) (\<lambda>ok.
          whenP (\<not> ok) (replaceManagedSymlink e (cniDir ''managed'') (net_Name network @ ''.d''))))"

definition cn_install :: "env \<Rightarrow> Network \<Rightarrow> config_file list \<Rightarrow> legacyRetirement option \<Rightarrow> ('a cn_state_scheme, unit) proc" where
  "cn_install e network files' retirement =
     bindP (ensureConfigDirectory e (cniDir (net_Name network))) (\<lambda>_.
     bindP (forP (\<lambda>f. writeConfigAtomic e (fst f) (snd f)) files') (\<lambda>_.
     bindP (link_default e network) (\<lambda>_.
     bindP (retire e retirement) (\<lambda>_.
     bindP (modifyP (\<lambda>s. s\<lparr>cn_applied := mput (net_Name network) network (cn_applied s)\<rparr>)) (\<lambda>_.
     bindP (time_Now e) (\<lambda>now. modifyP (\<lambda>s. s\<lparr>cn_lastApplied := Some now\<rparr>)))))))"

definition cn_prepare :: "env \<Rightarrow> conf_lib \<Rightarrow> Network \<Rightarrow> ('a world_scheme, config_file list \<times> legacyRetirement option) proc" where
  "cn_prepare e lib network =
     (let confDir = cniDir (net_Name network) in
      if \<not> validConfigName (net_Name network) then raiseP (Errorf ''invalid CNI network name %q'' [net_Name network])
      else
        bindP (prepareConfigFiles e lib confDir (cni_config network)) (\<lambda>files'.
        bindP (prepareLegacyRetirement e lib confDir files') (\<lambda>retirement. retP (files', retirement))))"

definition cn_apply :: "env \<Rightarrow> conf_lib \<Rightarrow> Network \<Rightarrow> ('a cn_state_scheme, unit) proc" where
  "cn_apply e lib network = bindP (cn_prepare e lib network) (\<lambda>(files', retirement). cn_install e network files' retirement)"

definition cn_network_step :: "env \<Rightarrow> conf_lib \<Rightarrow> unit gomap \<Rightarrow> bool \<Rightarrow> Network \<Rightarrow> gerr list \<Rightarrow> ('a cn_state_scheme, gerr list) proc" where
  "cn_network_step e lib local_nets forceApply network errs =
     (if \<not> mhas local_nets (net_UUID network) \<or> \<not> hasCniConfig network then retP errs
      else
        bindP (getP (\<lambda>s. mget zero_Network (cn_applied s) (net_Name network))) (\<lambda>old.
          if forceApply \<or> \<not> network_eq old network then
            bindP (tryP (cn_apply e lib network)) (\<lambda>r.
              retP (case r of Inl er \<Rightarrow> errs @ [Wrapf ''network %q: %w'' [net_Name network] er] | Inr _ \<Rightarrow> errs))
          else retP errs))"

definition cn_onChange :: "env \<Rightarrow> conf_lib \<Rightarrow> ('a cn_state_scheme, unit) proc" where
  "cn_onChange e lib =
     bindP (getNetworks e) (\<lambda>networks.
     bindP (LocalHostUUID e) (\<lambda>hostUUID.
     bindP (getServices e) (\<lambda>services.
     bindP (time_Now e) (\<lambda>now.
     bindP (getP cn_lastApplied) (\<lambda>lastApplied.
     bindP (foldP (cn_network_step e lib (localCNINetworks networks services hostUUID) (elapsed now lastApplied cn_reapplyEvery)) networks [])
       (\<lambda>errs. raise_all errs))))))"

definition cn_onChangeNoError :: "env \<Rightarrow> conf_lib \<Rightarrow> ('a cn_state_scheme, unit) proc" where
  "cn_onChangeNoError e lib = ignoring (cn_onChange e lib)"

definition cn_Watch :: "('a cn_state_scheme, unit) proc" where
  "cn_Watch = modifyP (\<lambda>s. s\<lparr>cn_applied := [], cn_lastApplied := None\<rparr>)"

end
