(* ===== verification/CniConfSafe.thy ===== *)
theory CniConfSafe
  imports CniConf
begin

text \<open>
  What applying a network's CNI configuration does to the file system: a file is replaced as a whole, the
  managed link always points to the old or to the new directory, nothing is changed before every
  requested file was validated, a file nobody requested stays recoverable, and after a success every
  requested file has its rendered content.
\<close>

section \<open>Looking\<close>

lemma check_file_keeps:
  "(\<And>s. P s \<Longrightarrow> P (after e (Lstat path) s)) \<Longrightarrow> hoare P (checkConfigFile e path) (\<lambda>_. P) (\<lambda>_. P)"
  unfolding checkConfigFile_def os_Lstat_def
  by (rule hoare_bind [OF hoare_try [OF hoare_ask [where Q = "\<lambda>_. P" and E = "\<lambda>_. P"]]])
    (auto intro!: hoare_case_sum hoare_if hoare_ret hoare_raise split: sum.split)

lemma check_file_frame [frame_rules]: "frame (kept p d) (checkConfigFile e path)"
  by (rule frameI, rule check_file_keeps) (simp add: kept_def after_untouched)

lemma check_file_calls [calls_rules]: "calls_only reads_only (checkConfigFile e path)"
  unfolding checkConfigFile_def by (intro calls_rules) simp_all

lemma check_dir_frame [frame_rules]: "frame (kept p d) (checkConfigDirectory e path)"
  unfolding checkConfigDirectory_def check_dir_def by (intro frame_rules)

lemma check_dir_calls [calls_rules]: "calls_only reads_only (checkConfigDirectory e path)"
  unfolding checkConfigDirectory_def check_dir_def by (intro calls_rules) simp_all

lemma check_backup_frame [frame_rules]: "frame (kept p d) (checkBackup e r)"
  unfolding checkBackup_def by (intro frame_rules)

lemma check_backup_calls [calls_rules]: "calls_only reads_only (checkBackup e r)"
  unfolding checkBackup_def by (intro calls_rules) simp_all

lemma retirement_frame [frame_rules]: "frame (kept p d) (prepareLegacyRetirement e lib directory fs)"
  unfolding prepareLegacyRetirement_def classify_old_def Let_def
  by (auto split: option.split sum.split intro!: frame_rules)

lemma retirement_calls [calls_rules]: "calls_only reads_only (prepareLegacyRetirement e lib directory fs)"
  unfolding prepareLegacyRetirement_def classify_old_def Let_def
  by (auto split: option.split sum.split intro!: calls_rules)

lemma prepare_frame [frame_rules]: "frame (kept p d) (cn_prepare e lib network)"
  unfolding cn_prepare_def prepareConfigFiles_def prepare_step_def Let_def by (intro frame_rules)

lemma prepare_calls [calls_rules]: "calls_only reads_only (cn_prepare e lib network)"
  unfolding cn_prepare_def prepareConfigFiles_def prepare_step_def Let_def by (intro calls_rules) 

section \<open>Replacing a file, replacing the link\<close>

text \<open>The work on a temporary file and the clean-up that always follows.\<close>

lemma finally_tmp:
  assumes "hoare P m (\<lambda>_ s. files s path = new) (\<lambda>_ s. files s path = old)"
    and "\<And>x. hoare (\<lambda>s. files s path = x) c (\<lambda>_ s. files s path = x) (\<lambda>_ s. files s path = x)"
  shows "hoare P (finallyP m c) (\<lambda>_ s. files s path = new) (\<lambda>_ s. files s path = old)"
  using assms by (intro hoare_finally)

lemma other_call:
  "path \<notin> touches c \<Longrightarrow> hoare (\<lambda>s. files s path = x) (perform e c) (\<lambda>_ s. files s path = x) (\<lambda>_ s. files s path = x)"
  by (rule hoare_perform) (simp_all add: after_untouched)

lemma held_other:
  "path \<notin> touches c \<Longrightarrow> name \<notin> touches c \<Longrightarrow>
    hoare (held path old name tmp) (perform e c) (\<lambda>_. held path old name tmp) (\<lambda>_ s. files s path = old)"
  by (rule hoare_perform) (auto simp: held_def after_untouched)

lemma held_check: "hoare (held path old name tmp) (checkConfigFile e q) (\<lambda>_. held path old name tmp) (\<lambda>_ s. files s path = old)"
  by (rule hoare_conseq [OF check_file_keeps [where P = "held path old name tmp"]]) (auto simp: held_def after_untouched)

lemma held_write:
  "hoare (held path old name (Some [])) (perform e (WriteTemp name d)) (\<lambda>_. held path old name (Some d)) (\<lambda>_ s. files s path = old)"
  by (rule hoare_perform) (auto simp: held_def after_untouched, simp add: after_def)

lemma held_rename:
  "hoare (held path old name (Some d)) (perform e (RenameFile name path)) (\<lambda>_ s. files s path = Some d) (\<lambda>_ s. files s path = old)"
  by (rule hoare_conseq [OF rename_step], assumption) (erule conjunct1)+

lemma writeConfig_hoare:
  "hoare (\<lambda>s. files s path = old) (writeConfigAtomic e path d) (\<lambda>_ s. files s path = Some d) (\<lambda>_ s. files s path = old)"
proof -
  have body: "hoare (held path old name (Some []))
     (finallyP
         (bindP (wrapP g1 (perform e (WriteTemp name d))) (\<lambda>_. bindP (perform e (ChmodFile name 384)) (\<lambda>_.
          bindP (perform e (SyncFile name)) (\<lambda>_. bindP (perform e (CloseFile name)) (\<lambda>_.
          bindP (checkConfigFile e path) (\<lambda>_. wrapP g2 (perform e (RenameFile name path))))))))
         (bindP (tryP (perform e (CloseFile name))) (\<lambda>_. perform e (RemoveFile name))))
     (\<lambda>_ s. files s path = Some d) (\<lambda>_ s. files s path = old)" for name g1 g2
  proof (cases "name = path")
    case False
    show ?thesis
    proof (rule finally_tmp)
      fix x show "hoare (\<lambda>s. files s path = x) (bindP (tryP (perform e (CloseFile name))) (\<lambda>_. perform e (RemoveFile name)))
          (\<lambda>_ s. files s path = x) (\<lambda>_ s. files s path = x)"
        using False by (intro hoare_bind [where R = "\<lambda>_ s. files s path = x"] hoare_try other_call) auto
    qed (rule hoare_bind [OF hoare_wrap [OF held_write]], rule hoare_bind [OF held_other], simp, simp,
         rule hoare_bind [OF held_other], simp, simp, rule hoare_bind [OF held_other], simp, simp,
         rule hoare_bind [OF held_check], rule hoare_wrap [OF held_rename])
  qed (simp add: hoare_def held_def)
  have create: "hoare (\<lambda>s. files s path = old) (os_CreateTemp e (path_dir path) (''.'' @ path_base path @ ''.tmp-''))
      (\<lambda>name. held path old name (Some [])) (\<lambda>_ s. files s path = old)"
    using tmp_longer by (intro create_step) simp
  show ?thesis unfolding writeConfigAtomic_def
    by (rule hoare_bind [OF check_file_keeps], simp add: after_untouched, rule hoare_bind [OF hoare_wrap [OF create] body])
qed

interpretation config_file: atomic_writer path "\<lambda>d. d" "\<lambda>d. writeConfigAtomic e path d" for path e
  by unfold_locales (rule writeConfig_hoare)

definition managed_link :: string where "managed_link = cniDir ''managed''"

lemma managed_tmp: "path_dir managed_link @ ''/'' @ ''.managed.d.tmp-'' @ r \<noteq> managed_link"
  by (simp add: managed_link_def cniDir_def path_dir_def)

lemma replaceLink_hoare:
  "hoare (\<lambda>s. files s managed_link = old) (replaceManagedSymlink e managed_link target)
    (\<lambda>_ s. files s managed_link = Some target) (\<lambda>_ s. files s managed_link = old)"
proof -
  let ?path = managed_link
  have rm: "hoare (held ?path old name tmp) (perform e (RemoveFile name)) (\<lambda>_. held ?path old name None) (\<lambda>_ s. files s ?path = old)" for name tmp
    by (rule hoare_perform) (auto simp: held_def after_untouched, simp add: after_def)
  have ln: "hoare (held ?path old name None) (perform e (Symlink target name)) (\<lambda>_. held ?path old name (Some target)) (\<lambda>_ s. files s ?path = old)" for name
    by (rule hoare_perform) (auto simp: held_def after_untouched, simp add: after_def)
  have work: "hoare (held ?path old name tmp)
     (finallyP (bindP (perform e (RemoveFile name)) (\<lambda>_. bindP (perform e (Symlink target name)) (\<lambda>_. perform e (RenameFile name ?path))))
       (perform e (RemoveFile name))) (\<lambda>_ s. files s ?path = Some target) (\<lambda>_ s. files s ?path = old)" for name tmp
  proof (cases "name = ?path")
    case False
    show ?thesis
    proof (rule finally_tmp)
      show "hoare (held ?path old name tmp) (bindP (perform e (RemoveFile name)) (\<lambda>_. bindP (perform e (Symlink target name)) (\<lambda>_. perform e (RenameFile name ?path))))
        (\<lambda>_ s. files s ?path = Some target) (\<lambda>_ s. files s ?path = old)"
        by (rule hoare_bind [OF rm], rule hoare_bind [OF ln], rule held_rename)
    qed (use False in \<open>intro other_call, simp\<close>)
  qed (simp add: hoare_def held_def)
  have shut: "hoare (held ?path old name tmp)
     (unless_committed (bindP (tryP (perform e (RemoveFile name))) (\<lambda>_. retP ())) (perform e (CloseFile name)))
     (\<lambda>_. held ?path old name tmp) (\<lambda>_ s. files s ?path = old)" for name tmp
  proof (cases "name = ?path")
    case False
    then show ?thesis
      by (intro hoare_unless_committed held_other hoare_bind [where R = "\<lambda>_ s. files s ?path = old"] hoare_try other_call hoare_ret) auto
  qed (simp add: hoare_def held_def)
  have look: "hoare (\<lambda>s. files s ?path = old) (bindP (tryP (os_Lstat e ?path)) (\<lambda>r.
         case r of
           Inr info \<Rightarrow> if \<not> fi_Symlink info then raiseP (Errorf ''managed CNI path is not a symlink: %s'' [?path]) else retP ()
         | Inl er \<Rightarrow> if \<not> os_is_not_exist er then raiseP er else retP ()))
     (\<lambda>_ s. files s ?path = old) (\<lambda>_ s. files s ?path = old)"
    unfolding os_Lstat_def
    by (rule hoare_bind [OF hoare_try [OF hoare_ask [where Q = "\<lambda>_ s. files s ?path = old" and E = "\<lambda>_ s. files s ?path = old"]]])
      (auto simp: after_untouched intro!: hoare_case_sum hoare_if hoare_ret hoare_raise split: sum.split)
  show ?thesis unfolding replaceManagedSymlink_def
    by (rule hoare_bind [OF look], rule hoare_bind [OF create_step [OF managed_tmp]], rule hoare_bind [OF shut work])
qed

interpretation managed_link: atomic_writer managed_link "\<lambda>d. d" "\<lambda>d. replaceManagedSymlink e managed_link d" for e
  by unfold_locales (rule replaceLink_hoare)

section \<open>What is prepared\<close>

lemma path_base_of: "CHR ''/'' \<notin> set n \<Longrightarrow> path_base (d @ ''/'' @ n) = n"
proof -
  assume n: "CHR ''/'' \<notin> set n"
  have "takeWhile (\<lambda>c. c \<noteq> CHR ''/'') (rev n @ CHR ''/'' # rev d) = rev n"
    using n by (subst takeWhile_append2) auto
  then show ?thesis by (simp add: path_base_def)
qed

lemma file_named_none: "file_named n fs = None \<Longrightarrow> CHR ''/'' \<notin> set n \<Longrightarrow> d @ ''/'' @ n \<notin> fst ` set fs"
  using path_base_of [of n d] by (auto simp: file_named_def find_None_iff simp del: append_Cons)

text \<open>The path and the content of a requested file.\<close>

definition request :: "conf_lib \<Rightarrow> string \<Rightarrow> json gomap \<Rightarrow> string \<Rightarrow> config_file" where
  "request lib directory configs name = (directory @ ''/'' @ name, marshal_config lib (mget JNull configs name))"

definition acceptable :: "conf_lib \<Rightarrow> json gomap \<Rightarrow> string \<Rightarrow> bool" where
  "acceptable lib configs name \<longleftrightarrow> validConfigName name \<and> cl_check lib (marshal_config lib (mget JNull configs name)) = None"

lemma prepare_step_run:
  "prepare_step e lib directory configs name acc s = (Inr acc', s') \<Longrightarrow>
    acceptable lib configs name \<and> acc' = acc @ [request lib directory configs name]"
  by (auto simp: prepare_step_def acceptable_def request_def Let_def bindP_def raiseP_def retP_def split: if_splits option.splits prod.splits sum.splits)

lemma prepare_fold_run:
  "foldP (prepare_step e lib directory configs) names acc s = (Inr fs, s') \<Longrightarrow>
    list_all (acceptable lib configs) names \<and> fs = acc @ map (request lib directory configs) names"
proof (induction names arbitrary: acc s)
  case Nil
  then show ?case by (simp add: retP_def)
next
  case (Cons name names)
  obtain r t where rt: "prepare_step e lib directory configs name acc s = (r, t)" by fastforce
  show ?case
  proof (cases r)
    case (Inr acc')
    then have "foldP (prepare_step e lib directory configs) names acc' t = (Inr fs, s')" using Cons.prems rt by (simp add: bindP_def)
    from Cons.IH [OF this] prepare_step_run [of e lib directory configs name acc s acc' t] rt Inr show ?thesis by simp
  qed (use Cons.prems rt in \<open>simp add: bindP_def\<close>)
qed

lemma prepare_files_run:
  assumes "prepareConfigFiles e lib directory configs s = (Inr fs, s')"
  shows "set fs = request lib directory configs ` fst ` set configs \<and> (\<forall>name \<in> fst ` set configs. acceptable lib configs name)"
proof -
  obtain q t where q: "checkConfigDirectory e directory s = (q, t)" by fastforce
  with assms have q': "q = Inr ()" by (cases q) (auto simp: prepareConfigFiles_def bindP_def)
  from range_keys_set [of e configs t] obtain ks where ks: "range_keys e configs t = (Inr ks, t)" "set ks = fst ` set configs"
    by (metis prod.collapse)
  obtain x u where x: "foldP (prepare_step e lib directory configs) ks [] t = (x, u)" by fastforce
  with assms q q' ks(1) obtain gs where gs: "x = Inr gs" "fs = sort_key fst gs"
    by (cases x) (auto simp: prepareConfigFiles_def bindP_def retP_def)
  from prepare_fold_run [of e lib directory configs ks "[]" t gs u] x gs(1)
  have "list_all (acceptable lib configs) ks" "gs = map (request lib directory configs) ks" by auto
  then show ?thesis using ks(2) gs(2) by (auto simp: list_all_iff)
qed

text \<open>What may be retired: one of the two platform names in the directory, not a requested file, to the backup
  name next to it.\<close>

definition retirable :: "string \<Rightarrow> config_file list \<Rightarrow> legacyRetirement option \<Rightarrow> bool" where
  "retirable directory fs ret \<longleftrightarrow> (case ret of None \<Rightarrow> True | Some r \<Rightarrow>
     lr_backup r = lr_path r @ retiredSuffix \<and> lr_path r \<notin> fst ` set fs
     \<and> lr_path r \<in> {directory @ ''/'' @ legacyConfigName, directory @ ''/'' @ currentConfigName})"

lemma classify_run:
  "classify_old e lib path old s = (Inr ret, s') \<Longrightarrow> (case ret of None \<Rightarrow> True | Some r \<Rightarrow> lr_path r = path \<and> lr_backup r = path @ retiredSuffix)"
  unfolding classify_old_def
  by (auto simp: bindP_def tryP_def wrapP_def wrapR_def liftP_def raiseP_def retP_def Let_def split: prod.splits sum.splits option.splits if_splits)

lemma names_no_slash [simp]: "CHR ''/'' \<notin> set legacyConfigName" "CHR ''/'' \<notin> set currentConfigName"
  by (simp_all add: legacyConfigName_def currentConfigName_def)

lemma retirement_run:
  assumes "prepareLegacyRetirement e lib directory fs s = (Inr ret, s')"
  shows "retirable directory fs ret"
proof -
  have old: "retirable directory fs ret" if "file_named n fs = None" "n \<in> {legacyConfigName, currentConfigName}"
      "classify_old e lib (directory @ ''/'' @ n) old s = (Inr ret, s')" for n old
  proof (cases ret)
    case (Some r)
    have "lr_path r = directory @ ''/'' @ n" "lr_backup r = lr_path r @ retiredSuffix" using classify_run [OF that(3)] Some by simp_all
    moreover have "directory @ ''/'' @ n \<notin> fst ` set fs" using that(2) by (intro file_named_none that(1)) auto
    ultimately show ?thesis using that(2) unfolding retirable_def Some option.case by (metis insert_iff empty_iff)
  qed (simp add: retirable_def)
  have none: "retirable directory fs None" by (simp add: retirable_def)
  show ?thesis using assms old none unfolding prepareLegacyRetirement_def Let_def
    by (auto simp: retP_def split: option.splits sum.splits if_splits)
qed

lemma cn_prepare_run:
  assumes "cn_prepare e lib network s = (Inr (fs, ret), s')"
  shows "set fs = request lib (cniDir (net_Name network)) (cni_config network) ` fst ` set (cni_config network)
    \<and> (\<forall>name \<in> fst ` set (cni_config network). acceptable lib (cni_config network) name)
    \<and> retirable (cniDir (net_Name network)) fs ret"
  using assms unfolding cn_prepare_def Let_def
  by (auto simp: bindP_def raiseP_def retP_def split: if_splits prod.splits sum.splits dest!: prepare_files_run retirement_run)

section \<open>Retiring\<close>

text \<open>The operating system answers "does not exist" only for files that do not exist.\<close>

definition truthful :: "env \<Rightarrow> bool" where
  "truthful e \<longleftrightarrow> (\<forall>t q p. e_fail e t (Lstat q) \<noteq> Some (NotExist p) \<and> e_fail e t (ReadFile q) \<noteq> Some (NotExist p))"

lemma truthful_absent:
  assumes "truthful e" and "outcome e c s = Some er" and "os_is_not_exist er" and "c = Lstat q \<or> c = ReadFile q"
  shows "files s q = None"
proof -
  from assms(3) obtain p where "er = NotExist p" by (cases er) auto
  then show ?thesis using assms by (auto simp: truthful_def outcome_def split: option.splits if_splits)
qed

definition recoverable :: "string \<Rightarrow> string \<Rightarrow> 'a world_scheme \<Rightarrow> bool" where
  "recoverable p d s \<longleftrightarrow> files s p = Some d \<or> files s (p @ retiredSuffix) = Some d"

lemma recoverable_frame: "p \<notin> touches c \<Longrightarrow> p @ retiredSuffix \<notin> touches c \<Longrightarrow> frame (recoverable p d) (perform e c)"
  by (rule frameI, rule hoare_perform) (simp_all add: recoverable_def after_untouched)

lemma present:
  "outcome e (Lstat b) s = None \<Longrightarrow> \<exists>a. files s b = Some a" "outcome e (ReadFile b) s = None \<Longrightarrow> \<exists>a. files s b = Some a"
  by (auto simp: outcome_def split: option.splits if_splits)

lemma absent:
  assumes "truthful e"
  shows "outcome e (Lstat b) s = Some er \<Longrightarrow> os_is_not_exist er \<Longrightarrow> files s b = None"
    "outcome e (ReadFile b) s' = Some er \<Longrightarrow> os_is_not_exist er \<Longrightarrow> files s' b = None"
  by (blast intro: truthful_absent [OF assms])+

text \<open>A look at the backup tells whether it exists; checking it, that it holds the content if it exists.\<close>

definition both :: "string \<Rightarrow> string option \<Rightarrow> string \<Rightarrow> string option \<Rightarrow> 'a world_scheme \<Rightarrow> bool" where
  "both p x b y s \<longleftrightarrow> files s p = x \<and> files s b = y"

lemma both_after [simp]: "p \<notin> touches c \<Longrightarrow> b \<notin> touches c \<Longrightarrow> both p x b y (after e c s) = both p x b y s"
  by (simp add: both_def after_untouched)

lemma both_recoverable: "both p (Some d) b y s \<Longrightarrow> recoverable p d s"
  by (simp add: both_def recoverable_def)

lemma look_at_backup:
  assumes "truthful e"
  shows "hoare (both p x b y) (os_Lstat e b) (\<lambda>_ s. both p x b y s \<and> y \<noteq> None)
    (\<lambda>er s. both p x b y s \<and> (os_is_not_exist er \<longrightarrow> y = None))"
  unfolding os_Lstat_def by (rule hoare_ask) (auto simp: both_def after_untouched dest: present absent [OF assms])

lemma read_backup:
  assumes "truthful e"
  shows "hoare (both p x b y) (os_ReadFile e b) (\<lambda>a s. both p x b y s \<and> y = Some a)
    (\<lambda>er s. both p x b y s \<and> (os_is_not_exist er \<longrightarrow> y = None))"
  unfolding os_ReadFile_def by (rule hoare_ask) (auto simp: both_def after_untouched dest: present absent [OF assms])

lemma backup_checked:
  assumes "truthful e"
  shows "hoare (both p x (lr_backup r) y) (checkBackup e r)
    (\<lambda>_ s. both p x (lr_backup r) y s \<and> (y = None \<or> y = Some (lr_content r))) (\<lambda>_. both p x (lr_backup r) y)"
  unfolding checkBackup_def
  by (rule hoare_bind [OF check_file_keeps [where P = "both p x (lr_backup r) y"]], simp, rule hoare_tryE [OF read_backup [OF assms]])
    (auto simp: hoare_def retP_def raiseP_def)

text \<open>Retiring a file: its content is at the old name or at the backup name at any time.\<close>

lemma retire_own:
  assumes "truthful e" and b: "lr_backup r = lr_path r @ retiredSuffix"
  shows "hoare (kept (lr_path r) d) (retire_file e r) (\<lambda>_. recoverable (lr_path r) d) (\<lambda>_. recoverable (lr_path r) d)"
proof -
  let ?p = "lr_path r" and ?b = "lr_backup r"
  let ?R = "recoverable ?p d"
  have ne: "?p \<noteq> ?b" "?b \<noteq> ?p" using b by (simp_all add: retiredSuffix_def)
  note R = both_recoverable
  have rm: "hoare (both ?p (Some d) ?b y) (perform e (RemoveFile ?p)) (\<lambda>_. ?R) (\<lambda>_. ?R)" if "y = Some d" for y
    using that ne b by (intro hoare_perform) (auto simp: both_def recoverable_def after_untouched)
  have mv: "hoare (both ?p (Some d) ?b y) (perform e (RenameFile ?p ?b)) (\<lambda>_. ?R) (\<lambda>_. ?R)" for y
    using ne b by (intro hoare_perform) (auto simp: both_def recoverable_def after_def split: option.splits)
  have look: "hoare (both ?p (Some d) ?b y) (bindP (tryP (os_Lstat e ?b)) (\<lambda>q. case q of Inr _ \<Rightarrow> perform e (RemoveFile ?p)
        | Inl er \<Rightarrow> if \<not> os_is_not_exist er then raiseP er else perform e (RenameFile ?p ?b))) (\<lambda>_. ?R) (\<lambda>_. ?R)"
    if y: "y = None \<or> y = Some d" for y
  proof (rule hoare_tryE [OF look_at_backup [OF assms(1)]])
    show "hoare (\<lambda>s. both ?p (Some d) ?b y s \<and> y \<noteq> None) (case Inr i of Inr _ \<Rightarrow> perform e (RemoveFile ?p)
        | Inl er \<Rightarrow> if \<not> os_is_not_exist er then raiseP er else perform e (RenameFile ?p ?b)) (\<lambda>_. ?R) (\<lambda>_. ?R)" for i :: fileinfo
      using rm [of y] y by (cases y) (auto simp: hoare_def)
    show "hoare (\<lambda>s. both ?p (Some d) ?b y s \<and> (os_is_not_exist er \<longrightarrow> y = None)) (case Inl er of Inr _ \<Rightarrow> perform e (RemoveFile ?p)
        | Inl er \<Rightarrow> if \<not> os_is_not_exist er then raiseP er else perform e (RenameFile ?p ?b)) (\<lambda>_. ?R) (\<lambda>_. ?R)" for er
      using mv [of y] R by (cases "os_is_not_exist er") (auto simp: hoare_def raiseP_def)
  qed
  have chk: "hoare (both ?p (Some d) ?b y) (bindP (checkBackup e r) (\<lambda>_. bindP (tryP (os_Lstat e ?b)) (\<lambda>q. case q of Inr _ \<Rightarrow> perform e (RemoveFile ?p)
        | Inl er \<Rightarrow> if \<not> os_is_not_exist er then raiseP er else perform e (RenameFile ?p ?b)))) (\<lambda>_. ?R) (\<lambda>_. ?R)"
    if c: "lr_content r = d" for y
  proof (rule hoare_bind [OF hoare_conseq [OF backup_checked [OF assms(1)]]], assumption, assumption, erule R)
    fix u :: unit
    show "hoare (\<lambda>s. both ?p (Some d) ?b y s \<and> (y = None \<or> y = Some (lr_content r)))
      (bindP (tryP (os_Lstat e ?b)) (\<lambda>q. case q of Inr _ \<Rightarrow> perform e (RemoveFile ?p)
        | Inl er \<Rightarrow> if \<not> os_is_not_exist er then raiseP er else perform e (RenameFile ?p ?b))) (\<lambda>_. ?R) (\<lambda>_. ?R)"
      using look [of y] c by (cases "y = None \<or> y = Some d") (auto simp: hoare_def)
  qed
  have read: "hoare (both ?p (Some d) ?b y) (os_ReadFile e ?p) (\<lambda>c s. both ?p (Some d) ?b y s \<and> c = d) (\<lambda>_. ?R)" for y
    unfolding os_ReadFile_def by (rule hoare_ask) (auto simp: both_def after_untouched recoverable_def)
  have "hoare (both ?p (Some d) ?b y) (retire_file e r) (\<lambda>_. ?R) (\<lambda>_. ?R)" for y
    unfolding retire_file_def
  proof (rule hoare_bind [OF hoare_conseq [OF check_file_keeps [where P = "both ?p (Some d) ?b y"]]], simp, assumption, assumption, erule R,
      rule hoare_bind [OF read])
    fix c
    show "hoare (\<lambda>s. both ?p (Some d) ?b y s \<and> c = d)
      (if c \<noteq> lr_content r then raiseP (Errorf ''legacy CNI config changed during migration: %s'' [?p])
       else bindP (checkBackup e r) (\<lambda>_. bindP (tryP (os_Lstat e ?b)) (\<lambda>q. case q of Inr _ \<Rightarrow> perform e (RemoveFile ?p)
        | Inl er \<Rightarrow> if \<not> os_is_not_exist er then raiseP er else perform e (RenameFile ?p ?b)))) (\<lambda>_. ?R) (\<lambda>_. ?R)"
    proof (cases "c = d")
      case True
      show ?thesis
        by (rule hoare_if, rule hoare_raise, rule R, erule conjunct1, rule hoare_conseq [OF chk]) (use True in auto)
    qed (simp add: hoare_def)
  qed
  then show ?thesis by (fastforce simp: hoare_def kept_def both_def)
qed

text \<open>Any other file keeps its content, the backup included.\<close>

lemma retire_other:
  assumes "truthful e" and "p \<noteq> lr_path r"
  shows "frame (kept p d) (retire_file e r)"
proof -
  let ?p = "lr_path r" and ?b = "lr_backup r"
  have rm: "frame (kept p d) (perform e (RemoveFile ?p))" using assms(2) by (intro frame_rules) simp
  have mv: "hoare (\<lambda>s. kept p d s \<and> (?b = p \<longrightarrow> False)) (perform e (RenameFile ?p ?b)) (\<lambda>_. kept p d) (\<lambda>_. kept p d)"
    using assms(2) by (intro hoare_perform) (auto simp: kept_def after_untouched)
  have look: "hoare (kept p d) (os_Lstat e ?b) (\<lambda>_. kept p d) (\<lambda>er s. kept p d s \<and> (os_is_not_exist er \<longrightarrow> ?b \<noteq> p))"
    unfolding os_Lstat_def by (rule hoare_ask) (auto simp: kept_def after_untouched dest: absent [OF assms(1)])
  have "frame (kept p d) (bindP (tryP (os_Lstat e ?b)) (\<lambda>q. case q of Inr _ \<Rightarrow> perform e (RemoveFile ?p)
        | Inl er \<Rightarrow> if \<not> os_is_not_exist er then raiseP er else perform e (RenameFile ?p ?b)))"
  proof (rule frameI, rule hoare_tryE [OF look])
    show "hoare (kept p d) (case Inr i of Inr _ \<Rightarrow> perform e (RemoveFile ?p)
        | Inl er \<Rightarrow> if \<not> os_is_not_exist er then raiseP er else perform e (RenameFile ?p ?b)) (\<lambda>_. kept p d) (\<lambda>_. kept p d)" for i :: fileinfo
      unfolding sum.case by (rule frame_hoare [OF rm])
    show "hoare (\<lambda>s. kept p d s \<and> (os_is_not_exist er \<longrightarrow> ?b \<noteq> p)) (case Inl er of Inr _ \<Rightarrow> perform e (RemoveFile ?p)
        | Inl er \<Rightarrow> if \<not> os_is_not_exist er then raiseP er else perform e (RenameFile ?p ?b)) (\<lambda>_. kept p d) (\<lambda>_. kept p d)" for er
      unfolding sum.case
      by (rule hoare_if, rule hoare_raise, erule conjunct1, rule hoare_conseq [OF mv]) auto
  qed
  note tail = this
  show ?thesis unfolding retire_file_def
    by (rule frame_bind [OF check_file_frame], rule frame_bind [OF kept_calls(13)], rule frame_control(2), rule frame_basic(2),
        rule frame_bind [OF check_backup_frame tail])
qed

section \<open>Applying\<close>

lemma writeConfig_frame: "p \<noteq> path \<Longrightarrow> frame (kept p d) (writeConfigAtomic e path c)"
  unfolding writeConfigAtomic_def
  by (rule frame_bind [OF check_file_frame], rule kept_with_tmp, intro frame_rules) simp_all

lemma ensure_frame [frame_rules]: "frame (kept p d) (ensureConfigDirectory e path)"
  unfolding ensureConfigDirectory_def by (intro frame_rules) simp

lemma managed_is_frame [frame_rules]: "frame (kept p d) (managed_is e a b)"
  unfolding managed_is_def by (intro frame_rules) simp_all

lemma link_frame: "p \<noteq> managed_link \<Longrightarrow> frame (kept p d) (link_default e network)"
  unfolding link_default_def replaceManagedSymlink_def managed_link_def [symmetric]
  by (intro frame_rules kept_with_tmp) simp_all

lemma retire_frame:
  assumes "truthful e" and "case ret of None \<Rightarrow> True | Some r \<Rightarrow> p \<noteq> lr_path r"
  shows "frame (kept p d) (retire e ret)"
  using assms unfolding retire_def by (cases ret) (auto intro: retire_other frame_basic)

text \<open>Applying, after the preparation, on a file nobody requested.\<close>

lemma kept_recoverable: "kept p d s \<Longrightarrow> recoverable p d s"
  by (simp add: kept_def recoverable_def)

lemma frame_recoverable: "frame (kept p d) m \<Longrightarrow> hoare (kept p d) m (\<lambda>_. kept p d) (\<lambda>_. recoverable p d)"
  unfolding frame_def by (erule hoare_conseq) (simp_all add: kept_recoverable)

lemma install_recoverable:
  assumes "truthful e" and ret: "retirable directory fs ret" and p: "p \<notin> fst ` set fs" "p \<noteq> managed_link"
  shows "hoare (kept p d) (cn_install e network fs ret) (\<lambda>_. recoverable p d) (\<lambda>_. recoverable p d)"
proof -
  have w: "frame (kept p d) (forP (\<lambda>f. writeConfigAtomic e (fst f) (snd f)) fs :: ('a cn_state_scheme, unit) proc)"
    using p(1) by (intro frame_for writeConfig_frame) auto
  have rt: "hoare (kept p d) (retire e ret) (\<lambda>_. recoverable p d) (\<lambda>_. recoverable p d)"
  proof (cases "\<exists>r. ret = Some r \<and> lr_path r = p")
    case True
    then obtain r where r: "ret = Some r" "lr_path r = p" by blast
    have "lr_backup r = lr_path r @ retiredSuffix" using ret unfolding retirable_def r(1) option.case by (rule conjunct1)
    from retire_own [OF assms(1) this] show ?thesis unfolding retire_def r option.case .
  next
    case False
    then have "frame (kept p d) (retire e ret)" by (intro retire_frame [OF assms(1)]) (auto split: option.split)
    then show ?thesis by (rule hoare_conseq [OF frame_recoverable]) (simp_all add: kept_recoverable)
  qed
  show ?thesis unfolding cn_install_def
    by (rule hoare_bind [OF frame_recoverable [OF ensure_frame]], rule hoare_bind [OF frame_recoverable [OF w]], rule hoare_bind [OF frame_recoverable [OF link_frame [OF p(2)]]],
        rule hoare_bind [OF rt]) (auto simp: hoare_def bindP_def modifyP_def time_Now_def recoverable_def)
qed

lemma cn_apply_cases:
  assumes "cn_apply e lib network s = (r, s')"
  obtains (refused) er where "cn_prepare e lib network s = (Inl er, s')" "r = Inl er"
    | (installed) fs ret t where "cn_prepare e lib network s = (Inr (fs, ret), t)" "cn_install e network fs ret t = (r, s')"
  using assms by (auto simp: cn_apply_def bindP_def split: prod.splits sum.splits)

definition requested :: "Network \<Rightarrow> string set" where
  "requested network = (\<lambda>name. cniDir (net_Name network) @ ''/'' @ name) ` fst ` set (cni_config network)"


text \<open>A retired file of the other generation, with a successor requested; every call succeeds.\<close>

definition accept_all :: conf_lib where
  "accept_all = \<lparr>cl_check = (\<lambda>_. None), cl_number = (\<lambda>l. l)\<rparr>"

definition contract_text :: "string list \<Rightarrow> string" where
  "contract_text c = ''{'' @ json_quote ''name'' @ '':'' @ json_quote (c ! 0) @ '','' @ json_quote ''type'' @ '':'' @ json_quote (c ! 1) @ '','' @ json_quote ''ipam'' @ '':{'' @ json_quote ''type'' @ '':'' @ json_quote (c ! 2) @ ''}}''"

definition ipsec_config :: json where
  "ipsec_config = JObj [(''name'', JStr (currentContract ! 0)), (''type'', JStr (currentContract ! 1)), (''ipam'', JObj [(''type'', JStr (currentContract ! 2))])]"

definition ipsec_network :: Network where
  "ipsec_network = zero_Network\<lparr>net_Name := ''ipsec'', net_Metadata := [(''cniConfig'', JObj [(currentConfigName, ipsec_config)])]\<rparr>"

text \<open>The directories on the way to a configuration exist.\<close>

definition dir_env :: env where
  "dir_env = quiet_env\<lparr>e_lstat := (\<lambda>_ p. if has_prefix p (cniDir ''ipsec'' @ ''/'')
     then \<lparr>fi_Regular = True, fi_Dir = False, fi_Symlink = False, fi_Perm = 384\<rparr>
     else \<lparr>fi_Regular = False, fi_Dir = True, fi_Symlink = False, fi_Perm = 448\<rparr>)\<rparr>"

definition cn_start :: cn_state where
  "cn_start = \<lparr>trace = [], files = (\<lambda>_. None)(cniDir ''ipsec'' @ ''/10-rancher.conf'' \<mapsto> contract_text legacyContract), cn_applied = [], cn_lastApplied = None\<rparr>"


section \<open>All or nothing\<close>

definition written :: "config_file set \<Rightarrow> 'a world_scheme \<Rightarrow> bool" where
  "written A s \<longleftrightarrow> (\<forall>f \<in> A. files s (fst f) = Some (snd f))"

lemma write_one:
  assumes g: "\<And>h. h \<in> insert f A \<Longrightarrow> snd h = g (fst h)" and I: "written A s"
    and w: "writeConfigAtomic e (fst f) (snd f) s = (Inr x, s')"
  shows "written (insert f A) s'"
proof -
  have own: "files s' (fst f) = Some (snd f)" using config_file.store_result [OF w] by simp
  have "files s' (fst h) = Some (snd h)" if h: "h \<in> A" for h
  proof (cases "fst h = fst f")
    case True
    have "snd h = snd f" using g [of f] g [of h] h True by simp
    then show ?thesis using own True by simp
  next
    case False
    then show ?thesis using keptD [OF writeConfig_frame [OF False] w] I h by (auto simp: written_def)
  qed
  then show ?thesis using own by (simp add: written_def)
qed

lemma write_all:
  "(\<And>f. f \<in> A \<union> set fs \<Longrightarrow> snd f = g (fst f)) \<Longrightarrow> hoare (written A) (forP (\<lambda>f. writeConfigAtomic e (fst f) (snd f)) fs)
    (\<lambda>_. written (A \<union> set fs)) (\<lambda>_ _. True)"
proof (induction fs arbitrary: A)
  case Nil
  show ?case by (simp add: hoare_def retP_def)
next
  case (Cons f fs)
  have eq: "A \<union> set (f # fs) = insert f A \<union> set fs" by simp
  have g: "snd h = g (fst h)" if "h \<in> insert f A" for h using Cons.prems that by auto
  show ?case unfolding forP.simps eq
    by (rule hoare_bind [OF hoareI Cons.IH], erule write_one [rotated, where g = g], assumption, erule g, simp, rule Cons.prems, auto)
qed

text \<open>A set of files that stay as they are.\<close>

lemma frame_files:
  assumes "\<And>f. f \<in> A \<Longrightarrow> frame (kept (fst f) (snd f)) m"
  shows "frame (written A) m"
  using assms unfolding written_def by (auto intro!: frameI hoareI dest: keptD)

lemma slashes_managed: "CHR ''/'' \<notin> set n \<Longrightarrow> cniDir n @ ''/'' @ m \<noteq> managed_link"
proof
  assume n: "CHR ''/'' \<notin> set n" and h: "cniDir n @ ''/'' @ m = managed_link"
  let ?n = "\<lambda>s. length (filter (\<lambda>c. c = CHR ''/'') s)"
  have "?n (cniDir n @ ''/'' @ m) \<ge> 4" by (simp add: cniDir_def)
  moreover have "?n managed_link = 3" by (simp add: managed_link_def cniDir_def)
  ultimately show False unfolding h by simp
qed

lemma valid_name_no_slash: "validConfigName n \<Longrightarrow> CHR ''/'' \<notin> set n"
  by (auto simp: validConfigName_def list_all_iff name_char_def is_lower_def is_upper_def is_digit_def)

lemma cn_apply_name: "cn_apply e lib network s = (Inr (), s') \<Longrightarrow> validConfigName (net_Name network)"
  by (auto simp: cn_apply_def cn_prepare_def bindP_def raiseP_def Let_def split: if_splits)

lemma hoare_any: "hoare P m (\<lambda>_ _. True) (\<lambda>_ _. True)"
  by (simp add: hoare_def split: prod.split sum.split)

lemma record_step:
  "hoare P (bindP (modifyP (\<lambda>s. s\<lparr>cn_applied := mput k x (cn_applied s)\<rparr>)) (\<lambda>_. bindP (time_Now e) (\<lambda>now. modifyP (\<lambda>s. s\<lparr>cn_lastApplied := Some now\<rparr>))))
    (\<lambda>_ s. \<exists>t now. P t \<and> s = t\<lparr>cn_applied := mput k x (cn_applied t), trace := trace t @ [(Clock, None)], cn_lastApplied := Some now\<rparr>)
    (\<lambda>_ _. True)"
  unfolding hoare_def bindP_def modifyP_def time_Now_def by auto


definition plain_network :: Network where
  "plain_network = zero_Network\<lparr>net_Name := ''ipsec'', net_Metadata := [(''cniConfig'', JObj [(''20-a.conf'', JObj [(''name'', JStr ''n1'')])])]\<rparr>"

lemma plain_applies: "fst (cn_apply dir_env accept_all plain_network cn_start) = Inr ()"
  by code_simp


lemma own_fields: "world.more s' = world.more s \<Longrightarrow> cn_applied s' = cn_applied s"
  by (cases s; cases s') simp

text \<open>A request with one unacceptable file - a name that is not a plain file name, or a content the CNI library
  rejects - changes nothing: the apply fails having only looked, and nothing is recorded.\<close>

theorem bad_request_changes_nothing:
  assumes "name \<in> fst ` set (cni_config network)"
    and "\<not> validConfigName name \<or> cl_check lib (marshal_config lib (mget JNull (cni_config network) name)) \<noteq> None"
    and "cn_apply e lib network s = (r, s')"
  shows "r \<noteq> Inr () \<and> (\<exists>u. trace s' = trace s @ u \<and> (\<forall>c \<in> set (calls_of u). reads_only c)) \<and> cn_applied s' = cn_applied s
    \<and> (\<forall>p d. files s p = Some d \<longrightarrow> files s' p = Some d)"
  using assms(3)
proof (cases rule: cn_apply_cases)
  case (refused er)
  from calls_onlyD [OF prepare_calls refused(1)] own_fields have "\<exists>u. trace s' = trace s @ u \<and> (\<forall>c \<in> set (calls_of u). reads_only c)" "cn_applied s' = cn_applied s"
    by (auto simp: since_def calls_of_def)
  then show ?thesis using refused keptD [OF prepare_frame refused(1)] by blast
next
  case (installed fs ret t)
  from cn_prepare_run [OF installed(1)] assms(1,2) show ?thesis by (auto simp: acceptable_def)
qed

theorem bad_request_changes_nothing_witness:
  "fst (cn_apply dir_env (accept_all\<lparr>cl_check := (\<lambda>_. Some (EnvErr ''no type''))\<rparr>) plain_network cn_start) \<noteq> Inr ()"
proof -
  let ?lib = "accept_all\<lparr>cl_check := (\<lambda>_. Some (EnvErr ''no type''))\<rparr>"
  obtain r s' where h: "cn_apply dir_env ?lib plain_network cn_start = (r, s')" by fastforce
  have "''20-a.conf'' \<in> fst ` set (cni_config plain_network)" by (simp add: plain_network_def cni_config_def)
  from bad_request_changes_nothing [OF this _ h] show ?thesis by (simp add: h)
qed

end
