(* ===== verification/CniGlue.thy ===== *)
theory CniGlue
  imports CniConf
begin

text \<open>
  Running the CNI plugins of a container's network (\<open>src/internal/cniglue\<close>): the runtime arguments taken
  from Docker's inspection, the configuration files of the network in sorted order, adding the container
  to every one of them and deleting it again in the reverse order.  A parsed configuration is known by
  its file; what a plugin run answers is the environment's.
\<close>

section \<open>The state handed to the plugins\<close>

record plugin_state =
  ps_ContainerID :: string
  ps_NetworkMode :: string
  ps_Labels :: "string gomap"
  ps_PID :: int

definition LookupPluginState :: "DockerContainer \<Rightarrow> plugin_state" where
  "LookupPluginState inspect =
     \<lparr>ps_ContainerID = dk_ID inspect,
      ps_NetworkMode = (case dk_HostConfig inspect of None \<Rightarrow> [] | Some (mode, _) \<Rightarrow> mode),
      ps_Labels = (case dk_Labels inspect of None \<Rightarrow> [] | Some labels \<Rightarrow> labels),
      ps_PID = (case dk_State inspect of None \<Rightarrow> 0 | Some (_, pid) \<Rightarrow> pid)\<rparr>"

text \<open>\<open>container.NetworkMode\<close>: a mode of another container is \<open>container:\<close> and its name.\<close>

definition IsContainer :: "string \<Rightarrow> bool" where "IsContainer mode \<longleftrightarrow> has_prefix mode ''container:''"

definition no_plugins :: "string \<Rightarrow> bool" where
  "no_plugins mode \<longleftrightarrow> IsContainer mode \<or> mode = ''host'' \<or> mode = ''none''"

text \<open>For every other mode \<open>NetworkName()\<close> is the mode itself.\<close>

definition networkName :: "string \<Rightarrow> string" where
  "networkName mode = (if mode = [] then ''default'' else mode)"

definition CniPath :: "string list" where
  "CniPath = [''/opt/cni/bin'', ''/var/lib/cni/bin'', ''/usr/local/sbin'', ''/usr/sbin'', ''/sbin'', ''/usr/local/bin'', ''/usr/bin'', ''/bin'']"

section \<open>Preparing a run\<close>

record cni_exec =
  ce_confs :: "string list"
  ce_runtimeConf :: cni_runtime

definition empty_runtime :: cni_runtime where
  "empty_runtime = \<lparr>cr_ContainerID = [], cr_NetNS = [], cr_IfName = [], cr_Args = []\<rparr>"

definition label_args :: "string gomap \<Rightarrow> (string \<times> string) list" where
  "label_args labels =
     (let uuid = mget [] labels ''io.rancher.container.uuid''; overhead = mget [] labels ''io.rancher.cni.link_mtu_overhead'';
          mac = mget [] labels ''io.rancher.container.mac_address''
      in (if uuid \<noteq> [] then [(''RancherContainerUUID'', uuid), (''PlatformContainerUUID'', uuid)] else [])
         @ (if overhead \<noteq> [] then [(''LinkMTUOverhead'', overhead)] else [])
         @ (if mac \<noteq> [] then [(''MACAddress'', mac)] else []))"

definition netns_path :: "int \<Rightarrow> string" where
  "netns_path pid = ''/proc/'' @ int_str pid @ ''/ns/net''"

definition runtime_of :: "plugin_state \<Rightarrow> cni_runtime" where
  "runtime_of state =
     \<lparr>cr_ContainerID = ps_ContainerID state, cr_NetNS = netns_path (ps_PID state), cr_IfName = ''eth0'',
      cr_Args = [(''IgnoreUnknown'', ''1''), (''DOCKER'', ''true'')] @ label_args (ps_Labels state)\<rparr>"

definition libcni_ConfFiles :: "env \<Rightarrow> string \<Rightarrow> ('a world_scheme, string list) proc" where
  "libcni_ConfFiles e dir = ask e (ConfFiles dir) (\<lambda>s. e_dir e (trace s) dir)"

definition load_conf :: "env \<Rightarrow> string \<Rightarrow> string list \<Rightarrow> ('a world_scheme, string list) proc" where
  "load_conf e file confs = bindP (perform e (ConfFromFile file)) (\<lambda>_. retP (confs @ [file]))"

definition NewCNIExec :: "env \<Rightarrow> plugin_state \<Rightarrow> ('a world_scheme, cni_exec) proc" where
  "NewCNIExec e state =
     (if no_plugins (ps_NetworkMode state) then retP \<lparr>ce_confs = [], ce_runtimeConf = empty_runtime\<rparr>
      else
        bindP (libcni_ConfFiles e (cniDir (networkName (ps_NetworkMode state)))) (\<lambda>files'.
        bindP (wrapP (Wrapf ''set CNI plugin path: %w'' []) (perform e (Setenv ''PATH'' (str_join '':'' CniPath)))) (\<lambda>_.
        bindP (foldP (load_conf e) (sort files') []) (\<lambda>confs.
          retP \<lparr>ce_confs = confs, ce_runtimeConf = runtime_of state\<rparr>))))"

section \<open>Adding and deleting\<close>

definition cni_Add :: "env \<Rightarrow> cni_exec \<Rightarrow> string \<Rightarrow> ('a world_scheme, cni_ip list) proc" where
  "cni_Add e c conf = ask e (CniAdd conf (ce_runtimeConf c)) (\<lambda>s. e_cni e (trace s) (CniAdd conf (ce_runtimeConf c)))"

definition cni_Del :: "env \<Rightarrow> cni_exec \<Rightarrow> string \<Rightarrow> ('a world_scheme, unit) proc" where
  "cni_Del e c conf = perform e (CniDel conf ((ce_runtimeConf c)\<lparr>cr_NetNS := []\<rparr>))"

text \<open>The first address that is an IPv4 address, as text.\<close>

fun first_ipv4 :: "cni_ip list \<Rightarrow> string" where
  "first_ipv4 [] = []"
| "first_ipv4 (IPv4 ip # ips) = ip"
| "first_ipv4 (_ # ips) = first_ipv4 ips"

definition PrimaryIPv4 :: "cni_ip list option \<Rightarrow> string" where
  "PrimaryIPv4 result = (case result of None \<Rightarrow> [] | Some ips \<Rightarrow> first_ipv4 ips)"

definition add_step :: "env \<Rightarrow> cni_exec \<Rightarrow> string \<Rightarrow> cni_ip list option \<Rightarrow> ('a world_scheme, cni_ip list option) proc" where
  "add_step e c conf result =
     bindP (cni_Add e c conf) (\<lambda>pluginResult.
       retP (if PrimaryIPv4 (Some pluginResult) \<noteq> [] then Some pluginResult else result))"

definition CNIAdd :: "env \<Rightarrow> plugin_state \<Rightarrow> ('a world_scheme, cni_ip list option) proc" where
  "CNIAdd e state = bindP (NewCNIExec e state) (\<lambda>c. foldP (add_step e c) (ce_confs c) None)"

definition del_step :: "env \<Rightarrow> cni_exec \<Rightarrow> string \<Rightarrow> gerr option \<Rightarrow> ('a world_scheme, gerr option) proc" where
  "del_step e c conf lastErr =
     bindP (tryP (cni_Del e c conf)) (\<lambda>r. retP (case r of Inl er \<Rightarrow> Some er | Inr _ \<Rightarrow> lastErr))"

definition CNIDel :: "env \<Rightarrow> plugin_state \<Rightarrow> ('a world_scheme, unit) proc" where
  "CNIDel e state =
     bindP (NewCNIExec e state) (\<lambda>c.
     bindP (foldP (del_step e c) (rev (ce_confs c)) None) (\<lambda>lastErr.
       case lastErr of None \<Rightarrow> retP () | Some er \<Rightarrow> raiseP er))"

section \<open>Properties\<close>

lemma load_all:
  "foldP (load_conf e) fs acc s = (Inr confs, s') \<Longrightarrow>
    confs = acc @ fs \<and> (\<exists>u. trace s' = trace s @ u \<and> calls_of u = map ConfFromFile fs)"
proof (induction fs arbitrary: acc s)
  case Nil
  then show ?case by (simp add: retP_def)
next
  case (Cons f fs)
  let ?t = "after e (ConfFromFile f) s"
  have "load_conf e f acc s = (case outcome e (ConfFromFile f) s of None \<Rightarrow> (Inr (acc @ [f]), ?t) | Some er \<Rightarrow> (Inl er, ?t))"
    by (simp add: load_conf_def bindP_def perform_def ask_def retP_def split: option.split)
  then have ok: "outcome e (ConfFromFile f) s = None" and r: "foldP (load_conf e) fs (acc @ [f]) ?t = (Inr confs, s')"
    using Cons.prems by (auto simp: bindP_def split: option.splits)
  from Cons.IH [OF r] obtain u where u: "confs = (acc @ [f]) @ fs" "trace s' = trace ?t @ u" "calls_of u = map ConfFromFile fs" by blast
  then show ?case by (intro conjI exI [of _ "(ConfFromFile f, None) # u"]) (simp_all add: ok)
qed

text \<open>What preparing a run calls, and what it prepares.\<close>

definition prepare_calls :: "plugin_state \<Rightarrow> string list \<Rightarrow> call list" where
  "prepare_calls state fs = [ConfFiles (cniDir (networkName (ps_NetworkMode state))), Setenv ''PATH'' (str_join '':'' CniPath)] @ map ConfFromFile fs"

definition conf_files :: "env \<Rightarrow> plugin_state \<Rightarrow> 'a world_scheme \<Rightarrow> string list" where
  "conf_files e state s = sort (e_dir e (trace s) (cniDir (networkName (ps_NetworkMode state))))"

lemma NewCNIExec_run:
  assumes "NewCNIExec e state s = (Inr c, t)" and "\<not> no_plugins (ps_NetworkMode state)"
  shows "ce_confs c = conf_files e state s \<and> ce_runtimeConf c = runtime_of state
    \<and> (\<exists>u. trace t = trace s @ u \<and> calls_of u = prepare_calls state (conf_files e state s))"
proof -
  let ?d = "cniDir (networkName (ps_NetworkMode state))" and ?fs = "conf_files e state s"
  let ?set = "Setenv ''PATH'' (str_join '':'' CniPath)"
  let ?s1 = "after e (ConfFiles ?d) s"
  let ?s2 = "after e ?set ?s1"
  have ok: "outcome e (ConfFiles ?d) s = None" "outcome e ?set ?s1 = None"
    using assms by (auto simp: NewCNIExec_def libcni_ConfFiles_def bindP_def ask_def wrapP_def wrapR_def perform_def split: option.splits)
  obtain x where x: "foldP (load_conf e) ?fs [] ?s2 = (x, t)" "\<exists>cs. x = Inr cs \<and> c = \<lparr>ce_confs = cs, ce_runtimeConf = runtime_of state\<rparr>"
    using assms ok unfolding NewCNIExec_def libcni_ConfFiles_def conf_files_def
    by (auto simp: bindP_def ask_def wrapP_def wrapR_def perform_def retP_def split: prod.splits sum.splits)
  from x(2) obtain cs where cs: "x = Inr cs" "c = \<lparr>ce_confs = cs, ce_runtimeConf = runtime_of state\<rparr>" by blast
  from load_all [OF x(1) [unfolded cs(1)]] obtain u where u: "cs = ?fs" "trace t = trace ?s2 @ u" "calls_of u = map ConfFromFile ?fs" by auto
  have "trace t = trace s @ ([(ConfFiles ?d, None), (?set, None)] @ u)" using u(2) ok by simp
  then show ?thesis using u cs(2) by (auto simp: prepare_calls_def intro!: exI [of _ "[(ConfFiles ?d, None), (?set, None)] @ u"])
qed

lemma add_all:
  "foldP (add_step e c) fs acc s = (r, s') \<Longrightarrow>
    \<exists>n u. n \<le> length fs \<and> trace s' = trace s @ u \<and> calls_of u = map (\<lambda>f. CniAdd f (ce_runtimeConf c)) (take n fs)
      \<and> (\<forall>x. r = Inr x \<longrightarrow> n = length fs)"
proof (induction fs arbitrary: acc s)
  case Nil
  then show ?case by (auto simp: retP_def)
next
  case (Cons f fs)
  let ?c = "CniAdd f (ce_runtimeConf c)"
  let ?t = "after e ?c s"
  let ?x = "e_cni e (trace s) ?c"
  have step: "add_step e c f acc s = (case outcome e ?c s of Some er \<Rightarrow> (Inl er, ?t)
      | None \<Rightarrow> (Inr (if PrimaryIPv4 (Some ?x) \<noteq> [] then Some ?x else acc), ?t))"
    by (simp add: add_step_def cni_Add_def bindP_def ask_def retP_def split: option.split)
  show ?case
  proof (cases "outcome e ?c s")
    case (Some er)
    then have "r = Inl er" "s' = ?t" using Cons.prems step by (simp_all add: bindP_def)
    then show ?thesis by (intro exI [of _ 1] exI [of _ "[(?c, Some er)]"]) (simp add: Some)
  next
    case None
    then obtain acc' where "foldP (add_step e c) fs acc' ?t = (r, s')"
      using Cons.prems step by (simp add: bindP_def)
    from Cons.IH [OF this] obtain n u where u: "n \<le> length fs" "trace s' = trace ?t @ u"
      "calls_of u = map (\<lambda>f. CniAdd f (ce_runtimeConf c)) (take n fs)" "\<forall>x. r = Inr x \<longrightarrow> n = length fs" by blast
    then show ?thesis by (intro exI [of _ "Suc n"] exI [of _ "(?c, None) # u"]) (simp add: None)
  qed
qed

lemma del_all:
  "\<exists>s' u x. foldP (del_step e c) fs acc s = (Inr x, s') \<and> trace s' = trace s @ u
    \<and> calls_of u = map (\<lambda>f. CniDel f ((ce_runtimeConf c)\<lparr>cr_NetNS := []\<rparr>)) fs
    \<and> (x = None \<longleftrightarrow> acc = None \<and> (\<forall>ev \<in> set u. snd ev = None))"
proof (induction fs arbitrary: acc s)
  case Nil
  show ?case by (simp add: retP_def)
next
  case (Cons f fs)
  let ?c = "CniDel f ((ce_runtimeConf c)\<lparr>cr_NetNS := []\<rparr>)"
  let ?t = "after e ?c s" and ?o = "outcome e ?c s"
  let ?acc = "case ?o of None \<Rightarrow> acc | Some er \<Rightarrow> Some er"
  have "del_step e c f acc s = (Inr ?acc, ?t)"
    by (simp add: del_step_def cni_Del_def bindP_def tryP_def perform_def ask_def retP_def split: option.split)
  then have eq: "foldP (del_step e c) (f # fs) acc s = foldP (del_step e c) fs ?acc ?t" by (simp add: bindP_def)
  from Cons.IH [of ?acc ?t] obtain s' u x where u: "foldP (del_step e c) fs ?acc ?t = (Inr x, s')" "trace s' = trace ?t @ u"
    "calls_of u = map (\<lambda>f. CniDel f ((ce_runtimeConf c)\<lparr>cr_NetNS := []\<rparr>)) fs" "x = None \<longleftrightarrow> ?acc = None \<and> (\<forall>ev \<in> set u. snd ev = None)" by blast
  show ?case unfolding eq
    by (rule exI [of _ s'], rule exI [of _ "(?c, ?o) # u"], rule exI [of _ x]) (use u in \<open>auto split: option.splits\<close>)
qed


text \<open>Two plugin files; the second one fails.\<close>

definition two_plugins :: env where
  "two_plugins = quiet_env\<lparr>e_dir := (\<lambda>_ _. [''20-b.conf'', ''10-a.conf'']),
     e_fail := (\<lambda>_ c. case c of CniAdd f _ \<Rightarrow> if f = ''20-b.conf'' then Some (EnvErr ''no address'') else None | _ \<Rightarrow> None)\<rparr>"

definition c1_state :: plugin_state where
  "c1_state = \<lparr>ps_ContainerID = ''c1'', ps_NetworkMode = ''ipsec'', ps_Labels = [], ps_PID = 7\<rparr>"


end
