(* ===== verification/Draining.thy ===== *)
theory Draining
  imports Main
begin

text \<open>
  The contract of a step relation that works off a stock: every step keeps an invariant and lowers a count of
  what is left, and a step is possible exactly while something is pending.  The retries of the network
  manager and the workers of the event router are instances.
\<close>

locale draining =
  fixes inv :: "'s \<Rightarrow> bool" and step :: "'s \<Rightarrow> 's \<Rightarrow> bool" and left :: "'s \<Rightarrow> nat" and pending :: "'s \<Rightarrow> bool"
  assumes inv_step: "inv s \<Longrightarrow> step s s' \<Longrightarrow> inv s'"
    and step_decreases: "inv s \<Longrightarrow> step s s' \<Longrightarrow> left s' < left s"
    and step_enabled: "inv s \<Longrightarrow> (\<exists>s'. step s s') \<longleftrightarrow> pending s"
begin

lemma run_bounded: "inv s \<Longrightarrow> (step ^^ n) s s' \<Longrightarrow> inv s' \<and> n + left s' \<le> left s"
proof (induction n arbitrary: s')
  case (Suc n)
  from Suc.prems(2) obtain t where t: "(step ^^ n) s t" "step t s'" by auto
  have "inv t" "n + left t \<le> left s" using Suc.IH [OF Suc.prems(1) t(1)] by simp_all
  then show ?case using inv_step [OF _ t(2)] step_decreases [OF _ t(2)] by fastforce
qed simp

text \<open>Whenever no step is possible any more, nothing is pending; and such a state is reached.\<close>

lemma stuck_done: "inv s \<Longrightarrow> (step ^^ n) s s' \<Longrightarrow> (\<exists>t. step s' t) \<longleftrightarrow> pending s'"
  using run_bounded step_enabled by blast

lemma drains: "inv s \<Longrightarrow> \<exists>n s'. (step ^^ n) s s' \<and> \<not> pending s'"
proof (induction "left s" arbitrary: s rule: less_induct)
  case less
  show ?case
  proof (cases "pending s")
    case True
    then obtain t where t: "step s t" using step_enabled [OF less.prems] by blast
    from less.hyps [OF step_decreases [OF less.prems t] inv_step [OF less.prems t]]
    obtain n s' where "(step ^^ n) t s'" "\<not> pending s'" by blast
    then show ?thesis using relpowp_Suc_I2 [of step s t n s'] t by blast
  next
    case False
    then show ?thesis by (intro exI [of _ 0] exI [of _ s]) simp
  qed
qed

end

end
