(* ===== verification/NetManager.thy ===== *)
theory NetManager
  imports CniGlue Draining
begin

text \<open>
  The network manager (\<open>src/network/manager.go\<close>, \<open>src/network/state.go\<close>, \<open>src/network/netns.go\<close>): it brings
  the CNI network of a container up when the container is running with a start it has not seen, and down
  when the container is gone.  A failed bring-up is retried from a goroutine; the retries waiting to run
  are part of the state.  The keyed lock makes the evaluations of one container a sequence of procedures.
\<close>

section \<open>The state\<close>

text \<open>How Go prints a plugin result and an error is a parameter.\<close>

record net_lib =
  nl_result :: "event list \<Rightarrow> cni_ip list option \<Rightarrow> string"
  nl_errtext :: "gerr \<Rightarrow> string"

record nm_state = world +
  nm_startTimes :: "string gomap"
  nm_retries :: "(string \<times> nat) list"

definition maxRetries :: nat where "maxRetries = 15"
definition IPLabel :: string where "IPLabel = ''io.rancher.container.ip''"
definition LegacyManagedNetLabel :: string where "LegacyManagedNetLabel = ''io.rancher.container.network''"
definition CNILabel :: string where "CNILabel = ''io.rancher.cni.network''"
definition rootStateDir :: string where "rootStateDir = ''/var/lib/pasturestack/state/cni''"

text \<open>Docker's ids and start times are plain path components, so \<open>path.Join\<close> only adds the separators.\<close>

definition state_dir :: "string \<Rightarrow> string" where "state_dir cid = rootStateDir @ ''/'' @ cid"

definition StartTime :: "string \<Rightarrow> ('a nm_state_scheme, string) proc" where
  "StartTime cid = getP (\<lambda>s. mget [] (nm_startTimes s) cid)"

text \<open>\<open>writeState\<close> logs what fails.\<close>

definition write_state_file :: "env \<Rightarrow> string \<Rightarrow> string \<Rightarrow> string \<Rightarrow> ('a world_scheme, unit) proc" where
  "write_state_file e cid startedAt data =
     (let dir = state_dir cid; filename = dir @ ''/'' @ startedAt in
      bindP (perform e (MkdirAll dir)) (\<lambda>_.
      bindP (os_CreateTemp e dir startedAt) (\<lambda>name.
        finallyP
          (bindP (or_close e name (perform e (ChmodFile name 384))) (\<lambda>_.
           bindP (or_close e name (perform e (WriteTemp name data))) (\<lambda>_.
           bindP (or_close e name (perform e (SyncFile name))) (\<lambda>_.
           bindP (perform e (CloseFile name)) (\<lambda>_.
             perform e (RenameFile name filename))))))
          (perform e (RemoveFile name)))))"

definition writeState :: "env \<Rightarrow> string \<Rightarrow> string \<Rightarrow> string \<Rightarrow> ('a world_scheme, unit) proc" where
  "writeState e cid startedAt data = ignoring (write_state_file e cid startedAt data)"

text \<open>\<open>networkData\<close> is nil only for containers found running at start-up: a nil \<open>*Result\<close> in the interface is
  not nil and is written as well.\<close>

definition Started :: "env \<Rightarrow> string \<Rightarrow> string \<Rightarrow> string option \<Rightarrow> ('a nm_state_scheme, unit) proc" where
  "Started e cid startedAt networkData =
     bindP (modifyP (\<lambda>s. s\<lparr>nm_startTimes := mput cid startedAt (nm_startTimes s)\<rparr>)) (\<lambda>_.
       case networkData of None \<Rightarrow> retP () | Some data \<Rightarrow> writeState e cid startedAt data)"

definition Stopped :: "env \<Rightarrow> string \<Rightarrow> ('a nm_state_scheme, unit) proc" where
  "Stopped e cid =
     bindP (modifyP (\<lambda>s. s\<lparr>nm_startTimes := mdel cid (nm_startTimes s)\<rparr>)) (\<lambda>_.
       ignoring (perform e (RemoveAll (state_dir cid))))"

definition error_data :: "net_lib \<Rightarrow> gerr \<Rightarrow> string" where
  "error_data lib er = ''{'' @ text_quote ''error'' @ '':'' @ text_quote (nl_errtext lib er) @ ''}''"

definition recordNetworkUpError :: "env \<Rightarrow> net_lib \<Rightarrow> string \<Rightarrow> string \<Rightarrow> gerr \<Rightarrow> ('a world_scheme, unit) proc" where
  "recordNetworkUpError e lib cid startedAt er = bindP (writeState e cid startedAt (error_data lib er)) (\<lambda>_. raiseP er)"

section \<open>The hosts file\<close>

definition hosts_line :: "string \<Rightarrow> string \<Rightarrow> string" where
  "hosts_line ip hostname = nl @ ip @ [CHR 0x09] @ hostname @ nl"

definition setupHosts :: "env \<Rightarrow> DockerContainer \<Rightarrow> cni_ip list option \<Rightarrow> ('a world_scheme, unit) proc" where
  "setupHosts e inspect result =
     (let ip = PrimaryIPv4 result in
      if dk_Labels inspect = None \<or> dk_Hostname inspect = [] \<or> dk_HostsPath inspect = [] \<or> ip = [] then retP ()
      else
        bindP (tryP (os_ReadFile e (dk_HostsPath inspect))) (\<lambda>r.
          case r of
            Inl er \<Rightarrow> if os_is_not_exist er then retP () else raiseP er
          | Inr hosts \<Rightarrow>
              let line = hosts_line ip (dk_Hostname inspect) in
              if str_contains hosts line then retP ()
              else perform e (WriteFile (dk_HostsPath inspect) (hosts @ line))))"

section \<open>Up and down\<close>

text \<open>\<open>go n.retry(id, retryCount)\<close>.\<close>

definition go_retry :: "string \<Rightarrow> nat \<Rightarrow> ('a nm_state_scheme, unit) proc" where
  "go_retry cid retryCount = modifyP (\<lambda>s. s\<lparr>nm_retries := nm_retries s @ [(cid, retryCount)]\<rparr>)"

definition networkUp :: "env \<Rightarrow> net_lib \<Rightarrow> string \<Rightarrow> DockerContainer \<Rightarrow> nat \<Rightarrow> ('a nm_state_scheme, unit) proc" where
  "networkUp e lib cid inspect retryCount =
     (let startedAt = dk_StartedAt inspect in
      bindP (tryP (CNIAdd e (LookupPluginState inspect))) (\<lambda>r.
        case r of
          Inl er \<Rightarrow>
            if retryCount < maxRetries then bindP (go_retry cid (retryCount + 1)) (\<lambda>_. raiseP er)
            else recordNetworkUpError e lib cid startedAt (Wrapf ''bring up CNI network: %w'' [] er)
        | Inr result \<Rightarrow>
            bindP (tryP (setupHosts e inspect result)) (\<lambda>h.
              case h of
                Inl er \<Rightarrow> recordNetworkUpError e lib cid startedAt (Wrapf ''set up container hosts file: %w'' [] er)
              | Inr _ \<Rightarrow> bindP (getP trace) (\<lambda>t. Started e cid startedAt (Some (nl_result lib t result))))))"

definition networkDown :: "env \<Rightarrow> string \<Rightarrow> DockerContainer \<Rightarrow> ('a nm_state_scheme, unit) proc" where
  "networkDown e cid inspect =
     finallyP
       (if dk_HostConfig inspect = None then retP () else CNIDel e (LookupPluginState inspect))
       (Stopped e cid)"

definition configured_network :: "string gomap \<Rightarrow> string" where
  "configured_network labels =
     (case map_of labels CNILabel of
        Some net \<Rightarrow> net
      | None \<Rightarrow> if mget [] labels LegacyManagedNetLabel = ''true'' \<or> mget [] labels IPLabel \<noteq> [] then ''managed'' else [])"

text \<open>The inspection with the network mode set; None when the container's network is not managed.\<close>

definition configureNetwork :: "DockerContainer \<Rightarrow> DockerContainer option" where
  "configureNetwork inspect =
     (case (dk_Labels inspect, dk_HostConfig inspect) of
        (Some labels, Some (mode, dns)) \<Rightarrow>
          if configured_network labels = [] then None
          else Some (inspect\<lparr>dk_HostConfig := Some (configured_network labels, dns)\<rparr>)
      | _ \<Rightarrow> None)"

text \<open>What to do about a container: its record, whether it runs now and since when.\<close>

definition nm_decide :: "env \<Rightarrow> net_lib \<Rightarrow> string \<Rightarrow> nat \<Rightarrow> string \<Rightarrow> bool \<Rightarrow> string \<Rightarrow> DockerContainer \<Rightarrow> ('a nm_state_scheme, unit) proc" where
  "nm_decide e lib cid retryCount wasTime running time inspect =
     (if wasTime \<noteq> [] then
        if running \<and> wasTime \<noteq> time then networkUp e lib cid inspect retryCount
        else if \<not> running then networkDown e cid inspect
        else retP ()
      else if running then networkUp e lib cid inspect retryCount
      else retP ())"

text \<open>Docker always reports a state; without one the code panics and the model fails.\<close>

definition evaluate :: "env \<Rightarrow> net_lib \<Rightarrow> string \<Rightarrow> nat \<Rightarrow> ('a nm_state_scheme, unit) proc" where
  "evaluate e lib cid retryCount =
     bindP (StartTime cid) (\<lambda>wasTime.
     bindP (tryP (dc_ContainerInspect e cid)) (\<lambda>r.
       case r of
         Inl er \<Rightarrow> if errdefs_is_not_found er then nm_decide e lib cid retryCount wasTime False [] zero_DockerContainer else raiseP er
       | Inr c \<Rightarrow>
           (case configureNetwork c of
              None \<Rightarrow> retP ()
            | Some inspect \<Rightarrow>
                (case dk_State inspect of
                   None \<Rightarrow> raiseP (EnvErr ''nil container state'')
                 | Some (running, _) \<Rightarrow> nm_decide e lib cid retryCount wasTime running (dk_StartedAt inspect) inspect))))"

definition Evaluate :: "env \<Rightarrow> net_lib \<Rightarrow> string \<Rightarrow> ('a nm_state_scheme, unit) proc" where
  "Evaluate e lib cid = evaluate e lib cid 0"

definition retry :: "env \<Rightarrow> net_lib \<Rightarrow> string \<Rightarrow> nat \<Rightarrow> ('a nm_state_scheme, unit) proc" where
  "retry e lib cid retryCount = bindP (time_Sleep (2 * second)) (\<lambda>_. ignoring (evaluate e lib cid retryCount))"

section \<open>Start-up\<close>

text \<open>More than the loopback interface.\<close>

definition hasNetwork :: "env \<Rightarrow> int \<Rightarrow> ('a world_scheme, bool) proc" where
  "hasNetwork e pid =
     bindP (perform e (OpenNamespace pid)) (\<lambda>_.
     bindP (perform e (NetlinkHandle pid)) (\<lambda>_.
       ask e (LinkList pid) (\<lambda>s. e_links e (trace s) pid > 1)))"

definition record_running :: "env \<Rightarrow> string \<Rightarrow> ('a nm_state_scheme, unit) proc" where
  "record_running e cid =
     bindP (tryP (dc_ContainerInspect e cid)) (\<lambda>r.
       case r of
         Inl er \<Rightarrow> if errdefs_is_not_found er then retP () else raiseP er
       | Inr inspect \<Rightarrow>
           (case dk_State inspect of
              None \<Rightarrow> raiseP (EnvErr ''nil container state'')
            | Some (running, pid) \<Rightarrow>
                if \<not> running then retP ()
                else bindP (tryP (hasNetwork e pid)) (\<lambda>h.
                  case h of
                    Inl _ \<Rightarrow> retP ()
                  | Inr hasIface \<Rightarrow> if hasIface then Started e cid (dk_StartedAt inspect) None else retP ())))"

definition newState :: "env \<Rightarrow> ('a nm_state_scheme, unit) proc" where
  "newState e =
     bindP (modifyP (\<lambda>s. s\<lparr>nm_startTimes := []\<rparr>)) (\<lambda>_.
     bindP (dc_ContainerList e) (\<lambda>cids. forP (record_running e) cids))"

definition NewManager :: "env \<Rightarrow> ('a nm_state_scheme, unit) proc" where
  "NewManager e = bindP (modifyP (\<lambda>s. s\<lparr>nm_retries := []\<rparr>)) (\<lambda>_. newState e)"

end
