(* ===== verification/NetManagerSafe.thy ===== *)
theory NetManagerSafe
  imports NetManager CniConfSafe
begin

text \<open>
  What the network manager guarantees: its record follows the container, the plugins run once for each start
  of a container, the retries of a failing bring-up come to an end, and the hosts file of a container is
  only ever appended to, once.
\<close>

section \<open>Procedures that leave the record alone\<close>

lemma closing_calls: "C (CloseFile name) \<Longrightarrow> calls_only C m \<Longrightarrow> calls_only C (or_close e name m)"
  unfolding or_close_def by (intro calls_rules)

lemma any_calls:
  "calls_only (\<lambda>_. True) (CNIAdd e ps)" "calls_only (\<lambda>_. True) (CNIDel e ps)"
  "calls_only (\<lambda>_. True) (setupHosts e c res)" "calls_only (\<lambda>_. True) (writeState e cid t d)"
  unfolding CNIAdd_def CNIDel_def NewCNIExec_def libcni_ConfFiles_def load_conf_def add_step_def cni_Add_def del_step_def cni_Del_def
    setupHosts_def writeState_def write_state_file_def os_CreateTemp_def Let_def
  by (intro calls_rules closing_calls; simp)+

text \<open>The manager's own fields.\<close>

lemma own_nm:
  fixes s s' :: "'a nm_state_scheme"
  assumes "world.more s' = world.more s"
  shows "nm_startTimes s' = nm_startTimes s \<and> nm_retries s' = nm_retries s"
  using assms by (cases s; cases s') simp

lemma keeps_own:
  fixes m :: "('a nm_state_scheme, 'b) proc"
  assumes "calls_only C m" and "m s = (r, s')"
  shows "nm_startTimes s' = nm_startTimes s" "nm_retries s' = nm_retries s"
  using own_nm [OF conjunct2 [OF calls_onlyD [OF assms]]] by simp_all

section \<open>What an evaluation does to the record\<close>

lemma record_error_run:
  fixes s s' :: "'a nm_state_scheme"
  assumes "recordNetworkUpError e lib cid t er s = (r, s')"
  shows "r = Inl er \<and> nm_startTimes s' = nm_startTimes s \<and> nm_retries s' = nm_retries s"
proof -
  obtain q u where q: "writeState e cid t (error_data lib er) s = (q, u)" by fastforce
  have "q = Inr ()" using q by (auto simp: writeState_def ignoring_def bindP_def tryP_def retP_def split: prod.splits)
  then have "r = Inl er" "s' = u" using assms q by (simp_all add: recordNetworkUpError_def bindP_def raiseP_def)
  then show ?thesis using keeps_own [OF any_calls(4) q] by simp
qed

lemma Started_run:
  assumes "Started e cid t data s = (r, s')"
  shows "r = Inr () \<and> nm_startTimes s' = mput cid t (nm_startTimes s) \<and> nm_retries s' = nm_retries s"
proof (cases data)
  case None
  then show ?thesis using assms by (auto simp: Started_def bindP_def modifyP_def retP_def)
next
  case (Some d)
  let ?s = "s\<lparr>nm_startTimes := mput cid t (nm_startTimes s)\<rparr>"
  have w: "writeState e cid t d ?s = (r, s')" using assms Some by (simp add: Started_def bindP_def modifyP_def)
  moreover have "r = Inr ()" using w by (auto simp: writeState_def ignoring_def bindP_def tryP_def retP_def split: prod.splits)
  ultimately show ?thesis using keeps_own [OF any_calls(4) w] by simp
qed

text \<open>A bring-up that fails leaves the record and schedules at most one further attempt, with a higher count; one
  that succeeds records the start.\<close>

lemma networkUp_run:
  assumes "networkUp e lib cid c k s = (r, s')"
  shows "if r = Inr () then nm_startTimes s' = mput cid (dk_StartedAt c) (nm_startTimes s) \<and> nm_retries s' = nm_retries s
    else nm_startTimes s' = nm_startTimes s
      \<and> (nm_retries s' = nm_retries s \<or> k < maxRetries \<and> nm_retries s' = nm_retries s @ [(cid, k + 1)])"
proof -
  obtain q t where q: "CNIAdd e (LookupPluginState c) s = (q, t)" by fastforce
  note t = keeps_own [OF any_calls(1) q]
  show ?thesis
  proof (cases q)
    case (Inl er)
    show ?thesis
    proof (cases "k < maxRetries")
      case True
      then have "r = Inl er" "s' = t\<lparr>nm_retries := nm_retries t @ [(cid, k + 1)]\<rparr>"
        using assms q Inl by (simp_all add: networkUp_def Let_def bindP_def tryP_def go_retry_def modifyP_def raiseP_def)
      then show ?thesis using t True by simp
    next
      case False
      then have "recordNetworkUpError e lib cid (dk_StartedAt c) (Wrapf ''bring up CNI network: %w'' [] er) t = (r, s')"
        using assms q Inl by (simp add: networkUp_def Let_def bindP_def tryP_def)
      from record_error_run [OF this] t show ?thesis by simp
    qed
  next
    case (Inr res)
    obtain h u where h: "setupHosts e c res t = (h, u)" by fastforce
    note u = keeps_own [OF any_calls(3) h]
    show ?thesis
    proof (cases h)
      case (Inl er)
      then have "recordNetworkUpError e lib cid (dk_StartedAt c) (Wrapf ''set up container hosts file: %w'' [] er) u = (r, s')"
        using assms q Inr h by (simp add: networkUp_def Let_def bindP_def tryP_def)
      from record_error_run [OF this] t u show ?thesis by simp
    next
      case (Inr x)
      then have "Started e cid (dk_StartedAt c) (Some (nl_result lib (trace u) res)) u = (r, s')"
        using assms q \<open>q = Inr res\<close> h by (simp add: networkUp_def Let_def bindP_def tryP_def getP_def)
      from Started_run [OF this] t u show ?thesis by simp
    qed
  qed
qed

lemma networkDown_run:
  assumes "networkDown e cid c s = (r, s')"
  shows "nm_startTimes s' = mdel cid (nm_startTimes s) \<and> nm_retries s' = nm_retries s"
proof -
  let ?m = "if dk_HostConfig c = None then retP () else CNIDel e (LookupPluginState c)"
  obtain q t where q: "?m s = (q, t)" by fastforce
  have "calls_only (\<lambda>_. True) (?m :: ('a nm_state_scheme, unit) proc)" by (intro calls_rules any_calls)
  from keeps_own [OF this q] have t: "nm_startTimes t = nm_startTimes s" "nm_retries t = nm_retries s" by simp_all
  let ?u = "t\<lparr>nm_startTimes := mdel cid (nm_startTimes t)\<rparr>"
  have "s' = after e (RemoveAll (state_dir cid)) ?u"
    using assms q by (simp add: networkDown_def finallyP_def Stopped_def bindP_def modifyP_def ignoring_perform)
  then show ?thesis using own_nm [of s' ?u] t by simp
qed

text \<open>The answer to the inspection, as far as the decision goes.\<close>

definition answer :: "env \<Rightarrow> string \<Rightarrow> 'a world_scheme \<Rightarrow> (bool \<times> string) option" where
  "answer e cid s =
     (case outcome e (ContainerInspect cid) s of
        Some er \<Rightarrow> if errdefs_is_not_found er then Some (False, []) else None
      | None \<Rightarrow> (case configureNetwork (e_inspect e (trace s) cid) of
            None \<Rightarrow> None
          | Some c \<Rightarrow> map_option (\<lambda>(running, _). (running, dk_StartedAt c)) (dk_State c)))"

lemma evaluate_cases:
  assumes "evaluate e lib cid k s = (r, s')"
  obtains (ignored) "answer e cid s = None" "s' = after e (ContainerInspect cid) s"
  | (decided) running time c where "answer e cid s = Some (running, time)" "dk_StartedAt c = time \<or> \<not> running"
      "nm_decide e lib cid k (mget [] (nm_startTimes s) cid) running time c (after e (ContainerInspect cid) s) = (r, s')"
proof (cases "outcome e (ContainerInspect cid) s")
  case (Some er)
  show ?thesis
  proof (cases "errdefs_is_not_found er")
    case True
    then show ?thesis using assms Some
      by (intro decided [of False "[]" zero_DockerContainer])
        (simp_all add: answer_def evaluate_def StartTime_def dc_ContainerInspect_def bindP_def getP_def tryP_def ask_def)
  next
    case False
    then show ?thesis using assms Some
      by (intro ignored)
        (simp_all add: answer_def evaluate_def StartTime_def dc_ContainerInspect_def bindP_def getP_def tryP_def ask_def raiseP_def)
  qed
next
  case None
  let ?c = "e_inspect e (trace s) cid" and ?t = "after e (ContainerInspect cid) s"
  show ?thesis
  proof (cases "configureNetwork ?c")
    case None': None
    then show ?thesis using assms None
      by (intro ignored)
        (simp_all add: answer_def evaluate_def StartTime_def dc_ContainerInspect_def bindP_def getP_def tryP_def ask_def retP_def)
  next
    case (Some c)
    show ?thesis
    proof (cases "dk_State c")
      case None'': None
      then show ?thesis using assms None Some
        by (intro ignored)
          (simp_all add: answer_def evaluate_def StartTime_def dc_ContainerInspect_def bindP_def getP_def tryP_def ask_def raiseP_def)
    next
      case (Some st)
      then show ?thesis using assms None \<open>configureNetwork ?c = Some c\<close>
        by (cases st) (intro decided [of "fst st" "dk_StartedAt c" c];
          simp add: answer_def evaluate_def StartTime_def dc_ContainerInspect_def bindP_def getP_def tryP_def ask_def)
    qed
  qed
qed

lemma after_own: "nm_startTimes (after e c s) = nm_startTimes s \<and> nm_retries (after e c s) = nm_retries s"
  by (rule own_nm) simp

text \<open>C31: The record follows the container, as far as Docker can be asked about a container whose network is
  managed.  A running container whose start is recorded is left alone - nothing is called and nothing
  changes; a new start is recorded exactly when its network came up, otherwise the record stays; and a
  container that is gone or stopped is dropped from the record, also when deleting its network failed.\<close>

theorem record_tracks_container:
  assumes "answer e cid s = Some (running, time)" and "evaluate e lib cid k s = (r, s')"
  defines "was \<equiv> mget [] (nm_startTimes s) cid"
  shows "if running then
      (if was = time \<and> was \<noteq> [] then r = Inr () \<and> s' = after e (ContainerInspect cid) s
       else nm_startTimes s' = (if r = Inr () then mput cid time (nm_startTimes s) else nm_startTimes s))
    else mget [] (nm_startTimes s') cid = []"
  using assms(2)
proof (cases rule: evaluate_cases)
  case (decided running' time' c)
  let ?t = "after e (ContainerInspect cid) s"
  have eq: "running' = running" "time' = time" using decided(1) assms(1) by simp_all
  have dec: "nm_decide e lib cid k was running time c ?t = (r, s')" using decided(3) eq by (simp add: was_def)
  show ?thesis
  proof (cases running)
    case True
    then have c: "dk_StartedAt c = time" using decided(2) eq by simp
    show ?thesis
    proof (cases "was = time \<and> was \<noteq> []")
      case True
      then have "retP () ?t = (r, s')" using dec \<open>running\<close> by (auto simp: nm_decide_def)
      then show ?thesis using True \<open>running\<close> by (auto simp: retP_def)
    next
      case False
      then have "networkUp e lib cid c k ?t = (r, s')" using dec True by (auto simp: nm_decide_def split: if_splits)
      from networkUp_run [OF this] c after_own [of e "ContainerInspect cid" s] False True show ?thesis by (auto split: if_splits)
    qed
  next
    case stopped: False
    show ?thesis
    proof (cases "was = []")
      case True
      then have "s' = ?t" using dec stopped by (simp add: nm_decide_def retP_def)
      then show ?thesis using stopped True after_own [of e "ContainerInspect cid" s] by (simp add: was_def)
    next
      case False
      then have "networkDown e cid c ?t = (r, s')" using dec stopped by (simp add: nm_decide_def)
      from networkDown_run [OF this] stopped show ?thesis by (simp add: mget_def delete_conv)
    qed
  qed
qed (use assms(1) in simp)

text \<open>A managed container that runs since its recorded start.\<close>

definition steady_env :: env where
  "steady_env = quiet_env\<lparr>e_inspect := (\<lambda>_ cid. zero_DockerContainer\<lparr>dk_ID := cid, dk_Labels := Some [(CNILabel, ''ipsec'')],
     dk_State := Some (True, 7), dk_StartedAt := ''t1'', dk_HostConfig := Some ([], [])\<rparr>)\<rparr>"

definition steady_state :: nm_state where
  "steady_state = \<lparr>trace = [], files = (\<lambda>_. None), nm_startTimes = [(''c1'', ''t1'')], nm_retries = []\<rparr>"

theorem record_tracks_container_witness:
  "evaluate steady_env \<lparr>nl_result = (\<lambda>_ _. []), nl_errtext = (\<lambda>_. [])\<rparr> ''c1'' 0 steady_state = (Inr (), after steady_env (ContainerInspect ''c1'') steady_state)"
proof -
  let ?lib = "\<lparr>nl_result = (\<lambda>_ _. []), nl_errtext = (\<lambda>_. [])\<rparr>"
  obtain r s' where h: "evaluate steady_env ?lib ''c1'' 0 steady_state = (r, s')" by fastforce
  have a: "answer steady_env ''c1'' steady_state = Some (True, ''t1'')"
    by (simp add: answer_def steady_env_def quiet_env_def outcome_def configureNetwork_def configured_network_def)
  have "mget [] (nm_startTimes steady_state) ''c1'' = ''t1''" by (simp add: steady_state_def mget_def)
  then show ?thesis using record_tracks_container [OF a h] h by simp
qed

section \<open>Retries\<close>

lemma evaluate_retries:
  assumes "evaluate e lib cid k s = (r, s')"
  shows "nm_retries s' = nm_retries s \<or> k < maxRetries \<and> nm_retries s' = nm_retries s @ [(cid, k + 1)]"
  using assms
proof (cases rule: evaluate_cases)
  case ignored
  then show ?thesis using after_own by blast
next
  case (decided running time c)
  let ?t = "after e (ContainerInspect cid) s"
  have t: "nm_retries ?t = nm_retries s" using after_own by blast
  consider "networkUp e lib cid c k ?t = (r, s')" | "networkDown e cid c ?t = (r, s')" | "s' = ?t"
    using decided(3) by (auto simp: nm_decide_def retP_def split: if_splits)
  then show ?thesis
  proof cases
    case 1
    from networkUp_run [OF this] t show ?thesis by (auto split: if_splits)
  qed (use networkDown_run t in fastforce, use t in simp)
qed

lemma evaluate_times:
  assumes "evaluate e lib cid k s = (r, s')"
  shows "nm_startTimes s' = nm_startTimes s \<or> (\<exists>t. nm_startTimes s' = mput cid t (nm_startTimes s)) \<or> nm_startTimes s' = mdel cid (nm_startTimes s)"
  using assms
proof (cases rule: evaluate_cases)
  case ignored
  then show ?thesis using after_own by blast
next
  case (decided running time c)
  let ?t = "after e (ContainerInspect cid) s"
  have t: "nm_startTimes ?t = nm_startTimes s" using after_own by blast
  consider "networkUp e lib cid c k ?t = (r, s')" | "networkDown e cid c ?t = (r, s')" | "s' = ?t"
    using decided(3) by (auto simp: nm_decide_def retP_def split: if_splits)
  then show ?thesis
  proof cases
    case 1
    from networkUp_run [OF this] t show ?thesis by (auto split: if_splits)
  qed (use networkDown_run t in fastforce, use t in simp)
qed

text \<open>A step of the manager: an event asks for an evaluation, or a waiting retry runs.\<close>

definition run_retry :: "env \<Rightarrow> net_lib \<Rightarrow> string \<times> nat \<Rightarrow> nm_state \<Rightarrow> nm_state" where
  "run_retry e lib rt s = snd (retry e lib (fst rt) (snd rt) (s\<lparr>nm_retries := remove1 rt (nm_retries s)\<rparr>))"

inductive retry_step :: "env \<Rightarrow> net_lib \<Rightarrow> nm_state \<Rightarrow> nm_state \<Rightarrow> bool" for e lib where
  retry: "rt \<in> set (nm_retries s) \<Longrightarrow> retry_step e lib s (run_retry e lib rt s)"

inductive nm_step :: "env \<Rightarrow> net_lib \<Rightarrow> nm_state \<Rightarrow> nm_state \<Rightarrow> bool" for e lib where
  event: "nm_step e lib s (snd (Evaluate e lib cid s))"
| retry: "rt \<in> set (nm_retries s) \<Longrightarrow> nm_step e lib s (run_retry e lib rt s)"

inductive_cases retry_stepE: "retry_step e lib s s'"
inductive_cases nm_stepE: "nm_step e lib s s'"

lemma run_retry_eq:
  obtains t r u where "evaluate e lib (fst rt) (snd rt) t = (r, run_retry e lib rt s)"
    "nm_retries t = remove1 rt (nm_retries s)" "nm_startTimes t = nm_startTimes s"
proof -
  let ?s = "s\<lparr>nm_retries := remove1 rt (nm_retries s)\<rparr>"
  let ?t = "?s\<lparr>trace := trace s @ [(Sleep (2 * second), None)]\<rparr>"
  obtain r u where u: "evaluate e lib (fst rt) (snd rt) ?t = (r, u)" by fastforce
  then have "run_retry e lib rt s = u"
    by (simp add: run_retry_def retry_def bindP_def time_Sleep_def ignoring_def tryP_def retP_def)
  then show thesis using u by (intro that [of ?t r]) simp_all
qed

text \<open>The attempts that are left: a retry that runs as the \<open>k\<close>-th has \<open>maxRetries - k\<close> more behind it.\<close>

definition left :: "(string \<times> nat) list \<Rightarrow> nat" where
  "left rts = sum_list (map (\<lambda>rt. Suc maxRetries - snd rt) rts)"

lemma left_remove: "rt \<in> set rts \<Longrightarrow> left rts = (Suc maxRetries - snd rt) + left (remove1 rt rts)"
  unfolding left_def by (induction rts) auto

definition nm_wf :: "nm_state \<Rightarrow> bool" where
  "nm_wf s \<longleftrightarrow> wf_map (nm_startTimes s) \<and> list_all (\<lambda>rt. 1 \<le> snd rt \<and> snd rt \<le> maxRetries) (nm_retries s)"

lemma wf_evaluate:
  assumes "evaluate e lib cid k s = (r, s')" and "nm_wf s"
  shows "nm_wf s'"
  using evaluate_retries [OF assms(1)] evaluate_times [OF assms(1)] assms(2) unfolding nm_wf_def by auto

lemma wf_event:
  assumes "nm_wf s"
  shows "nm_wf (snd (Evaluate e lib cid s))"
proof -
  obtain r s' where h: "evaluate e lib cid 0 s = (r, s')" by fastforce
  then show ?thesis using wf_evaluate [OF h assms] by (simp add: Evaluate_def)
qed

lemma wf_retry:
  assumes "nm_wf s"
  shows "nm_wf (run_retry e lib rt s)"
proof -
  obtain t r u where t: "evaluate e lib (fst rt) (snd rt) t = (r, run_retry e lib rt s)"
    "nm_retries t = remove1 rt (nm_retries s)" "nm_startTimes t = nm_startTimes s" by (rule run_retry_eq)
  have "nm_wf t" using assms t(2,3) set_remove1_subset unfolding nm_wf_def list_all_iff by fastforce
  then show ?thesis by (rule wf_evaluate [OF t(1)])
qed

lemma wf_step: "nm_step e lib s s' \<Longrightarrow> nm_wf s \<Longrightarrow> nm_wf s'"
  by (erule nm_stepE) (auto intro: wf_event wf_retry)

lemma retry_decreases:
  assumes "retry_step e lib s s'" and "nm_wf s"
  shows "left (nm_retries s') < left (nm_retries s)"
  using assms(1)
proof (cases rule: retry_step.cases)
  case (retry rt)
  obtain t r u where t: "evaluate e lib (fst rt) (snd rt) t = (r, run_retry e lib rt s)"
    "nm_retries t = remove1 rt (nm_retries s)" by (rule run_retry_eq)
  have k: "snd rt \<le> maxRetries" using assms(2) retry(2) by (auto simp: nm_wf_def list_all_iff)
  have "left (nm_retries s') \<le> left (remove1 rt (nm_retries s)) + (maxRetries - snd rt)"
    using evaluate_retries [OF t(1)] t(2) retry(1) by (auto simp: left_def)
  then show ?thesis using left_remove [OF retry(2)] k by simp
qed

lemma retry_enabled: "(\<exists>t. retry_step e lib s t) \<longleftrightarrow> nm_retries s \<noteq> []"
  by (cases "nm_retries s") (auto elim: retry_stepE intro!: exI retry_step.retry)

interpretation retries: draining nm_wf "retry_step e lib" "\<lambda>s. left (nm_retries s)" "\<lambda>s. nm_retries s \<noteq> []" for e lib
  by unfold_locales (auto elim: retry_stepE intro: wf_retry retry_decreases simp: retry_enabled)

lemma wf_calls:
  assumes "calls_only C m"
  shows "frame nm_wf m"
proof -
  have "nm_wf s'" if "nm_wf s" "m s = (r, s')" for s r s'
    using keeps_own [OF assms that(2)] that(1) by (simp add: nm_wf_def)
  then show ?thesis by (intro frameI hoareI)
qed

lemma wf_Started: "frame nm_wf (Started e cid t data)"
  by (rule frameI, rule hoareI) (auto simp: nm_wf_def dest!: Started_run)

lemma wf_start:
  assumes "NewManager e s0 = (r, s)"
  shows "nm_wf s"
proof -
  have "frame nm_wf (record_running e cid)" for cid
  proof -
    have "frame nm_wf (tryP (dc_ContainerInspect e cid))" by (rule wf_calls [where C = "\<lambda>_. True"]) (intro calls_rules, simp)
    moreover have "frame nm_wf (tryP (hasNetwork e pid))" for pid
      unfolding hasNetwork_def by (rule wf_calls [where C = "\<lambda>_. True"]) (intro calls_rules; simp)
    ultimately show ?thesis unfolding record_running_def by (intro frame_bind frame_control frame_basic wf_Started)
  qed
  then have run: "frame nm_wf (bindP (dc_ContainerList e) (\<lambda>cids. forP (record_running e) cids))"
    by (intro frame_bind [OF wf_calls [where C = "\<lambda>_. True"]] frame_for) (intro calls_rules, simp)
  have "bindP (dc_ContainerList e) (\<lambda>cids. forP (record_running e) cids) (s0\<lparr>nm_retries := [], nm_startTimes := []\<rparr>) = (r, s)"
    using assms by (simp add: NewManager_def newState_def bindP_def modifyP_def)
  from frameD [OF run _ this] show ?thesis by (simp add: nm_wf_def)
qed

text \<open>C32: The manager's state is well formed from its start on, whatever Docker answers, whatever events come and
  however its retries run: every container has at most one recorded start, and every retry waiting to run
  carries a count between one and the limit.\<close>

theorem manager_well_formed:
  assumes "NewManager e s0 = (r, s)" and "(nm_step e lib)\<^sup>*\<^sup>* s s'"
  shows "wf_map (nm_startTimes s') \<and> list_all (\<lambda>rt. 1 \<le> snd rt \<and> snd rt \<le> maxRetries) (nm_retries s')"
proof -
  from assms(2) have "nm_wf s'" by (induction rule: rtranclp_induct) (auto intro: wf_step wf_start [OF assms(1)])
  then show ?thesis by (simp only: nm_wf_def)
qed

text \<open>A manager over an empty Docker, then an event for a container it does not know.\<close>

definition no_data :: net_lib where
  "no_data = \<lparr>nl_result = (\<lambda>_ _. ''null''), nl_errtext = (\<lambda>_. ''failed'')\<rparr>"

definition nm_zero :: nm_state where
  "nm_zero = \<lparr>trace = [], files = (\<lambda>_. None), nm_startTimes = [(''c0'', ''t0''), (''c0'', ''t1'')], nm_retries = [(''c0'', 99)]\<rparr>"

theorem manager_well_formed_witness:
  "let s = snd (Evaluate quiet_env no_data ''c1'' (snd (NewManager quiet_env nm_zero))) in
     wf_map (nm_startTimes s) \<and> list_all (\<lambda>rt. 1 \<le> snd rt \<and> snd rt \<le> maxRetries) (nm_retries s)"
proof -
  obtain r s where h: "NewManager quiet_env nm_zero = (r, s)" by fastforce
  have "(nm_step quiet_env no_data)\<^sup>*\<^sup>* s (snd (Evaluate quiet_env no_data ''c1'' s))" by (rule r_into_rtranclp) (rule nm_step.event)
  from manager_well_formed [OF h this] show ?thesis unfolding h Let_def snd_conv .
qed

text \<open>C33: Retrying comes to an end: once no events arrive, the retries of a failing bring-up run at most as often
  as there are attempts left - one event leads to at most fifteen - and whenever none can run, none is
  waiting.\<close>

theorem retries_bounded:
  assumes "nm_wf s" and "(retry_step e lib ^^ n) s s'"
  shows "n + left (nm_retries s') \<le> left (nm_retries s)
    \<and> ((\<nexists>t. retry_step e lib s' t) \<longleftrightarrow> nm_retries s' = [])
    \<and> (nm_retries u = [] \<and> s = snd (Evaluate e lib cid u) \<longrightarrow> n \<le> maxRetries)"
proof -
  note run = retries.run_bounded [OF assms] and stuck = retries.stuck_done [OF assms]
  have "left (nm_retries s) \<le> maxRetries" if u: "nm_retries u = []" "s = snd (Evaluate e lib cid u)"
  proof -
    obtain r t where h: "evaluate e lib cid 0 u = (r, t)" by fastforce
    then show ?thesis using evaluate_retries [OF h] u by (auto simp: Evaluate_def left_def)
  qed
  then show ?thesis using run stuck by (auto dest: le_trans [OF add_leD1])
qed

text \<open>The plugins fail and the fourteenth retry runs: one attempt is left at most.\<close>

definition last_retries :: nm_state where
  "last_retries = \<lparr>trace = [], files = (\<lambda>_. None), nm_startTimes = [], nm_retries = [(''c1'', 14)]\<rparr>"

theorem retries_bounded_witness:
  "1 + left (nm_retries (run_retry two_plugins no_data (''c1'', 14) last_retries)) \<le> 2"
proof -
  have "nm_wf last_retries" by (simp add: nm_wf_def last_retries_def maxRetries_def)
  moreover have "(retry_step two_plugins no_data ^^ 1) last_retries (run_retry two_plugins no_data (''c1'', 14) last_retries)"
    unfolding relpowp_1 by (rule retry_step.retry) (simp add: last_retries_def)
  ultimately have "1 + left (nm_retries (run_retry two_plugins no_data (''c1'', 14) last_retries)) \<le> left (nm_retries last_retries)"
    using retries_bounded by blast
  then show ?thesis by (simp add: last_retries_def left_def maxRetries_def)
qed

section \<open>The hosts file\<close>

lemma hosts_write:
  "str_contains (hosts @ line) line"
  unfolding str_contains_iff by (rule exI [of _ hosts], rule exI [of _ "[]"]) simp

lemma setupHosts_run:
  assumes "dk_Labels c \<noteq> None" and "dk_Hostname c \<noteq> []" and "dk_HostsPath c \<noteq> []" and "PrimaryIPv4 res \<noteq> []"
  shows "setupHosts e c res s =
    (let p = dk_HostsPath c; line = hosts_line (PrimaryIPv4 res) (dk_Hostname c); t = after e (ReadFile p) s;
         hosts = (case files s p of None \<Rightarrow> [] | Some d \<Rightarrow> d)
     in case outcome e (ReadFile p) s of
          Some er \<Rightarrow> if os_is_not_exist er then (Inr (), t) else (Inl er, t)
        | None \<Rightarrow> if str_contains hosts line then (Inr (), t) else perform e (WriteFile p (hosts @ line)) t)"
proof -
  have "\<not> (dk_Labels c = None \<or> dk_Hostname c = [] \<or> dk_HostsPath c = [] \<or> PrimaryIPv4 res = [])" using assms by blast
  then show ?thesis
    unfolding setupHosts_def Let_def
    by (simp only: if_False) (simp add: bindP_def tryP_def os_ReadFile_def ask_def retP_def raiseP_def split: option.split)
qed

text \<open>A container's hosts file gets the line of the container's address once: after a success the old content
  is still its beginning, followed by the line unless it already had it; and from then on - as long as the
  file stays - every further call only reads it, whatever the environment does.\<close>

theorem hosts_set_once:
  assumes "truthful e" and "files s p = Some old" and "p = dk_HostsPath c" and "setupHosts e c res s = (Inr (), s')"
    and "dk_Labels c \<noteq> None" and "dk_Hostname c \<noteq> []" and "p \<noteq> []" and "PrimaryIPv4 res \<noteq> []"
  shows "files s' p = Some (if str_contains old (hosts_line (PrimaryIPv4 res) (dk_Hostname c)) then old
      else old @ hosts_line (PrimaryIPv4 res) (dk_Hostname c))
    \<and> (\<forall>e' t. files t p = files s' p \<longrightarrow> calls_of (trace (snd (setupHosts e' c res t))) = calls_of (trace t) @ [ReadFile p])"
proof -
  let ?line = "hosts_line (PrimaryIPv4 res) (dk_Hostname c)"
  note run = setupHosts_run [OF assms(5-6) assms(7) [unfolded assms(3)] assms(8), unfolded Let_def, folded assms(3)]
  have ok: "outcome e (ReadFile p) s = None"
    using assms(2,4) absent(2) [OF assms(1), of p s] unfolding run by (auto split: option.splits if_splits)
  let ?s = "after e (ReadFile p) s"
  have f: "files ?s p = Some old" using assms(2) by (simp add: after_untouched)
  have new: "files s' p = Some (if str_contains old ?line then old else old @ ?line)"
    using assms(2,4) ok f unfolding run by (auto simp: perform_def ask_def after_def split: option.splits if_splits)
  moreover have "str_contains (if str_contains old ?line then old else old @ ?line) ?line" using hosts_write by simp
  then have "calls_of (trace (snd (setupHosts e' c res t))) = calls_of (trace t) @ [ReadFile p]" if "files t p = files s' p"
    for e' and t :: "'b world_scheme"
    using that new unfolding run by (simp split: option.split)
  ultimately show ?thesis by blast
qed

definition c1_up :: DockerContainer where
  "c1_up = zero_DockerContainer\<lparr>dk_Labels := Some [], dk_Hostname := ''web'', dk_HostsPath := ''/h''\<rparr>"

theorem hosts_set_once_witness:
  "files (snd (setupHosts quiet_env c1_up (Some [IPv4 ''10.42.0.9'']) \<lparr>trace = [], files = (\<lambda>_. None)(''/h'' \<mapsto> ''x'')\<rparr>)) ''/h''
     = Some (''x'' @ hosts_line ''10.42.0.9'' ''web'')"
proof -
  let ?s = "\<lparr>trace = [], files = (\<lambda>_. None)(''/h'' \<mapsto> ''x'')\<rparr> :: world"
  have "fst (setupHosts quiet_env c1_up (Some [IPv4 ''10.42.0.9'']) ?s) = Inr ()" by code_simp
  then obtain s' where h: "setupHosts quiet_env c1_up (Some [IPv4 ''10.42.0.9'']) ?s = (Inr (), s')"
    by (cases "setupHosts quiet_env c1_up (Some [IPv4 ''10.42.0.9'']) ?s") simp
  have tr: "truthful quiet_env" by (simp add: truthful_def quiet_env_def)
  have ip: "PrimaryIPv4 (Some [IPv4 ''10.42.0.9'']) = ''10.42.0.9''" by (simp add: PrimaryIPv4_def)
  have c: "''/h'' = dk_HostsPath c1_up" "dk_Hostname c1_up = ''web''" "dk_Labels c1_up \<noteq> None" by (simp_all add: c1_up_def)
  have new: "\<not> str_contains ''x'' (hosts_line ''10.42.0.9'' ''web'')" by code_simp
  have "files ?s ''/h'' = Some ''x''" by simp
  from conjunct1 [OF hosts_set_once [OF tr this c(1) h c(3)]] show ?thesis
    unfolding h snd_conv ip c(2) if_not_P [OF new] by simp
qed

end
