(* ===== verification/NetLocal.thy ===== *)
theory NetLocal
  imports NetManager
begin

text \<open>
  The networks of this host and the namespaces of its containers (\<open>src/network/local.go\<close>), hardware
  addresses as \<open>net.ParseMAC\<close> reads and prints them, and single-record log values
  (\<open>src/internal/logsafe/value.go\<close>).
\<close>

section \<open>Networks with a driver on this host\<close>

definition is_primary_driver :: "Service \<Rightarrow> bool" where
  "is_primary_driver svc \<longleftrightarrow> svc_Kind svc = ''networkDriverService'' \<and> svc_Name svc = svc_PrimaryServiceName svc"

definition local_router :: "string \<Rightarrow> Container \<Rightarrow> Container gomap \<Rightarrow> Container gomap" where
  "local_router hostUUID c routers = (if ctr_HostUUID c = hostUUID then mput (ctr_NetworkUUID c) c routers else routers)"

definition local_routers :: "string \<Rightarrow> Service list \<Rightarrow> Container gomap" where
  "local_routers hostUUID services =
     fold (\<lambda>svc routers. if \<not> is_primary_driver svc then routers else fold (local_router hostUUID) (svc_Containers svc) routers) services []"

text \<open>The set of local networks has the keys of the router map.\<close>

definition LocalNetworks :: "env \<Rightarrow> ('a world_scheme, Network list \<times> Container gomap) proc" where
  "LocalNetworks e =
     bindP (wrapP (Wrapf ''fetch networks from metadata: %w'' []) (getNetworks e)) (\<lambda>networks.
     bindP (wrapP (Wrapf ''fetch local host UUID: %w'' []) (LocalHostUUID e)) (\<lambda>hostUUID.
     bindP (wrapP (Wrapf ''fetch services from metadata: %w'' []) (getServices e)) (\<lambda>services.
       let routers = local_routers hostUUID services in
       if routers = [] then retP ([], [])
       else retP (filter (\<lambda>n. mhas routers (net_UUID n)) networks, routers))))"

section \<open>Inside the containers\<close>

text \<open>Entering the namespace of a process covers opening it; the work runs in it and leaves it however it ends.\<close>

definition EnterNS :: "env \<Rightarrow> string \<Rightarrow> ('a world_scheme, unit) proc \<Rightarrow> ('a world_scheme, unit) proc" where
  "EnterNS e dockerID f =
     bindP (wrapP (Wrapf ''inspect container %s: %w'' [dockerID]) (dc_ContainerInspect e dockerID)) (\<lambda>inspect.
       case dk_State inspect of
         None \<Rightarrow> raiseP (EnvErr ''nil container state'')
       | Some (_, pid) \<Rightarrow>
           bindP (wrapP (Wrapf ''open network namespace %s: %w'' [netns_path pid]) (perform e (NsEnter pid))) (\<lambda>_.
             wrapP (Wrapf ''run in network namespace for container %s: %w'' [dockerID])
               (finallyP f (perform e NsLeave))))"

definition in_network :: "string \<Rightarrow> string \<Rightarrow> Container \<Rightarrow> bool" where
  "in_network hostUUID networkUUID c \<longleftrightarrow>
     ctr_HostUUID c = hostUUID \<and> ctr_State c = ''running'' \<and> ctr_ExternalId c \<noteq> [] \<and> ctr_PrimaryIp c \<noteq> []
     \<and> ctr_PrimaryMacAddress c \<noteq> [] \<and> ctr_NetworkUUID c = networkUUID"

text \<open>The last error, once every container was visited.\<close>

definition keep_error :: "('s, unit) proc \<Rightarrow> gerr option \<Rightarrow> ('s, gerr option) proc" where
  "keep_error m lastError = bindP (tryP m) (\<lambda>r. retP (case r of Inl er \<Rightarrow> Some er | Inr _ \<Rightarrow> lastError))"

definition raise_last :: "gerr option \<Rightarrow> ('s, unit) proc" where
  "raise_last lastError = (case lastError of None \<Rightarrow> retP () | Some er \<Rightarrow> raiseP er)"

definition visit :: "env \<Rightarrow> string \<Rightarrow> string \<Rightarrow> (Container \<Rightarrow> ('a world_scheme, unit) proc) \<Rightarrow> Container \<Rightarrow> gerr option \<Rightarrow>
    ('a world_scheme, gerr option) proc" where
  "visit e hostUUID networkUUID f c lastError =
     (if \<not> in_network hostUUID networkUUID c then retP lastError
      else keep_error (EnterNS e (ctr_ExternalId c) (f c)) lastError)"

definition ForEachContainerNS :: "env \<Rightarrow> string \<Rightarrow> (Container \<Rightarrow> ('a world_scheme, unit) proc) \<Rightarrow> ('a world_scheme, unit) proc" where
  "ForEachContainerNS e networkUUID f =
     bindP (wrapP (Wrapf ''fetch local host UUID: %w'' []) (LocalHostUUID e)) (\<lambda>hostUUID.
     bindP (wrapP (Wrapf ''fetch containers from metadata: %w'' []) (getContainers e)) (\<lambda>containers.
     bindP (foldP (visit e hostUUID networkUUID f) containers None) raise_last))"

section \<open>Hardware addresses\<close>

definition hex_pair :: "string \<Rightarrow> string option" where
  "hex_pair s = (if length s = 2 \<and> list_all (\<lambda>c. hex_val c \<noteq> None) s then Some (to_lower s) else None)"

fun hex_pairs :: "string list \<Rightarrow> string list option" where
  "hex_pairs [] = Some []"
| "hex_pairs (g # gs) =
     (case (hex_pair g, hex_pairs gs) of (Some p, Some ps) \<Rightarrow> Some (p # ps) | _ \<Rightarrow> None)"

fun hex_quads :: "string list \<Rightarrow> string list option" where
  "hex_quads [] = Some []"
| "hex_quads (g # gs) =
     (case (hex_pair (take 2 g), hex_pair (drop 2 g), hex_quads gs) of (Some p, Some q, Some ps) \<Rightarrow> Some (p # q # ps) | _ \<Rightarrow> None)"

text \<open>\<open>net.ParseMAC\<close>: six, eight or twenty octets, as pairs between colons or hyphens or as quadruples between dots;
  the result is the text of \<open>HardwareAddr.String()\<close>.\<close>

definition parse_mac :: "string \<Rightarrow> string option" where
  "parse_mac s =
     (if length s < 14 then None
      else
        let octets = (if s ! 2 = CHR '':'' \<or> s ! 2 = CHR ''-'' then hex_pairs (str_split (s ! 2) s)
                      else if s ! 4 = CHR ''.'' then hex_quads (str_split (CHR ''.'') s) else None)
        in case octets of
             None \<Rightarrow> None
           | Some os \<Rightarrow> if length os \<in> {6, 8, 20} then Some (str_join '':'' os) else None)"

definition ParseMAC :: "string \<Rightarrow> string result" where
  "ParseMAC s = (case parse_mac s of None \<Rightarrow> Inl (Errorf ''address %s: invalid MAC address'' [s]) | Some t \<Rightarrow> Inr t)"

text \<open>\<open>strings.EqualFold\<close> against the text of a hardware address, which is ASCII.\<close>

definition equal_fold :: "string \<Rightarrow> string \<Rightarrow> bool" where
  "equal_fold a b \<longleftrightarrow> to_lower a = to_lower b"

section \<open>IP addresses\<close>

text \<open>\<open>net.ParseIP\<close> and the text of its result; an IPv6 address keeps the text it was given as.\<close>

definition ParseIP :: "string \<Rightarrow> string option" where
  "ParseIP s = (case parse_addr s of
      None \<Rightarrow> None
    | Some a \<Rightarrow> (case unmap a of V4 i \<Rightarrow> Some (ip4_str i) | V6 _ zone \<Rightarrow> if zone = [] then Some s else None))"

section \<open>Log values\<close>

text \<open>\<open>logsafe.Value\<close> of a value whose \<open>fmt.Sprint\<close> text is given.\<close>

definition logsafe_Value :: "string \<Rightarrow> string" where
  "logsafe_Value text' = map (\<lambda>c. if c = CHR 0x0A then CHR '' '' else c) (filter (\<lambda>c. c \<noteq> CHR 0x0D) text')"

lemma logsafe_one_record: "set (logsafe_Value t) \<inter> {CHR 0x0A, CHR 0x0D} = {}"
  by (auto simp: logsafe_Value_def)

end
