(* ===== verification/ArpSync.thy ===== *)
theory ArpSync
  imports NetLocal
begin

text \<open>
  The ARP watcher (\<open>src/arpsync/watcher.go\<close>): in the host and in every running container of a network with
  the arpsync label, the neighbour entries of the network's containers point to the container's own
  hardware address when it is on this host and to the network's router otherwise.  Addresses are texts as
  Go prints them.
\<close>

section \<open>What an entry should be\<close>

definition syncLabel :: string where "syncLabel = ''io.rancher.network.arpsync''"

definition buildContainersMap :: "Container list \<Rightarrow> Network \<Rightarrow> Container gomap" where
  "buildContainersMap containers network =
     fold (\<lambda>c m. if \<not> (ctr_PrimaryIp c \<noteq> [] \<and> ctr_PrimaryMacAddress c \<noteq> [] \<and> ctr_NetworkUUID c = net_UUID network) then m
                 else mput (ctr_PrimaryIp c) c m) containers []"

definition isNetworkDriverContext :: "string \<Rightarrow> string \<Rightarrow> Container gomap \<Rightarrow> bool" where
  "isNetworkDriverContext ctx driverMac containersMap \<longleftrightarrow>
     (\<exists>x \<in> set containersMap. ctr_ExternalId (snd x) = ctx \<and> ctr_PrimaryMacAddress (snd x) = driverMac)"

text \<open>The address, or None when the entry is not managed.\<close>

definition expectedARPEntry :: "string \<Rightarrow> Container \<Rightarrow> Host \<Rightarrow> bool \<Rightarrow> string option" where
  "expectedARPEntry driverMac c host driverContext =
     (if ctr_HostUUID c = host_UUID host then Some (ctr_PrimaryMacAddress c)
      else if driverContext then None else Some driverMac)"

text \<open>\<open>NUD_REACHABLE\<close> and \<open>NUD_PERMANENT\<close>.\<close>

definition arpEntryState :: "string \<Rightarrow> int" where
  "arpEntryState ctx = (if ctx = ''host'' then 2 else 128)"

section \<open>Changing the table\<close>

definition deleteARPEntry :: "env \<Rightarrow> neigh \<Rightarrow> ('a world_scheme, unit) proc" where
  "deleteARPEntry e entry = perform e (NeighDel entry)"

definition fixARPEntry :: "env \<Rightarrow> string \<Rightarrow> neigh \<Rightarrow> string \<Rightarrow> ('a world_scheme, unit) proc" where
  "fixARPEntry e ctx oldEntry newMACAddress =
     bindP (liftP (ParseMAC newMACAddress)) (\<lambda>hw.
       perform e (NeighSet (oldEntry\<lparr>ne_HardwareAddr := hw, ne_State := arpEntryState ctx\<rparr>)))"

definition addARPEntry :: "env \<Rightarrow> string \<Rightarrow> string \<Rightarrow> string \<Rightarrow> ('a world_scheme, unit) proc" where
  "addARPEntry e ctx ipAddress macAddress =
     (case ParseIP ipAddress of
        None \<Rightarrow> raiseP (Errorf ''invalid IP address %s'' [ipAddress])
      | Some ip \<Rightarrow>
          bindP (liftP (ParseMAC macAddress)) (\<lambda>hw.
          bindP (ask e (RouteGet ip) (\<lambda>s. e_routes e (trace s) ip)) (\<lambda>routes.
            case routes of
              [] \<Rightarrow> raiseP (Errorf ''no route found for missing ARP entry %s'' [ipAddress])
            | link # _ \<Rightarrow>
                perform e (NeighSet \<lparr>ne_LinkIndex = link, ne_IP = Some ip, ne_HardwareAddr = hw, ne_State = arpEntryState ctx\<rparr>))))"

section \<open>One table\<close>

text \<open>The addresses of the host's own interfaces, as far as they can be listed.\<close>

definition link_ips :: "env \<Rightarrow> nat \<Rightarrow> string list \<Rightarrow> ('a world_scheme, string list) proc" where
  "link_ips e link ips =
     bindP (tryP (ask e (HostAddrs link) (\<lambda>s. e_hostaddrs e (trace s) link))) (\<lambda>r.
       retP (case r of Inl _ \<Rightarrow> ips | Inr addrs \<Rightarrow> ips @ List.map_filter (\<lambda>a. a) addrs))"

definition localInterfaceIPs :: "env \<Rightarrow> ('a world_scheme, string list) proc" where
  "localInterfaceIPs e =
     bindP (tryP (ask e HostLinks (\<lambda>s. e_hostlinks e (trace s)))) (\<lambda>r.
       case r of Inl _ \<Rightarrow> retP [] | Inr links \<Rightarrow> foldP (link_ips e) [0..<links] [])"

definition arp_entry_step :: "env \<Rightarrow> string \<Rightarrow> string \<Rightarrow> Container gomap \<Rightarrow> Host \<Rightarrow> bool \<Rightarrow> neigh \<Rightarrow> gerr option \<Rightarrow>
    ('a world_scheme, gerr option) proc" where
  "arp_entry_step e ctx driverMac containersMap host driverContext entry lastError =
     (case ne_IP entry of
        None \<Rightarrow> retP lastError
      | Some ip \<Rightarrow>
          (case map_of containersMap ip of
             None \<Rightarrow> retP lastError
           | Some c \<Rightarrow>
               (case expectedARPEntry driverMac c host driverContext of
                  None \<Rightarrow> if ne_HardwareAddr entry = driverMac then keep_error (deleteARPEntry e entry) lastError else retP lastError
                | Some expected \<Rightarrow>
                    if ne_HardwareAddr entry \<noteq> expected then keep_error (fixARPEntry e ctx entry expected) lastError
                    else retP lastError)))"

definition arp_missing_step :: "env \<Rightarrow> string \<Rightarrow> string \<Rightarrow> Container gomap \<Rightarrow> Host \<Rightarrow> bool \<Rightarrow> string list \<Rightarrow> string \<Rightarrow> gerr option \<Rightarrow>
    ('a world_scheme, gerr option) proc" where
  "arp_missing_step e ctx driverMac containersMap host driverContext skip ip lastError =
     (if ip \<in> set skip then retP lastError
      else case expectedARPEntry driverMac (mget zero_Container containersMap ip) host driverContext of
        None \<Rightarrow> retP lastError
      | Some expected \<Rightarrow> keep_error (addARPEntry e ctx ip expected) lastError)"

definition syncArpTable :: "env \<Rightarrow> string \<Rightarrow> string \<Rightarrow> Container gomap \<Rightarrow> Host \<Rightarrow> ('a world_scheme, unit) proc" where
  "syncArpTable e ctx driverMac containersMap host =
     bindP (ask e NeighList (\<lambda>s. e_neigh e (trace s))) (\<lambda>entries.
     bindP (localInterfaceIPs e) (\<lambda>localIPs.
       let driverContext = isNetworkDriverContext ctx driverMac containersMap; seen = List.map_filter ne_IP entries in
       bindP (foldP (arp_entry_step e ctx driverMac containersMap host driverContext) entries None) (\<lambda>err1.
       bindP (range_keys e containersMap) (\<lambda>ips.
       bindP (foldP (arp_missing_step e ctx driverMac containersMap host driverContext (seen @ localIPs)) ips err1)
         raise_last))))"

section \<open>The watcher\<close>

record at_state = world +
  at_syncInterval :: int
  at_knownRouters :: "Container gomap"
  at_routerApplyTries :: int
  at_lastApplied :: "int option"

definition at_DefaultSyncInterval :: int where "at_DefaultSyncInterval = 5"

definition at_Watch :: "string \<Rightarrow> ('a at_state_scheme, unit) proc" where
  "at_Watch syncIntervalStr =
     modifyP (\<lambda>s. s\<lparr>at_syncInterval := (case atoi syncIntervalStr of Some i \<Rightarrow> i | None \<Rightarrow> at_DefaultSyncInterval) * second,
       at_knownRouters := [], at_routerApplyTries := 0, at_lastApplied := None\<rparr>)"

text \<open>Counting how often a changed router was announced; the count is only logged.\<close>

definition count_router :: "string \<Rightarrow> string \<Rightarrow> ('a at_state_scheme, unit) proc" where
  "count_router uuid driverMac =
     bindP (getP (\<lambda>s. (ctr_PrimaryMacAddress (mget zero_Container (at_knownRouters s) uuid) \<noteq> driverMac, at_routerApplyTries s))) (\<lambda>(changed, tries).
       whenP (changed \<or> tries < 10) (modifyP (\<lambda>s. s\<lparr>at_routerApplyTries := (if changed then 0 else tries) + 1\<rparr>)))"

definition at_network_step :: "env \<Rightarrow> Host \<Rightarrow> Container list \<Rightarrow> Container gomap \<Rightarrow> Network \<Rightarrow> gerr option \<Rightarrow>
    ('a at_state_scheme, gerr option) proc" where
  "at_network_step e host containers routers localNetwork lastError =
     (let router = mget zero_Container routers (net_UUID localNetwork); driverMac = ctr_PrimaryMacAddress router;
          containersMap = buildContainersMap containers localNetwork
      in if mget [] (ctr_Labels router) syncLabel \<noteq> ''true'' \<or> driverMac = [] then retP lastError
         else
           bindP (keep_error (syncArpTable e ''host'' driverMac containersMap host) lastError) (\<lambda>err1.
           bindP (count_router (net_UUID localNetwork) driverMac) (\<lambda>_.
             keep_error (ForEachContainerNS e (net_UUID localNetwork)
               (\<lambda>c. syncArpTable e (ctr_ExternalId c) driverMac containersMap host)) err1)))"

definition at_doSync :: "env \<Rightarrow> ('a at_state_scheme, unit) proc" where
  "at_doSync e =
     bindP (wrapP (Wrapf ''get local host: %w'' []) (LocalHost e)) (\<lambda>host.
     bindP (wrapP (Wrapf ''fetch containers from metadata: %w'' []) (getContainers e)) (\<lambda>containers.
     bindP (wrapP (Wrapf ''get local networks: %w'' []) (LocalNetworks e)) (\<lambda>(localNetworks, routers).
     bindP (foldP (at_network_step e host containers routers) localNetworks None) (\<lambda>lastError.
       case lastError of
         None \<Rightarrow> modifyP (\<lambda>s. s\<lparr>at_knownRouters := routers\<rparr>)
       | Some er \<Rightarrow> raiseP er))))"

definition at_onChangeNoError :: "env \<Rightarrow> ('a at_state_scheme, unit) proc" where
  "at_onChangeNoError e =
     bindP (getP (\<lambda>s. (at_lastApplied s, at_syncInterval s))) (\<lambda>(lastApplied, interval).
     bindP (pause e interval lastApplied) (\<lambda>_.
     bindP (ignoring (at_doSync e)) (\<lambda>_.
     bindP (time_Now e) (\<lambda>now. modifyP (\<lambda>s. s\<lparr>at_lastApplied := Some now\<rparr>)))))"

section \<open>Properties\<close>

text \<open>A container of the network, with an address, at an entry's address.\<close>

definition owns_entry :: "Network \<Rightarrow> Container \<Rightarrow> neigh \<Rightarrow> bool" where
  "owns_entry network c n \<longleftrightarrow> ctr_NetworkUUID c = net_UUID network \<and> ctr_PrimaryMacAddress c \<noteq> []
     \<and> (ne_IP n = Some (ctr_PrimaryIp c) \<or> ne_IP n = ParseIP (ctr_PrimaryIp c))"

text \<open>What may be written in a context: the own address of a container on this host, the router's address for any
  other one - but not in the router itself, where an entry with the router's address is deleted.\<close>

definition arp_call :: "Container list \<Rightarrow> Network \<Rightarrow> Host \<Rightarrow> string \<Rightarrow> string \<Rightarrow> call \<Rightarrow> bool" where
  "arp_call cs network host driverMac ctx call' \<longleftrightarrow>
     (\<exists>c \<in> set cs. \<exists>n. owns_entry network c n
        \<and> (call' = NeighSet n \<and> ne_State n = arpEntryState ctx
             \<and> (ctr_HostUUID c = host_UUID host \<and> parse_mac (ctr_PrimaryMacAddress c) = Some (ne_HardwareAddr n)
               \<or> ctr_HostUUID c \<noteq> host_UUID host \<and> parse_mac driverMac = Some (ne_HardwareAddr n)
                 \<and> \<not> isNetworkDriverContext ctx driverMac (buildContainersMap cs network))
           \<or> call' = NeighDel n \<and> ctr_HostUUID c \<noteq> host_UUID host \<and> ne_HardwareAddr n = driverMac
             \<and> isNetworkDriverContext ctx driverMac (buildContainersMap cs network)))"

lemma map_in:
  "map_of (buildContainersMap cs network) ip = Some c \<Longrightarrow>
    c \<in> set cs \<and> ctr_PrimaryIp c = ip \<and> ctr_PrimaryMacAddress c \<noteq> [] \<and> ctr_NetworkUUID c = net_UUID network"
proof (induction cs arbitrary: ip rule: rev_induct)
  case (snoc x xs)
  then show ?case by (auto simp: buildContainersMap_def update_conv split: if_splits)
qed (simp add: buildContainersMap_def)

lemma emits_keep [emits_rules]: "emits C m \<Longrightarrow> emits C (keep_error m x)"
  unfolding keep_error_def by (intro emits_rules)

lemma emits_raise_last [emits_rules]: "emits C (raise_last x)"
  unfolding raise_last_def by (intro emits_rules)

lemma ParseMAC_Inr: "ParseMAC s = Inr t \<Longrightarrow> parse_mac s = Some t"
  by (simp add: ParseMAC_def split: option.splits)

lemma emits_lift_bind: "(\<And>x. r = Inr x \<Longrightarrow> emits C (f x)) \<Longrightarrow> emits C (bindP (liftP r) f)"
  by (cases r) (auto simp: emits_def bindP_def liftP_def since_def)

lemma emits_fix:
  assumes "\<And>hw. parse_mac mac = Some hw \<Longrightarrow> C (NeighSet (entry\<lparr>ne_HardwareAddr := hw, ne_State := arpEntryState ctx\<rparr>))"
  shows "emits C (fixARPEntry e ctx entry mac)"
  unfolding fixARPEntry_def using assms by (intro emits_lift_bind emits_rules) (blast dest: ParseMAC_Inr)

lemma emits_add:
  assumes "\<And>ip' hw link. ParseIP ip = Some ip' \<Longrightarrow> parse_mac mac = Some hw \<Longrightarrow>
      C (NeighSet \<lparr>ne_LinkIndex = link, ne_IP = Some ip', ne_HardwareAddr = hw, ne_State = arpEntryState ctx\<rparr>)"
    and "\<And>ip'. C (RouteGet ip')"
  shows "emits C (addARPEntry e ctx ip mac)"
proof (cases "ParseIP ip")
  case None
  show ?thesis unfolding addARPEntry_def None option.case by (rule emits_rules)
next
  case (Some ip')
  have "emits C (bindP (ask e (RouteGet ip') g) (\<lambda>routes. case routes of [] \<Rightarrow> raiseP er
      | link # _ \<Rightarrow> perform e (NeighSet \<lparr>ne_LinkIndex = link, ne_IP = Some ip', ne_HardwareAddr = hw, ne_State = arpEntryState ctx\<rparr>)))"
    if "ParseMAC mac = Inr hw" for hw g er
    by (rule emits_bind [OF emits_basic(7) [of C "RouteGet ip'", OF assms(2)]])
      (auto split: list.split intro: emits_basic(2) emits_basic(5) [of C, OF assms(1) [OF Some ParseMAC_Inr [OF that]]])
  then show ?thesis unfolding addARPEntry_def Some option.case by (rule emits_lift_bind)
qed

lemma emits_local_ips: "C HostLinks \<Longrightarrow> (\<And>l. C (HostAddrs l)) \<Longrightarrow> emits C (localInterfaceIPs e)"
  unfolding localInterfaceIPs_def link_ips_def by (intro emits_rules)

definition arp_ok :: "Container list \<Rightarrow> Network \<Rightarrow> Host \<Rightarrow> string \<Rightarrow> string \<Rightarrow> call \<Rightarrow> bool" where
  "arp_ok cs network host driverMac ctx call' \<longleftrightarrow> reads_only call' \<or> arp_call cs network host driverMac ctx call'"

lemma emits_range_fold:
  assumes "\<And>x acc. x \<in> fst ` set m \<Longrightarrow> emits C (f x acc)" and "\<And>acc. emits C (g acc)"
  shows "emits C (bindP (range_keys e m) (\<lambda>ks. bindP (foldP f ks init) g))"
proof -
  have fold: "emits C (foldP f ks acc)" if "set ks \<subseteq> fst ` set m" for ks acc
    using that assms(1) by (induction ks arbitrary: acc) (auto intro!: emits_basic(1) emits_bind)
  have "only_since (trace s) C s'" if run: "bindP (range_keys e m) (\<lambda>ks. bindP (foldP f ks init) g) s = (q, s')" for s q s'
  proof -
    obtain ks where ks: "range_keys e m s = (Inr ks, s)" "set ks = fst ` set m"
      using range_keys_set [of e m s] by (metis prod.collapse)
    have "emits C (bindP (foldP f ks init) g)" by (rule emits_bind [OF fold assms(2)]) (simp add: ks(2))
    from emitsD [OF this] show ?thesis using run ks(1) by (simp add: bindP_def)
  qed
  then show ?thesis by (simp add: emits_def)
qed

lemma emits_sync:
  "emits (arp_ok cs network host driverMac ctx) (syncArpTable e ctx driverMac (buildContainersMap cs network) host)"
proof -
  let ?C = "arp_ok cs network host driverMac ctx"
  let ?m = "buildContainersMap cs network" and ?d = "isNetworkDriverContext ctx driverMac (buildContainersMap cs network)"
  have r: "?C c" if "reads_only c" for c using that by (simp add: arp_ok_def)
  have entry: "emits ?C (arp_entry_step e ctx driverMac ?m host ?d n err)" for n err
  proof (cases "ne_IP n")
    case None
    then show ?thesis by (simp add: arp_entry_step_def emits_basic(1))
  next
    case (Some ip)
    show ?thesis
    proof (cases "map_of ?m ip")
      case None
      then show ?thesis using Some by (simp add: arp_entry_step_def emits_basic(1))
    next
      case c: (Some c)
      note in_cs = map_in [OF c]
      have own: "owns_entry network c n" "owns_entry network c (n\<lparr>ne_HardwareAddr := hw, ne_State := st\<rparr>)" for hw st
        using in_cs Some by (simp_all add: owns_entry_def)
      show ?thesis
      proof (cases "expectedARPEntry driverMac c host ?d")
        case None
        then have "ctr_HostUUID c \<noteq> host_UUID host" ?d by (auto simp: expectedARPEntry_def split: if_splits)
        then have "?C (NeighDel n)" if "ne_HardwareAddr n = driverMac"
          using that in_cs own(1) unfolding arp_ok_def arp_call_def by blast
        then show ?thesis
          by (auto simp: arp_entry_step_def Some c None deleteARPEntry_def intro!: emits_keep emits_basic(1) emits_basic(5))
      next
        case x: (Some x)
        have "?C (NeighSet (n\<lparr>ne_HardwareAddr := hw, ne_State := arpEntryState ctx\<rparr>))" if "parse_mac x = Some hw" for hw
        proof -
          have "ctr_HostUUID c = host_UUID host \<and> x = ctr_PrimaryMacAddress c \<or> ctr_HostUUID c \<noteq> host_UUID host \<and> x = driverMac \<and> \<not> ?d"
            using x by (auto simp: expectedARPEntry_def split: if_splits)
          then have "arp_call cs network host driverMac ctx (NeighSet (n\<lparr>ne_HardwareAddr := hw, ne_State := arpEntryState ctx\<rparr>))"
            unfolding arp_call_def using in_cs own(2) that
            by (intro bexI [of _ c] exI [of _ "n\<lparr>ne_HardwareAddr := hw, ne_State := arpEntryState ctx\<rparr>"]) auto
          then show ?thesis by (simp add: arp_ok_def)
        qed
        then show ?thesis
          by (auto simp: arp_entry_step_def Some c x intro!: emits_keep emits_basic(1) emits_fix)
      qed
    qed
  qed
  have missing: "emits ?C (arp_missing_step e ctx driverMac ?m host ?d skip ip err)" if ip: "ip \<in> fst ` set ?m" for skip ip err
  proof -
    obtain c where c: "map_of ?m ip = Some c" using ip by (cases "map_of ?m ip") (auto simp: map_of_eq_None_iff)
    note in_cs = map_in [OF c]
    have "?C (NeighSet \<lparr>ne_LinkIndex = link, ne_IP = Some ip', ne_HardwareAddr = hw, ne_State = arpEntryState ctx\<rparr>)"
      if "ParseIP ip = Some ip'" "expectedARPEntry driverMac c host ?d = Some x" "parse_mac x = Some hw" for x ip' hw link
    proof -
      let ?n = "\<lparr>ne_LinkIndex = link, ne_IP = Some ip', ne_HardwareAddr = hw, ne_State = arpEntryState ctx\<rparr>"
      have "ctr_HostUUID c = host_UUID host \<and> x = ctr_PrimaryMacAddress c \<or> ctr_HostUUID c \<noteq> host_UUID host \<and> x = driverMac \<and> \<not> ?d"
        using that(2) by (auto simp: expectedARPEntry_def split: if_splits)
      moreover have "owns_entry network c ?n" using in_cs that(1) by (simp add: owns_entry_def)
      ultimately have "arp_call cs network host driverMac ctx (NeighSet ?n)"
        unfolding arp_call_def using in_cs that(3) by (intro bexI [of _ c] exI [of _ ?n]) auto
      then show ?thesis by (simp add: arp_ok_def)
    qed
    then have fact: "?C (NeighSet \<lparr>ne_LinkIndex = link, ne_IP = Some ip', ne_HardwareAddr = hw, ne_State = arpEntryState ctx\<rparr>)"
      if "expectedARPEntry driverMac c host ?d = Some x" "ParseIP ip = Some ip'" "parse_mac x = Some hw" for x ip' hw link
      using that by blast
    have found: "mget zero_Container ?m ip = c" by (simp add: mget_def c)
    show ?thesis
    proof (cases "ip \<in> set skip")
      case True
      then show ?thesis by (simp add: arp_missing_step_def emits_basic(1))
    next
      case False
      show ?thesis
      proof (cases "expectedARPEntry driverMac c host ?d")
        case None
        then show ?thesis using False by (simp add: arp_missing_step_def found emits_basic(1))
      next
        case (Some x)
        have "emits ?C (addARPEntry e ctx ip x)" by (rule emits_add, rule fact [OF Some], assumption, assumption, rule r, simp)
        then have "emits ?C (keep_error (addARPEntry e ctx ip x) err)" by (rule emits_keep)
        then show ?thesis using False Some by (simp add: arp_missing_step_def found)
      qed
    qed
  qed
  note rest = emits_range_fold [OF missing]
  show ?thesis unfolding syncArpTable_def Let_def
    by (intro emits_bind [OF emits_basic(7)] emits_bind [OF emits_local_ips] emits_bind [OF emits_fold [OF entry]] rest emits_raise_last r) simp_all
qed

section \<open>A whole round\<close>

text \<open>The router of a network: the container of a primary network driver on this host, with the label.\<close>

definition router_of :: "Service list \<Rightarrow> string \<Rightarrow> Network \<Rightarrow> string \<Rightarrow> bool" where
  "router_of services hostUUID network mac \<longleftrightarrow>
     (\<exists>svc \<in> set services. is_primary_driver svc \<and> (\<exists>c \<in> set (svc_Containers svc). ctr_HostUUID c = hostUUID
        \<and> ctr_NetworkUUID c = net_UUID network \<and> mget [] (ctr_Labels c) syncLabel = ''true'' \<and> ctr_PrimaryMacAddress c = mac))"

lemma routers_in_containers:
  assumes "map_of (fold (local_router hostUUID) cs m) u = Some c"
  shows "map_of m u = Some c \<or> c \<in> set cs \<and> ctr_HostUUID c = hostUUID \<and> ctr_NetworkUUID c = u"
  using assms
proof (induction cs arbitrary: m)
  case (Cons x xs)
  from Cons.IH [of "local_router hostUUID x m"] Cons.prems
  have "map_of (local_router hostUUID x m) u = Some c \<or> c \<in> set xs \<and> ctr_HostUUID c = hostUUID \<and> ctr_NetworkUUID c = u"
    by simp
  then show ?case by (auto simp: local_router_def update_conv split: if_splits)
qed simp

lemma routers_in:
  assumes "map_of (local_routers hostUUID services) u = Some c"
  shows "\<exists>svc \<in> set services. is_primary_driver svc \<and> c \<in> set (svc_Containers svc) \<and> ctr_HostUUID c = hostUUID \<and> ctr_NetworkUUID c = u"
  using assms unfolding local_routers_def
proof (induction services rule: rev_induct)
  case (snoc svc services)
  then show ?case using routers_in_containers [of hostUUID "svc_Containers svc" _ u c] by (auto split: if_splits)
qed simp

lemma emits_enter: "(\<And>c. reads_only c \<Longrightarrow> C c) \<Longrightarrow> emits C f \<Longrightarrow> emits C (EnterNS e cid f)"
  unfolding EnterNS_def by (intro emits_rules) simp_all

lemma emits_visit: "(\<And>c. reads_only c \<Longrightarrow> C c) \<Longrightarrow> (\<And>c. emits C (f c)) \<Longrightarrow> emits C (ForEachContainerNS e u f)"
  unfolding ForEachContainerNS_def visit_def
  by (intro emits_rules emits_enter emits_calls [OF calls_mono [OF calls_LocalHostUUID]]) simp_all

text \<open>The calls of a round on a network: some context and the network's router.\<close>

definition round_ok :: "Container list \<Rightarrow> Host \<Rightarrow> Service list \<Rightarrow> string \<Rightarrow> call \<Rightarrow> bool" where
  "round_ok cs host services hostUUID call' \<longleftrightarrow> reads_only call'
     \<or> (\<exists>network driverMac ctx. router_of services hostUUID network driverMac \<and> arp_call cs network host driverMac ctx call')"

lemma emits_network_step:
  assumes "routers = local_routers hostUUID services"
  shows "emits (round_ok cs host services hostUUID) (at_network_step e host cs routers network err)"
proof -
  let ?C = "round_ok cs host services hostUUID"
  let ?router = "mget zero_Container routers (net_UUID network)"
  let ?mac = "ctr_PrimaryMacAddress ?router"
  show ?thesis
  proof (cases "mget [] (ctr_Labels ?router) syncLabel \<noteq> ''true'' \<or> ?mac = []")
    case True
    then show ?thesis by (simp add: at_network_step_def Let_def emits_basic(1))
  next
    case False
    then have lab: "mget [] (ctr_Labels ?router) syncLabel = ''true''" "?mac \<noteq> []" by simp_all
    have "map_of routers (net_UUID network) \<noteq> None"
      using lab(2) by (auto simp: mget_def zero_Container_def split: option.splits)
    then obtain c where c: "map_of routers (net_UUID network) = Some c" by blast
    then have "?router = c" by (simp add: mget_def)
    then have router: "router_of services hostUUID network ?mac"
      using routers_in [OF c [unfolded assms]] lab(1) unfolding router_of_def by blast
    then have up: "?C x" if "arp_ok cs network host ?mac ctx x" for ctx x
      using that by (auto simp: round_ok_def arp_ok_def)
    have sync: "emits ?C (syncArpTable e ctx ?mac (buildContainersMap cs network) host)" for ctx
      using emits_sync [of cs network host ?mac ctx e] up [of ctx] by (fastforce simp: emits_def since_def)
    have reads: "?C x" if "reads_only x" for x using that by (simp add: round_ok_def)
    show ?thesis unfolding at_network_step_def Let_def count_router_def
      using sync by (intro emits_rules emits_visit reads) simp_all
  qed
qed


text \<open>A remote container without an entry on the host, whose network has a router here.\<close>

definition arp_services :: "Service list" where
  "arp_services = [zero_Service\<lparr>svc_Kind := ''networkDriverService'', svc_Name := ''n'', svc_PrimaryServiceName := ''n'',
     svc_Containers := [zero_Container\<lparr>ctr_HostUUID := ''h1'', ctr_NetworkUUID := ''n1'', ctr_ExternalId := ''r'',
       ctr_PrimaryMacAddress := ''02:00:00:00:00:01'', ctr_Labels := [(syncLabel, ''true'')]\<rparr>]\<rparr>]"

definition arp_remote :: "Container list" where
  "arp_remote = [zero_Container\<lparr>ctr_HostUUID := ''h2'', ctr_NetworkUUID := ''n1'', ctr_PrimaryIp := ''10.42.0.9'',
     ctr_PrimaryMacAddress := ''02:00:00:00:00:09''\<rparr>]"

definition arp_env :: env where
  "arp_env = quiet_env\<lparr>e_selfHost := \<lambda>_. zero_Host\<lparr>host_UUID := ''h1''\<rparr>, e_hosts := \<lambda>_. [zero_Host\<lparr>host_UUID := ''h1''\<rparr>],
     e_networks := \<lambda>_. [zero_Network\<lparr>net_UUID := ''n1''\<rparr>], e_services := \<lambda>_. arp_services,
     e_containers := \<lambda>_. arp_remote, e_neigh := \<lambda>_. [], e_hostlinks := \<lambda>_. 0, e_routes := \<lambda>_ _. [7]\<rparr>"

definition arp_start :: at_state where
  "arp_start = \<lparr>trace = [], files = (\<lambda>_. None), at_syncInterval = 5, at_knownRouters = [], at_routerApplyTries = 0,
     at_lastApplied = None\<rparr>"

definition arp_states :: "at_state list" where
  "arp_states = (let s1 = snd (LocalHost arp_env arp_start); s2 = snd (getContainers arp_env s1);
     s3 = snd (getNetworks arp_env s2); s4 = snd (LocalHostUUID arp_env s3) in [s1, s2, s3, s4, snd (getServices arp_env s4)])"

definition arp_new :: neigh where
  "arp_new = \<lparr>ne_LinkIndex = 7, ne_IP = Some ''10.42.0.9'', ne_HardwareAddr = ''02:00:00:00:00:01'', ne_State = 2\<rparr>"

lemma arp_runs:
  "fst (LocalHost arp_env arp_start) = Inr (zero_Host\<lparr>host_UUID := ''h1''\<rparr>)"
  "fst (getContainers arp_env (arp_states ! 0)) = Inr arp_remote"
  "fst (getNetworks arp_env (arp_states ! 1)) = Inr [zero_Network\<lparr>net_UUID := ''n1''\<rparr>]"
  "fst (LocalHostUUID arp_env (arp_states ! 2)) = Inr ''h1''"
  "fst (getServices arp_env (arp_states ! 3)) = Inr arp_services"
  "list_ex ((=) (NeighSet arp_new)) (calls_of (trace (snd (at_doSync arp_env arp_start))))"
  "\<not> list_ex ((=) (NeighSet arp_new)) (calls_of (trace (arp_states ! 4)))"
  by code_simp+


end
