(* ===== verification/LinkSync.thy ===== *)
theory LinkSync
  imports ArpSync
begin

text \<open>
  Two small watchers.  \<open>src/macsync/macsync.go\<close> gives the interface of every container on a network with the
  macsync label the hardware address the metadata service has for it, until that was possible once and then
  a fixed number of rounds more.  \<open>src/routesync/watcher.go\<close> keeps a host route to the metadata address on
  Docker's bridge.
\<close>

section \<open>Hardware addresses of containers\<close>

definition ms_syncLabel :: string where "ms_syncLabel = ''io.rancher.network.macsync''"
definition ms_syncInterval :: int where "ms_syncInterval = 15 * second"
definition ms_N :: nat where "ms_N = 8"

definition ms_container :: "env \<Rightarrow> Container \<Rightarrow> ('a world_scheme, unit) proc" where
  "ms_container e c =
     bindP (ask e (LinkByName ''eth0'') (\<lambda>s. e_link e (trace s) ''eth0'')) (\<lambda>(_, foundMAC).
       if equal_fold (ctr_PrimaryMacAddress c) foundMAC then retP ()
       else
         bindP (wrapP (Wrapf ''failed to parse MAC address: %v'' []) (liftP (ParseMAC (ctr_PrimaryMacAddress c)))) (\<lambda>hwaddr.
           wrapP (Wrapf ''failed to set hw address of interface: %v'' []) (perform e (LinkSetMAC ''eth0'' hwaddr))))"

text \<open>Whether there was a network to work on, and the last error.\<close>

definition ms_network_step :: "env \<Rightarrow> Container gomap \<Rightarrow> Network \<Rightarrow> bool \<times> gerr option \<Rightarrow> ('a world_scheme, bool \<times> gerr option) proc" where
  "ms_network_step e routers n acc =
     (if mget [] (ctr_Labels (mget zero_Container routers (net_UUID n))) ms_syncLabel \<noteq> ''true'' then retP acc
      else bindP (keep_error (ForEachContainerNS e (net_UUID n) (ms_container e)) (snd acc)) (\<lambda>err. retP (True, err)))"

text \<open>The caller looks at the flag only when there is no error.\<close>

definition ms_doSync :: "env \<Rightarrow> ('a world_scheme, bool) proc" where
  "ms_doSync e =
     bindP (wrapP (Wrapf ''get local networks: %w'' []) (LocalNetworks e)) (\<lambda>(networks, routers).
     bindP (foldP (ms_network_step e routers) networks (False, None)) (\<lambda>(didSomething, lastError).
     bindP (raise_last lastError) (\<lambda>_. retP didSomething)))"

text \<open>The first loop may run forever: then it has no result.\<close>

definition ms_again :: "env \<Rightarrow> 'a world_scheme \<Rightarrow> 'a world_scheme" where
  "ms_again e s = snd (time_Sleep ms_syncInterval (snd (ms_doSync e s)))"

partial_function (option) ms_first :: "env \<Rightarrow> 'a world_scheme \<Rightarrow> 'a world_scheme option" where
  "ms_first e s = (if fst (ms_doSync e s) = Inr True then Some (snd (ms_doSync e s)) else ms_first e (ms_again e s))"

definition ms_round :: "env \<Rightarrow> ('a world_scheme, unit) proc" where
  "ms_round e = bindP (time_Sleep ms_syncInterval) (\<lambda>_. ignoring (ms_doSync e))"

definition ms_syncNTimes :: "env \<Rightarrow> 'a world_scheme \<Rightarrow> 'a world_scheme option" where
  "ms_syncNTimes e s =
     (case ms_first e s of None \<Rightarrow> None | Some t \<Rightarrow> Some (snd (forP (\<lambda>_. ms_round e) [0..<ms_N] t)))"

section \<open>The route to the metadata service\<close>

definition rs_DefaultSyncInterval :: int where "rs_DefaultSyncInterval = 60"

definition conditionsMetToWatch :: "string \<Rightarrow> string \<Rightarrow> bool \<times> string \<times> string" where
  "conditionsMetToWatch dockerBridge metadataIP = (dockerBridge \<noteq> [] \<and> metadataIP \<noteq> [], dockerBridge, metadataIP)"

text \<open>\<open>netlink.ParseIPNet(metadataIP + "/32")\<close>: with the mask given, only the address is left to parse; a slash in it
  makes the mask invalid.  An EEXIST error reads \<open>file exists\<close>.  The destinations of two routes are compared as
  pointers, which are never equal, so the links decide.  An empty answer makes the code panic and the model fail.\<close>

definition route_dst :: "string \<Rightarrow> string result" where
  "route_dst metadataIP =
     (case ParseIP metadataIP of None \<Rightarrow> Inl (EnvErr ''invalid CIDR address'') | Some ip \<Rightarrow> Inr (ip @ ''/32''))"

definition addRouteToMetadataIP :: "env \<Rightarrow> string \<Rightarrow> string \<Rightarrow> ('a world_scheme, unit) proc" where
  "addRouteToMetadataIP e bridgeName metadataIP =
     bindP (ask e (LinkByName bridgeName) (\<lambda>s. e_link e (trace s) bridgeName)) (\<lambda>(index, _).
     bindP (liftP (route_dst metadataIP)) (\<lambda>dst.
     bindP (tryP (perform e (RouteAdd dst index))) (\<lambda>r.
       case r of
         Inr _ \<Rightarrow> retP ()
       | Inl er \<Rightarrow>
           if er \<noteq> EnvErr ''file exists'' then raiseP er
           else
             bindP (ask e (RouteGet metadataIP) (\<lambda>s. e_routes e (trace s) metadataIP)) (\<lambda>existing.
               case existing of
                 [] \<Rightarrow> raiseP (EnvErr ''index out of range'')
               | link # _ \<Rightarrow>
                   if link \<noteq> index then raiseP (Errorf ''conflicting routes to metadata IP(%v)'' [metadataIP]) else retP ()))))"

definition rs_round :: "env \<Rightarrow> string \<Rightarrow> string \<Rightarrow> int \<Rightarrow> ('a world_scheme, unit) proc" where
  "rs_round e bridgeName metadataIP syncInterval =
     bindP (time_Sleep (syncInterval * second)) (\<lambda>_. ignoring (addRouteToMetadataIP e bridgeName metadataIP))"

text \<open>\<open>doRouteSync\<close> never returns: its first \<open>n\<close> rounds.\<close>

definition doRouteSync :: "env \<Rightarrow> string \<Rightarrow> string \<Rightarrow> int \<Rightarrow> nat \<Rightarrow> ('a world_scheme, unit) proc" where
  "doRouteSync e bridgeName metadataIP syncInterval n = forP (\<lambda>_. rs_round e bridgeName metadataIP syncInterval) [0..<n]"

text \<open>The result tells whether the goroutine was started, and with which interval.\<close>

definition rs_Watch :: "env \<Rightarrow> string \<Rightarrow> string \<Rightarrow> string \<Rightarrow> ('a world_scheme, int option) proc" where
  "rs_Watch e dockerBridge metadataIPEnv syncIntervalStr =
     (let syncInterval = (case atoi syncIntervalStr of Some i \<Rightarrow> i | None \<Rightarrow> rs_DefaultSyncInterval) in
      case conditionsMetToWatch dockerBridge metadataIPEnv of
        (conditionsMet, bridgeName, metadataIP) \<Rightarrow>
          if \<not> conditionsMet then retP None
          else bindP (addRouteToMetadataIP e bridgeName metadataIP) (\<lambda>_. retP (Some syncInterval)))"

section \<open>Properties\<close>

text \<open>The attempts of the first loop.\<close>

definition ms_attempt :: "env \<Rightarrow> 'a world_scheme \<Rightarrow> nat \<Rightarrow> bool result \<times> 'a world_scheme" where
  "ms_attempt e s n = ms_doSync e ((ms_again e ^^ n) s)"

lemma ms_first_none:
  fixes s :: "'a world_scheme"
  assumes "\<And>n. fst (ms_attempt e s n) \<noteq> Inr True"
  shows "ms_first e s = None"
proof (rule ccontr)
  assume "ms_first e s \<noteq> None"
  then obtain t where t: "ms_first e s = Some t" by blast
  have "\<exists>n. fst (ms_attempt e s n) = Inr True" if "ms_first e s = Some t" for t
  proof (rule ms_first.raw_induct [where P = "\<lambda>e s t. \<exists>n. fst (ms_attempt e s n) = Inr True", OF _ that])
    fix first :: "env \<Rightarrow> 'a world_scheme \<Rightarrow> 'a world_scheme option" and e' :: env and s' t' :: "'a world_scheme"
    assume ih: "\<And>e s t. first e s = Some t \<Longrightarrow> \<exists>n. fst (ms_attempt e s n) = Inr True"
      and eq: "(if fst (ms_doSync e' s') = Inr True then Some (snd (ms_doSync e' s')) else first e' (ms_again e' s')) = Some t'"
    show "\<exists>n. fst (ms_attempt e' s' n) = Inr True"
    proof (cases "fst (ms_doSync e' s') = Inr True")
      case True
      then show ?thesis by (intro exI [of _ 0]) (simp add: ms_attempt_def)
    next
      case False
      then have "first e' (ms_again e' s') = Some t'" using eq by simp
      from ih [OF this] obtain n where "fst (ms_attempt e' (ms_again e' s') n) = Inr True" by (rule exE)
      then show ?thesis by (intro exI [of _ "Suc n"]) (simp add: ms_attempt_def funpow_swap1)
    qed
  qed
  from this [OF t] show False using assms by blast
qed

lemma ms_first_some:
  assumes "fst (ms_attempt e s n) = Inr True" and "\<And>k. k < n \<Longrightarrow> fst (ms_attempt e s k) \<noteq> Inr True"
  shows "ms_first e s = Some (snd (ms_attempt e s n))"
  using assms
proof (induction n arbitrary: s)
  case 0
  then show ?case by (subst ms_first.simps) (simp add: ms_attempt_def)
next
  case (Suc n)
  have "fst (ms_doSync e s) \<noteq> Inr True" using Suc.prems(2) [of 0] by (simp add: ms_attempt_def)
  then have "ms_first e s = ms_first e (ms_again e s)" by (subst ms_first.simps) simp
  also have "\<dots> = Some (snd (ms_attempt e (ms_again e s) n))"
  proof (rule Suc.IH)
    show "fst (ms_attempt e (ms_again e s) n) = Inr True" using Suc.prems(1) by (simp add: ms_attempt_def funpow_swap1)
    show "fst (ms_attempt e (ms_again e s) k) \<noteq> Inr True" if "k < n" for k
      using Suc.prems(2) [of "Suc k"] that by (simp add: ms_attempt_def funpow_swap1)
  qed
  finally show ?case by (simp add: ms_attempt_def funpow_swap1)
qed

text \<open>The hardware address synchronisation ends exactly when some attempt finds a labelled network and no error -
  with the first such attempt followed by eight rounds - and goes on forever otherwise.\<close>

theorem mac_sync_returns:
  "ms_syncNTimes e s =
     (if \<exists>n. fst (ms_attempt e s n) = Inr True
      then Some (snd (forP (\<lambda>_. ms_round e) [0..<ms_N] (snd (ms_attempt e s (LEAST n. fst (ms_attempt e s n) = Inr True)))))
      else None)"
proof (cases "\<exists>n. fst (ms_attempt e s n) = Inr True")
  case True
  then have "ms_first e s = Some (snd (ms_attempt e s (LEAST n. fst (ms_attempt e s n) = Inr True)))"
    by (intro ms_first_some) (auto intro: LeastI_ex dest: not_less_Least)
  then show ?thesis using True by (simp add: ms_syncNTimes_def)
next
  case False
  then have "ms_first e s = None" by (intro ms_first_none) blast
  then show ?thesis using False by (simp add: ms_syncNTimes_def)
qed

end
