(* ===== verification/ResolvConf.thy ===== *)
theory ResolvConf
  imports NetLocal Locks
begin

text \<open>
  The handler of start events (\<open>src/events/start_handler.go\<close>): the resolver configuration of a container on a
  managed network gets the metadata name server as its only active one and the container's search domains.
\<close>

section \<open>Search domains\<close>

definition MetadataNameserver :: string where "MetadataNameserver = ''169.254.169.250''"
definition PlatformDomain :: string where "PlatformDomain = ''pasture.internal''"
definition LegacyDNSLabel :: string where "LegacyDNSLabel = ''io.rancher.container.dns''"
definition LegacyDNSPriorityLabel :: string where "LegacyDNSPriorityLabel = ''io.rancher.container.dns.priority''"
definition LegacyNetworkLabel :: string where "LegacyNetworkLabel = ''io.rancher.container.network''"

text \<open>The namespaces of the service and of the stack, from the label of upgraded systems.\<close>

definition name_spaces :: "string gomap \<Rightarrow> (string \<times> string) option" where
  "name_spaces labels =
     (case map_of labels ''io.rancher.stack_service.name'' of
        None \<Rightarrow> None
      | Some v \<Rightarrow>
          (case str_index v ''/'' of
             None \<Rightarrow> None
           | Some i \<Rightarrow>
               let stack = take i v; svc = drop (Suc i) v in
               if stack \<noteq> [] \<and> svc \<noteq> []
               then Some (to_lower svc @ ''.'' @ to_lower stack @ ''.'' @ PlatformDomain, to_lower stack @ ''.'' @ PlatformDomain)
               else None))"

definition getDNSSearch :: "string gomap \<Rightarrow> string list \<Rightarrow> string list" where
  "getDNSSearch labels dnsSearch =
     (case name_spaces labels of
        None \<Rightarrow> filter (\<lambda>d. d \<noteq> []) dnsSearch
      | Some (svc, stack) \<Rightarrow> [svc, stack] @ filter (\<lambda>d. d \<noteq> svc \<and> d \<noteq> stack) dnsSearch)
     @ [PlatformDomain]"

section \<open>The file\<close>

text \<open>The lines \<open>bufio.Scanner\<close> yields: without the line feed and a carriage return before it, none after a final
  line feed.  A line of 64 KiB or more stops it with an error.\<close>

definition drop_cr :: "string \<Rightarrow> string" where
  "drop_cr l = (if l \<noteq> [] \<and> last l = CHR 0x0D then butlast l else l)"

definition scan_lines :: "string \<Rightarrow> string list" where
  "scan_lines s = (let ls = str_lines s in map drop_cr (if last ls = [] then butlast ls else ls))"

definition scan_too_long :: "string \<Rightarrow> bool" where
  "scan_too_long s \<longleftrightarrow> list_ex (\<lambda>l. 65536 \<le> int (length l)) (str_lines s)"

text \<open>\<open>strings.Replace(s, old, new, 1)\<close>.\<close>

definition str_replace1 :: "string \<Rightarrow> string \<Rightarrow> string \<Rightarrow> string" where
  "str_replace1 s old new =
     (case str_index s old of None \<Rightarrow> s | Some i \<Rightarrow> take i s @ new @ drop (i + length old) s)"

definition resolv_nameserver :: "string \<Rightarrow> string" where
  "resolv_nameserver line =
     (if str_contains line MetadataNameserver then line
      else if has_prefix line ''nameserver'' then ''# '' @ line else line)"

definition resolv_search :: "string list \<Rightarrow> bool \<Rightarrow> string \<Rightarrow> string" where
  "resolv_search domains serviceLast line =
     (if \<not> has_prefix line ''search'' then line
      else
        let domainsToBeAdded = filter (\<lambda>d. \<not> str_contains line ('' '' @ d)) domains in
        if serviceLast then line @ '' '' @ str_join '' '' domainsToBeAdded
        else str_replace1 line ''search'' (''search '' @ str_join '' '' domainsToBeAdded))"

definition resolv_line :: "string list \<Rightarrow> bool \<Rightarrow> string \<Rightarrow> string" where
  "resolv_line domains serviceLast line = resolv_search domains serviceLast (resolv_nameserver line)"

definition resolv_lines :: "string list \<Rightarrow> bool \<Rightarrow> string list \<Rightarrow> string list" where
  "resolv_lines domains serviceLast ls =
     (let searchSet = list_ex (\<lambda>l. has_prefix (resolv_nameserver l) ''search'') ls;
          nameserverSet = list_ex (\<lambda>l. str_contains l MetadataNameserver) ls
      in map (resolv_line domains serviceLast) ls
         @ (if searchSet then [] else [''search '' @ to_lower (str_join '' '' domains)])
         @ (if nameserverSet then [] else [''nameserver '' @ MetadataNameserver]))"

definition unlines :: "string list \<Rightarrow> string" where
  "unlines ls = concat (map (\<lambda>l. l @ nl) ls)"

text \<open>Docker reports a configuration and a host configuration; without one the code panics and the model fails.\<close>

definition setupResolvConf :: "env \<Rightarrow> DockerContainer \<Rightarrow> ('a world_scheme, unit) proc" where
  "setupResolvConf e c =
     (if dk_ResolvConfPath c = ''/etc/resolv.conf'' then retP ()
      else
        bindP (os_ReadFile e (dk_ResolvConfPath c)) (\<lambda>input.
          case (dk_Labels c, dk_HostConfig c) of
            (Some labels, Some (_, dnsSearch)) \<Rightarrow>
              if scan_too_long input then raiseP (EnvErr ''bufio.Scanner: token too long'')
              else
                perform e (WriteFile (dk_ResolvConfPath c)
                  (unlines (resolv_lines (getDNSSearch labels dnsSearch) (mget [] labels LegacyDNSPriorityLabel = ''service_last'')
                    (scan_lines input))))
          | _ \<Rightarrow> raiseP (EnvErr ''nil container configuration'')))"

section \<open>The handler\<close>

definition wants_resolver :: "string gomap \<Rightarrow> bool" where
  "wants_resolver labels \<longleftrightarrow>
     mget [] labels LegacyDNSLabel \<noteq> ''false''
     \<and> (mget [] labels CNILabel \<noteq> [] \<or> mget [] labels LegacyDNSLabel = ''true'' \<or> mget [] labels LegacyNetworkLabel = ''true'')"

definition start_container :: "env \<Rightarrow> string \<Rightarrow> ('a world_scheme, unit) proc" where
  "start_container e containerID =
     bindP (dc_ContainerInspect e containerID) (\<lambda>c.
       case (dk_State c, dk_Labels c) of
         (Some (False, _), _) \<Rightarrow> retP ()
       | (Some (True, _), Some labels) \<Rightarrow> if wants_resolver labels then setupResolvConf e c else retP ()
       | _ \<Rightarrow> raiseP (EnvErr ''nil container state''))"

text \<open>The keys of \<open>trylock\<close> in use are part of the state.\<close>

record st_state = world +
  st_locks :: tl_state

definition st_Handle :: "env \<Rightarrow> docker_event \<Rightarrow> ('a st_state_scheme, unit) proc" where
  "st_Handle e event =
     (let containerID = de_ActorID event; key = ''start.'' @ containerID in
      bindP (getP (\<lambda>s. tl_lock key (st_locks s))) (\<lambda>(got, locks).
        if \<not> got then retP ()
        else
          bindP (modifyP (\<lambda>s. s\<lparr>st_locks := locks\<rparr>)) (\<lambda>_.
            finallyP (start_container e containerID) (modifyP (\<lambda>s. s\<lparr>st_locks := tl_unlock key (st_locks s)\<rparr>)))))"

section \<open>Properties\<close>

lemma contains_appendI: "str_contains a x \<Longrightarrow> str_contains (a @ b) x" "str_contains b x \<Longrightarrow> str_contains (a @ b) x"
  unfolding str_contains_iff by (metis append.assoc)+

lemma contains_joined: "d \<in> set ds \<Longrightarrow> str_contains ('' '' @ str_join '' '' ds) ('' '' @ d)"
proof (induction ds)
  case (Cons p ps)
  have front: "\<exists>r. str_join '' '' (p # ps) = p @ r" by (cases ps) simp_all
  show ?case
  proof (cases "d = p")
    case True
    then show ?thesis using front unfolding str_contains_iff by (metis append.assoc append_Nil)
  next
    case False
    then obtain q qs where qs: "ps = q # qs" "d \<in> set ps" using Cons.prems by (cases ps) auto
    have "str_contains (('' '' @ p) @ ('' '' @ str_join '' '' ps)) ('' '' @ d)"
      by (intro contains_appendI(2) Cons.IH qs(2))
    then show ?thesis by (simp add: qs(1))
  qed
qed simp

text \<open>Replacing the prefix \<open>search\<close>.\<close>

lemma replace_prefix:
  assumes "has_prefix line old" and "old \<noteq> []"
  shows "str_replace1 line old new = new @ drop (length old) line"
proof -
  have "str_index line old = Some 0" using assms by (cases line) (auto simp: has_prefix_def)
  then show ?thesis by (simp add: str_replace1_def)
qed

lemma search_line:
  assumes "has_prefix line ''search''"
  shows "has_prefix (resolv_search domains b line) ''search'' \<and> list_all (\<lambda>d. str_contains (resolv_search domains b line) ('' '' @ d)) domains"
proof -
  let ?add = "filter (\<lambda>d. \<not> str_contains line ('' '' @ d)) domains"
  obtain rest where rest: "line = ''search'' @ rest" using assms unfolding has_prefix_def prefix_def by blast
  have res: "resolv_search domains b line
      = (if b then line @ ('' '' @ str_join '' '' ?add) else ''search'' @ ('' '' @ str_join '' '' ?add) @ rest)"
    using assms by (simp add: resolv_search_def Let_def replace_prefix) (simp add: rest)
  have old: "str_contains rest ('' '' @ d)" if "str_contains line ('' '' @ d)" for d
    using that unfolding rest by (simp add: has_prefix_def)
  have "str_contains (resolv_search domains b line) ('' '' @ d)" if d: "d \<in> set domains" for d
  proof (cases "str_contains line ('' '' @ d)")
    case True
    then show ?thesis unfolding res using contains_appendI(1) [OF True]
      contains_appendI(2) [OF old [OF True], of "''search'' @ '' '' @ str_join '' '' ?add"] by simp
  next
    case False
    then have "str_contains ('' '' @ str_join '' '' ?add) ('' '' @ d)" using d by (intro contains_joined) simp
    note c = this
    show ?thesis
    proof (cases b)
      case True
      then show ?thesis unfolding res using contains_appendI(2) [OF c, of line] by simp
    next
      case False
      then show ?thesis unfolding res using contains_appendI(2) [OF contains_appendI(1) [OF c, of rest], of "''search''"] by simp
    qed
  qed
  moreover have "has_prefix (resolv_search domains b line) ''search''" unfolding res using rest by (simp add: has_prefix_def)
  ultimately show ?thesis by (simp add: list_all_iff)
qed

text \<open>A written line: no active name server but the metadata one, and no search line without the domains.\<close>

definition resolv_ok :: "string list \<Rightarrow> string \<Rightarrow> bool" where
  "resolv_ok domains l \<longleftrightarrow>
     (has_prefix l ''nameserver'' \<longrightarrow> str_contains l MetadataNameserver)
     \<and> (has_prefix l ''search'' \<longrightarrow> l = ''search '' @ to_lower (str_join '' '' domains) \<or> list_all (\<lambda>d. str_contains l ('' '' @ d)) domains)"

lemma line_ok: "resolv_ok domains (resolv_line domains b l)"
proof (cases "has_prefix (resolv_nameserver l) ''search''")
  case True
  then show ?thesis using search_line [OF True, of domains b]
    by (auto simp: resolv_ok_def resolv_line_def has_prefix_def prefix_def)
next
  case False
  then show ?thesis
    by (auto simp: resolv_ok_def resolv_line_def resolv_search_def resolv_nameserver_def) (simp_all add: has_prefix_def)
qed

lemma kept_search: "has_prefix (resolv_nameserver l) ''search'' \<Longrightarrow> has_prefix (resolv_line domains b l) ''search''"
  unfolding resolv_line_def by (rule conjunct1 [OF search_line])

lemma kept_nameserver:
  assumes "str_contains l MetadataNameserver"
  shows "str_contains (resolv_line domains b l) MetadataNameserver"
proof (cases "has_prefix l ''search''")
  case True
  then obtain rest where rest: "l = ''search'' @ rest" unfolding has_prefix_def prefix_def by blast
  have "str_contains rest MetadataNameserver" using assms unfolding rest by (simp add: has_prefix_def MetadataNameserver_def)
  then have "str_contains (x @ rest) MetadataNameserver" for x by (rule contains_appendI(2))
  from this [of "''search '' @ str_join '' '' (filter (\<lambda>d. \<not> str_contains l ('' '' @ d)) domains)"]
  show ?thesis using True assms contains_appendI(1) [OF assms]
    by (simp add: resolv_line_def resolv_nameserver_def resolv_search_def Let_def replace_prefix) (simp add: rest)
qed (use assms in \<open>simp add: resolv_line_def resolv_nameserver_def resolv_search_def\<close>)

lemma resolv_lines_ok:
  "list_all (resolv_ok domains) (resolv_lines domains b ls)"
  "list_ex (\<lambda>l. has_prefix l ''search'') (resolv_lines domains b ls)"
  "list_ex (\<lambda>l. str_contains l MetadataNameserver) (resolv_lines domains b ls)"
proof -
  show "list_all (resolv_ok domains) (resolv_lines domains b ls)"
    using line_ok [of domains b]
    by (auto simp: resolv_lines_def Let_def list_all_iff resolv_ok_def has_prefix_def MetadataNameserver_def)
  show "list_ex (\<lambda>l. has_prefix l ''search'') (resolv_lines domains b ls)"
    using kept_search [of _ domains b] by (auto simp: resolv_lines_def Let_def list_ex_iff has_prefix_def)
  show "list_ex (\<lambda>l. str_contains l MetadataNameserver) (resolv_lines domains b ls)"
    using kept_nameserver [of _ domains b] by (auto simp: resolv_lines_def Let_def list_ex_iff MetadataNameserver_def has_prefix_def)
qed


definition resolv_container :: DockerContainer where
  "resolv_container = zero_DockerContainer\<lparr>dk_Labels := Some [(''io.rancher.stack_service.name'', ''Shop/Web'')],
     dk_HostConfig := Some (''managed'', [''example.org'']), dk_ResolvConfPath := ''/r''\<rparr>"

definition resolv_start :: world where
  "resolv_start = \<lparr>trace = [], files = (\<lambda>_. None)(''/r'' \<mapsto> ''nameserver 8.8.8.8'' @ nl @ ''search example.org'' @ nl)\<rparr>"

lemma resolv_runs:
  "fst (setupResolvConf quiet_env resolv_container resolv_start) = Inr ()"
  "files (snd (setupResolvConf quiet_env resolv_container resolv_start)) ''/r'' = Some (unlines
     [''# nameserver 8.8.8.8'', ''search web.shop.pasture.internal shop.pasture.internal pasture.internal example.org'',
      ''nameserver 169.254.169.250''])"
  by code_simp+


text \<open>Setting it up again is not without effect: every event adds a blank after \<open>search\<close>; and a name server line
  that is commented out but has the metadata address keeps the active one from being written.\<close>

lemma resolv_again:
  "resolv_lines [''a''] False [''search a''] = [''search  a'', ''nameserver 169.254.169.250'']"
  "resolv_lines [''a''] False [''# nameserver 169.254.169.250'', ''search a''] = [''# nameserver 169.254.169.250'', ''search  a'']"
  by code_simp+

end
