(* ===== verification/EventRouter.thy ===== *)
theory EventRouter
  imports ResolvConf BinExec Parts
begin

text \<open>
  Docker events (\<open>src/events/entry.go\<close>, \<open>src/events/event_router.go\<close>,
  \<open>src/events/network_manager_handler.go\<close>).  The goroutine that reads Docker's stream and the one that replays
  the containers found at start-up hand their events to a fixed number of workers; a worker runs the
  handlers of its event one after the other.  A step of the router is one of these actions; the steps of the
  goroutines interleave in any order, and a handler runs in one step on the state the handlers share.
\<close>

section \<open>The handlers\<close>

record ev_state = world +
  ev_binaries :: "unit bx_state_ext"
  ev_starts :: "unit st_state_ext"
  ev_network :: "unit nm_state_ext"

datatype handler = BinaryWatcher | StartHandler | NetworkManagerHandler

fun Handle :: "env \<Rightarrow> net_lib \<Rightarrow> handler \<Rightarrow> docker_event \<Rightarrow> (ev_state, unit) proc" where
  "Handle e lib BinaryWatcher event = inside ev_binaries (\<lambda>p. ev_binaries_update (\<lambda>_. p)) (bx_Handle e (Some event))"
| "Handle e lib StartHandler event = inside ev_starts (\<lambda>p. ev_starts_update (\<lambda>_. p)) (st_Handle e event)"
| "Handle e lib NetworkManagerHandler event =
     inside ev_network (\<lambda>p. ev_network_update (\<lambda>_. p)) (Evaluate e lib (de_ActorID event))"

definition eventHandlers :: "string \<Rightarrow> handler list" where
  "eventHandlers action =
     (if action = ''start'' then [BinaryWatcher, StartHandler, NetworkManagerHandler]
      else if action = ''die'' then [BinaryWatcher, NetworkManagerHandler] else [])"

definition snapshot_event :: "string \<Rightarrow> docker_event" where
  "snapshot_event cid = \<lparr>de_Action = ''start'', de_ActorID = cid, de_Attributes = [(''source'', ''initial-container-snapshot'')]\<rparr>"

section \<open>The router\<close>

text \<open>The workers in the channel; the busy ones, each with the number of its event, the event and the handlers still
  to run; the containers still to be replayed; the event the stream's goroutine holds.  The events taken and
  the handlers that ran are recorded.\<close>

record router =
  rt_world :: ev_state
  rt_free :: nat
  rt_busy :: "(nat \<times> docker_event \<times> handler list) multiset"
  rt_snapshot :: "docker_event list"
  rt_stream :: "docker_event option"
  rt_open :: bool
  rt_cancelled :: bool
  rt_listed :: bool
  rt_taken :: "docker_event list"
  rt_log :: "(nat \<times> handler) list"

definition NewEventRouter :: "nat \<Rightarrow> ev_state \<Rightarrow> router" where
  "NewEventRouter workerPoolSize w =
     \<lparr>rt_world = w, rt_free = workerPoolSize, rt_busy = {#}, rt_snapshot = [], rt_stream = None, rt_open = True,
      rt_cancelled = False, rt_listed = False, rt_taken = [], rt_log = []\<rparr>"

text \<open>\<open>Process\<close> once the router was started: the listing, whose failure stops the router.\<close>

definition rt_Process :: "env \<Rightarrow> router \<Rightarrow> unit result \<times> router" where
  "rt_Process e s =
     (case dc_ContainerList e (rt_world s) of
        (Inl er, w) \<Rightarrow> (Inl er, s\<lparr>rt_world := w, rt_listed := True, rt_cancelled := True\<rparr>)
      | (Inr cids, w) \<Rightarrow> (Inr (), s\<lparr>rt_world := w, rt_listed := True, rt_snapshot := map snapshot_event cids\<rparr>))"

text \<open>\<open>case w := <-e.workers: go w.doWork(event, e)\<close>.\<close>

definition hand_over :: "docker_event \<Rightarrow> router \<Rightarrow> router" where
  "hand_over event s = s\<lparr>rt_free := rt_free s - 1,
     rt_busy := add_mset (length (rt_taken s), event, eventHandlers (de_Action event)) (rt_busy s),
     rt_taken := rt_taken s @ [event]\<rparr>"

text \<open>The next handler of a worker; its error is logged.\<close>

definition run_handler :: "env \<Rightarrow> net_lib \<Rightarrow> nat \<Rightarrow> docker_event \<Rightarrow> handler \<Rightarrow> handler list \<Rightarrow> router \<Rightarrow> router" where
  "run_handler e lib i event h hs s = s\<lparr>rt_world := snd (ignoring (Handle e lib h event) (rt_world s)),
     rt_busy := add_mset (i, event, hs) (rt_busy s - {#(i, event, h # hs)#}), rt_log := rt_log s @ [(i, h)]\<rparr>"

text \<open>\<open>router.workers <- w\<close>.\<close>

definition return_worker :: "nat \<Rightarrow> docker_event \<Rightarrow> router \<Rightarrow> router" where
  "return_worker i event s = s\<lparr>rt_busy := rt_busy s - {#(i, event, [])#}, rt_free := Suc (rt_free s)\<rparr>"

text \<open>The steps that make progress with the events at hand.\<close>

inductive rt_work :: "env \<Rightarrow> net_lib \<Rightarrow> router \<Rightarrow> router \<Rightarrow> bool" for e lib where
  stream: "rt_stream s = Some event \<Longrightarrow> 0 < rt_free s \<Longrightarrow> rt_work e lib s (hand_over event (s\<lparr>rt_stream := None\<rparr>))"
| snapshot: "rt_snapshot s = event # rest \<Longrightarrow> 0 < rt_free s \<Longrightarrow> rt_work e lib s (hand_over event (s\<lparr>rt_snapshot := rest\<rparr>))"
| handle: "(i, event, h # hs) \<in># rt_busy s \<Longrightarrow> rt_work e lib s (run_handler e lib i event h hs s)"
| finish: "(i, event, []) \<in># rt_busy s \<Longrightarrow> rt_work e lib s (return_worker i event s)"

text \<open>And the others: an event arrives, the wait for a worker times out and goes on, the listing, the end of the
  stream, and the cancellation, after which the routing goroutine may drop its event.\<close>

inductive rt_step :: "env \<Rightarrow> net_lib \<Rightarrow> router \<Rightarrow> router \<Rightarrow> bool" for e lib where
  work: "rt_work e lib s s' \<Longrightarrow> rt_step e lib s s'"
| receive: "rt_open s \<Longrightarrow> rt_stream s = None \<Longrightarrow> rt_step e lib s (s\<lparr>rt_stream := Some event\<rparr>)"
| timeout: "rt_step e lib s s"
| list: "\<not> rt_listed s \<Longrightarrow> rt_step e lib s (snd (rt_Process e s))"
| ended: "rt_stream s = None \<Longrightarrow> rt_step e lib s (s\<lparr>rt_open := False\<rparr>)"
| cancelled: "rt_cancelled s \<Longrightarrow> rt_step e lib s (s\<lparr>rt_stream := None, rt_open := False\<rparr>)"

inductive_cases rt_workE: "rt_work e lib s s'"

section \<open>Properties\<close>

lemma hand_over_simps [simp]:
  "rt_free (hand_over ev s) = rt_free s - 1" "rt_taken (hand_over ev s) = rt_taken s @ [ev]" "rt_log (hand_over ev s) = rt_log s"
  "rt_busy (hand_over ev s) = add_mset (length (rt_taken s), ev, eventHandlers (de_Action ev)) (rt_busy s)"
  "rt_snapshot (hand_over ev s) = rt_snapshot s" "rt_stream (hand_over ev s) = rt_stream s"
  by (simp_all add: hand_over_def)

lemma process_simps [simp]:
  "rt_free (snd (rt_Process e s)) = rt_free s" "rt_busy (snd (rt_Process e s)) = rt_busy s"
  "rt_taken (snd (rt_Process e s)) = rt_taken s" "rt_log (snd (rt_Process e s)) = rt_log s"
  by (simp_all add: rt_Process_def split: prod.split sum.split)

lemma pool_work: "rt_work e lib s s' \<Longrightarrow> rt_free s' + size (rt_busy s') = rt_free s + size (rt_busy s)"
  by (induction rule: rt_work.induct) (auto simp: run_handler_def return_worker_def dest: multi_member_split)

lemma pool_step: "rt_step e lib s s' \<Longrightarrow> rt_free s' + size (rt_busy s') = rt_free s + size (rt_busy s)"
  by (induction rule: rt_step.induct) (simp_all add: pool_work)

text \<open>C34: No worker is lost or made up: in every reachable state the free workers and the busy ones together are the
  pool, so at most the pool's size of events is handled at once and giving a worker back never finds the
  channel full.\<close>

theorem worker_pool_bounded:
  assumes "(rt_step e lib)\<^sup>*\<^sup>* (NewEventRouter poolSize w) s"
  shows "rt_free s + size (rt_busy s) = poolSize \<and> size (rt_busy s) \<le> poolSize \<and> (rt_busy s \<noteq> {#} \<longleftrightarrow> rt_free s < poolSize)"
proof -
  have "rt_free s + size (rt_busy s) = poolSize"
    using assms by (induction rule: rtranclp_induct) (simp_all add: pool_step NewEventRouter_def)
  then show ?thesis by (auto simp: nonempty_has_size)
qed

text \<open>Two events for a container with a pool of one.\<close>

definition rt_event :: "string \<Rightarrow> docker_event" where
  "rt_event action = \<lparr>de_Action = action, de_ActorID = ''c1'', de_Attributes = []\<rparr>"

definition ev_zero :: ev_state where
  "ev_zero = \<lparr>trace = [], files = (\<lambda>_. None),
     ev_binaries = bx_state.fields [] None, ev_starts = st_state.fields tl_init, ev_network = nm_state.fields [] []\<rparr>"

definition rt_one :: router where
  "rt_one = hand_over (rt_event ''die'') ((NewEventRouter 1 ev_zero)\<lparr>rt_stream := None\<rparr>)"

lemma rt_one_reachable: "(rt_step e lib)\<^sup>*\<^sup>* (NewEventRouter 1 ev_zero) rt_one"
proof -
  let ?s = "(NewEventRouter 1 ev_zero)\<lparr>rt_stream := Some (rt_event ''die'')\<rparr>"
  have "rt_step e lib (NewEventRouter 1 ev_zero) ?s" by (rule rt_step.receive) (simp_all add: NewEventRouter_def)
  moreover have "rt_step e lib ?s (hand_over (rt_event ''die'') (?s\<lparr>rt_stream := None\<rparr>))"
    by (rule rt_step.work, rule rt_work.stream) (simp_all add: NewEventRouter_def)
  moreover have "?s\<lparr>rt_stream := None\<rparr> = (NewEventRouter 1 ev_zero)\<lparr>rt_stream := None\<rparr>" by simp
  ultimately show ?thesis unfolding rt_one_def by (metis converse_rtranclp_into_rtranclp r_into_rtranclp)
qed

theorem worker_pool_bounded_witness:
  "rt_free rt_one + size (rt_busy rt_one) = 1 \<and> rt_free rt_one = 0"
  using worker_pool_bounded [OF rt_one_reachable] by (simp add: rt_one_def NewEventRouter_def)

subsection \<open>Order and completeness\<close>

text \<open>The handlers that ran for an event.\<close>

definition ran :: "nat \<Rightarrow> router \<Rightarrow> handler list" where
  "ran i s = map snd (filter (\<lambda>x. fst x = i) (rt_log s))"

text \<open>A busy worker has the event of its number, and what ran and what remains are the event's handlers; no other
  worker has the number; the handlers of every other event taken have all run.\<close>

definition rt_inv :: "router \<Rightarrow> bool" where
  "rt_inv s \<longleftrightarrow>
     (\<forall>i ev hs. (i, ev, hs) \<in># rt_busy s \<longrightarrow> i < length (rt_taken s) \<and> rt_taken s ! i = ev
        \<and> ran i s @ hs = eventHandlers (de_Action ev))
     \<and> (\<forall>i. size (filter_mset (\<lambda>b. fst b = i) (rt_busy s)) \<le> 1)
     \<and> (\<forall>i < length (rt_taken s). (\<forall>b \<in># rt_busy s. fst b \<noteq> i) \<longrightarrow> ran i s = eventHandlers (de_Action (rt_taken s ! i)))
     \<and> (\<forall>i. length (rt_taken s) \<le> i \<longrightarrow> ran i s = [])"

lemma rt_invD:
  assumes "rt_inv s"
  shows "(i, ev, hs) \<in># rt_busy s \<Longrightarrow> i < length (rt_taken s)" "(i, ev, hs) \<in># rt_busy s \<Longrightarrow> rt_taken s ! i = ev"
    "(i, ev, hs) \<in># rt_busy s \<Longrightarrow> ran i s @ hs = eventHandlers (de_Action ev)"
    "size (filter_mset (\<lambda>b. fst b = i) (rt_busy s)) \<le> 1"
    "i < length (rt_taken s) \<Longrightarrow> \<forall>b \<in># rt_busy s. fst b \<noteq> i \<Longrightarrow> ran i s = eventHandlers (de_Action (rt_taken s ! i))"
    "length (rt_taken s) \<le> i \<Longrightarrow> ran i s = []"
  using assms unfolding rt_inv_def by blast+

lemma rt_inv_cong:
  "rt_inv s \<Longrightarrow> rt_busy s' = rt_busy s \<Longrightarrow> rt_taken s' = rt_taken s \<Longrightarrow> rt_log s' = rt_log s \<Longrightarrow> rt_inv s'"
  by (simp add: rt_inv_def ran_def)

lemma none_filter: "\<forall>b \<in># m. \<not> P b \<Longrightarrow> filter_mset P m = {#}"
  by (induction m) auto

lemma others_empty: "size (filter_mset P (add_mset b m)) \<le> 1 \<Longrightarrow> P b \<Longrightarrow> c \<in># m \<Longrightarrow> \<not> P c"
  by (auto dest: multi_member_split)

lemma rt_inv_hand_over:
  assumes "rt_inv s" and "rt_busy s' = rt_busy s" and "rt_taken s' = rt_taken s" and "rt_log s' = rt_log s"
  shows "rt_inv (hand_over ev s')"
proof -
  let ?n = "length (rt_taken s)"
  note d = rt_invD [OF assms(1)]
  have new: "ran ?n s = []" "\<forall>b \<in># rt_busy s. fst b \<noteq> ?n" using d(1,6) by fastforce+
  have ran: "ran i (hand_over ev s') = ran i s" for i by (simp add: ran_def assms(4))
  have none: "filter_mset (\<lambda>b. fst b = ?n) (rt_busy s) = {#}" by (rule none_filter [OF new(2)])
  have "size (filter_mset (\<lambda>b. fst b = i) (rt_busy (hand_over ev s'))) \<le> 1" for i
    using d(4) [of i] none by (auto simp: assms(2,3))
  moreover have "i < length (rt_taken (hand_over ev s')) \<and> rt_taken (hand_over ev s') ! i = ev' \<and> ran i (hand_over ev s') @ hs = eventHandlers (de_Action ev')"
    if "(i, ev', hs) \<in># rt_busy (hand_over ev s')" for i ev' hs
    using that d(1-3) new(1) by (auto simp: assms(2,3) ran nth_append)
  moreover have "ran i (hand_over ev s') = eventHandlers (de_Action (rt_taken (hand_over ev s') ! i))"
    if "i < length (rt_taken (hand_over ev s'))" "\<forall>b \<in># rt_busy (hand_over ev s'). fst b \<noteq> i" for i
  proof -
    have "i < ?n" "\<forall>b \<in># rt_busy s. fst b \<noteq> i" using that by (auto simp: assms(2,3) less_Suc_eq)
    then show ?thesis using d(5) by (simp add: ran assms(3) nth_append)
  qed
  moreover have "ran i (hand_over ev s') = []" if "length (rt_taken (hand_over ev s')) \<le> i" for i
    using that d(6) by (simp add: ran assms(3))
  ultimately show ?thesis unfolding rt_inv_def by blast
qed

lemma rt_inv_run:
  assumes "rt_inv s" and "(i, ev, h # hs) \<in># rt_busy s"
  shows "rt_inv (run_handler e lib i ev h hs s)"
proof -
  let ?s = "run_handler e lib i ev h hs s"
  note d = rt_invD [OF assms(1)]
  obtain m where m: "rt_busy s = add_mset (i, ev, h # hs) m" using assms(2) by (rule multi_member_split [THEN exE])
  have busy: "rt_busy ?s = add_mset (i, ev, hs) m" and taken: "rt_taken ?s = rt_taken s" by (simp_all add: run_handler_def m)
  have ran: "ran j ?s = ran j s @ (if j = i then [h] else [])" for j by (simp add: ran_def run_handler_def)
  have others: "fst b \<noteq> i" if "b \<in># m" for b using others_empty [OF d(4) [of i, unfolded m] _ that] by simp
  have "size (filter_mset (\<lambda>b. fst b = j) (rt_busy ?s)) \<le> 1" for j using d(4) [of j] by (simp add: busy m split: if_splits)
  moreover have "j < length (rt_taken ?s) \<and> rt_taken ?s ! j = ev' \<and> ran j ?s @ hs' = eventHandlers (de_Action ev')"
    if "(j, ev', hs') \<in># rt_busy ?s" for j ev' hs'
  proof (cases "(j, ev', hs') = (i, ev, hs)")
    case True
    then show ?thesis using d(1-3) [OF assms(2)] by (simp add: taken ran)
  next
    case False
    then have "(j, ev', hs') \<in># m" using that by (auto simp: busy)
    then show ?thesis using d(1-3) [of j ev' hs'] others [of "(j, ev', hs')"] by (simp add: taken ran m)
  qed
  moreover have "ran j ?s = eventHandlers (de_Action (rt_taken ?s ! j))"
    if "j < length (rt_taken ?s)" "\<forall>b \<in># rt_busy ?s. fst b \<noteq> j" for j
    using that d(5) [of j] by (simp add: taken ran busy m)
  moreover have "ran j ?s = []" if "length (rt_taken ?s) \<le> j" for j
    using that d(6) [of j] d(1) [OF assms(2)] by (auto simp: taken ran)
  ultimately show ?thesis unfolding rt_inv_def by blast
qed

lemma rt_inv_return:
  assumes "rt_inv s" and "(i, ev, []) \<in># rt_busy s"
  shows "rt_inv (return_worker i ev s)"
proof -
  let ?s = "return_worker i ev s"
  note d = rt_invD [OF assms(1)]
  obtain m where m: "rt_busy s = add_mset (i, ev, []) m" using assms(2) by (rule multi_member_split [THEN exE])
  have eqs: "rt_busy ?s = m" "rt_taken ?s = rt_taken s" "ran j ?s = ran j s" for j by (simp_all add: return_worker_def m ran_def)
  have "size (filter_mset (\<lambda>b. fst b = j) m) \<le> 1" for j by (rule le_trans [OF _ d(4) [of j]]) (simp add: m)
  moreover have "ran j s = eventHandlers (de_Action (rt_taken s ! j))" if "j < length (rt_taken s)" "\<forall>b \<in># m. fst b \<noteq> j" for j
    using that d(5) [of j] d(2,3) [OF assms(2)] by (cases "j = i") (auto simp: m)
  moreover have "(j, ev', hs) \<in># rt_busy s" if "(j, ev', hs) \<in># m" for j ev' hs using that by (simp add: m)
  ultimately show ?thesis unfolding rt_inv_def eqs using d(1-3,6) by blast
qed

lemma rt_inv_step: "rt_step e lib s s' \<Longrightarrow> rt_inv s \<Longrightarrow> rt_inv s'"
proof (induction rule: rt_step.induct)
  case (work s s')
  then show ?case
    by (cases rule: rt_work.cases) (auto intro: rt_inv_hand_over rt_inv_run rt_inv_return)
qed (auto elim: rt_inv_cong)

text \<open>C35: Every event a worker took is handled by all handlers of its action in their order - binaries before the
  resolver and the network of a starting container - whatever fails and however the workers interleave: at
  any time the handlers that ran are a beginning of that list, and all of it once no worker has the event.\<close>

theorem event_handled_in_order:
  assumes "(rt_step e lib)\<^sup>*\<^sup>* (NewEventRouter poolSize w) s" and "i < length (rt_taken s)"
  shows "prefix (ran i s) (eventHandlers (de_Action (rt_taken s ! i)))
    \<and> ((\<forall>b \<in># rt_busy s. fst b \<noteq> i) \<longrightarrow> ran i s = eventHandlers (de_Action (rt_taken s ! i)))"
proof -
  have "rt_inv (NewEventRouter poolSize w)" by (simp add: rt_inv_def NewEventRouter_def ran_def)
  with assms(1) have inv: "rt_inv s" by (induction rule: rtranclp_induct) (auto intro: rt_inv_step)
  note d = rt_invD [OF inv]
  have full: "ran i s = eventHandlers (de_Action (rt_taken s ! i))" if "\<forall>b \<in># rt_busy s. fst b \<noteq> i"
    using d(5) [OF assms(2) that] .
  moreover have "prefix (ran i s) (eventHandlers (de_Action (rt_taken s ! i)))"
  proof (cases "\<forall>b \<in># rt_busy s. fst b \<noteq> i")
    case True
    then show ?thesis by (simp add: full)
  next
    case False
    then obtain ev hs where b: "(i, ev, hs) \<in># rt_busy s" by fastforce
    have "eventHandlers (de_Action (rt_taken s ! i)) = ran i s @ hs" using d(2,3) [OF b] by simp
    then show ?thesis unfolding prefix_def by blast
  qed
  ultimately show ?thesis by blast
qed

text \<open>The event of the pool of one, to its end.\<close>

definition plain_lib :: net_lib where
  "plain_lib = \<lparr>nl_result = (\<lambda>_ _. ''null''), nl_errtext = (\<lambda>_. ''failed'')\<rparr>"

definition rt_half :: router where
  "rt_half = run_handler quiet_env plain_lib 0 (rt_event ''die'') BinaryWatcher [NetworkManagerHandler] rt_one"

definition rt_full :: router where
  "rt_full = return_worker 0 (rt_event ''die'')
     (run_handler quiet_env plain_lib 0 (rt_event ''die'') NetworkManagerHandler [] rt_half)"

lemma rt_one_busy: "rt_busy rt_one = {#(0, rt_event ''die'', [BinaryWatcher, NetworkManagerHandler])#}"
  by (simp add: rt_one_def NewEventRouter_def rt_event_def eventHandlers_def)

lemma rt_full_reachable: "(rt_step quiet_env plain_lib)\<^sup>*\<^sup>* (NewEventRouter 1 ev_zero) rt_full"
proof -
  let ?t = "run_handler quiet_env plain_lib 0 (rt_event ''die'') NetworkManagerHandler [] rt_half"
  have "rt_step quiet_env plain_lib rt_one rt_half"
    unfolding rt_half_def by (rule rt_step.work, rule rt_work.handle) (simp add: rt_one_busy)
  moreover have "rt_step quiet_env plain_lib rt_half ?t"
    by (rule rt_step.work, rule rt_work.handle) (simp add: rt_half_def run_handler_def rt_one_busy)
  moreover have "rt_step quiet_env plain_lib ?t rt_full"
    unfolding rt_full_def by (rule rt_step.work, rule rt_work.finish) (simp add: rt_half_def run_handler_def)
  ultimately show ?thesis using rt_one_reachable by (meson rtranclp.rtrancl_into_rtrancl)
qed

theorem event_handled_in_order_witness:
  "ran 0 rt_full = [BinaryWatcher, NetworkManagerHandler]"
proof -
  have taken: "rt_taken rt_full = [rt_event ''die'']" and busy: "rt_busy rt_full = {#}"
    by (simp_all add: rt_full_def rt_half_def return_worker_def run_handler_def rt_one_busy)
      (simp add: rt_one_def NewEventRouter_def)
  have "ran 0 rt_full = eventHandlers (de_Action (rt_taken rt_full ! 0))"
    using event_handled_in_order [OF rt_full_reachable, of 0] by (simp add: taken busy)
  then show ?thesis by (simp add: taken rt_event_def eventHandlers_def)
qed

subsection \<open>Progress\<close>

text \<open>An event at hand takes at most five steps: it is taken, up to three handlers run, the worker is given back.\<close>

definition pending :: "router \<Rightarrow> nat" where
  "pending s = length (rt_snapshot s) + (if rt_stream s = None then 0 else 1)"

definition work_left :: "router \<Rightarrow> nat" where
  "work_left s = 5 * pending s + (\<Sum>b \<in># rt_busy s. Suc (length (snd (snd b))))"

lemma handlers_few: "length (eventHandlers a) \<le> 3"
  by (simp add: eventHandlers_def)

lemma work_decreases: "rt_work e lib s s' \<Longrightarrow> work_left s' < work_left s"
proof (induction rule: rt_work.induct)
  case (stream s event)
  then show ?case using handlers_few [of "de_Action event"] by (simp add: work_left_def pending_def)
next
  case (snapshot s event rest)
  then show ?case using handlers_few [of "de_Action event"] by (simp add: work_left_def pending_def)
next
  case (handle i event h hs s)
  then obtain m where "rt_busy s = add_mset (i, event, h # hs) m" by (rule multi_member_split [THEN exE])
  then show ?case by (simp add: work_left_def pending_def run_handler_def)
next
  case (finish i event s)
  then obtain m where "rt_busy s = add_mset (i, event, []) m" by (rule multi_member_split [THEN exE])
  then show ?case by (simp add: work_left_def pending_def return_worker_def)
qed

lemma work_enabled:
  assumes "0 < rt_free s + size (rt_busy s)"
  shows "(\<exists>t. rt_work e lib s t) \<longleftrightarrow> rt_stream s \<noteq> None \<or> rt_snapshot s \<noteq> [] \<or> rt_busy s \<noteq> {#}"
proof
  assume "\<exists>t. rt_work e lib s t"
  then show "rt_stream s \<noteq> None \<or> rt_snapshot s \<noteq> [] \<or> rt_busy s \<noteq> {#}" by (auto elim: rt_workE)
next
  assume h: "rt_stream s \<noteq> None \<or> rt_snapshot s \<noteq> [] \<or> rt_busy s \<noteq> {#}"
  show "\<exists>t. rt_work e lib s t"
  proof (cases "rt_busy s = {#}")
    case True
    then have "0 < rt_free s" using assms by simp
    then show ?thesis using h True by (cases "rt_snapshot s") (auto intro: rt_work.stream rt_work.snapshot)
  next
    case False
    then obtain i ev hs where "(i, ev, hs) \<in># rt_busy s" by (metis multiset_nonemptyE prod.exhaust)
    then show ?thesis by (cases hs) (auto intro: rt_work.handle rt_work.finish)
  qed
qed

interpretation events: draining "\<lambda>s. 0 < rt_free s + size (rt_busy s)" "rt_work e lib" work_left
    "\<lambda>s. rt_stream s \<noteq> None \<or> rt_snapshot s \<noteq> [] \<or> rt_busy s \<noteq> {#}" for e lib
  by unfold_locales (simp_all only: pool_work work_decreases work_enabled)

text \<open>C36: The router never gets stuck and catches up: with at least one worker, in every reachable state some worker
  can proceed as long as any event is waiting or being handled; and when no more events arrive, all of them
  have been handled after at most five steps for each event waiting.\<close>

theorem router_catches_up:
  assumes "(rt_step e lib)\<^sup>*\<^sup>* (NewEventRouter poolSize w) s" and "0 < poolSize" and "(rt_work e lib ^^ n) s s'"
  shows "n + work_left s' \<le> work_left s
    \<and> ((\<exists>t. rt_work e lib s' t) \<longleftrightarrow> rt_stream s' \<noteq> None \<or> rt_snapshot s' \<noteq> [] \<or> rt_busy s' \<noteq> {#})
    \<and> (rt_busy s = {#} \<longrightarrow> n \<le> 5 * pending s)"
proof -
  have size0: "rt_free s + size (rt_busy s) = poolSize"
    using assms(1) by (induction rule: rtranclp_induct) (simp_all add: pool_step NewEventRouter_def)
  then have inv: "0 < rt_free s + size (rt_busy s)" using assms(2) by simp
  note run = events.run_bounded [OF inv assms(3)] events.stuck_done [OF inv assms(3)]
  have "work_left s = 5 * pending s" if "rt_busy s = {#}" using that by (simp add: work_left_def)
  then show ?thesis using run by auto
qed

theorem router_catches_up_witness:
  "work_left rt_half \<le> 2 \<and> (\<exists>t. rt_work quiet_env plain_lib rt_half t)"
proof -
  have "(rt_work quiet_env plain_lib ^^ 1) rt_one rt_half"
    unfolding relpowp_1 rt_half_def by (rule rt_work.handle) (simp add: rt_one_busy)
  from router_catches_up [OF rt_one_reachable _ this] have "1 + work_left rt_half \<le> work_left rt_one
    \<and> ((\<exists>t. rt_work quiet_env plain_lib rt_half t) \<longleftrightarrow> rt_stream rt_half \<noteq> None \<or> rt_snapshot rt_half \<noteq> [] \<or> rt_busy rt_half \<noteq> {#})"
    by simp
  moreover have "rt_busy rt_half \<noteq> {#}" by (simp add: rt_half_def run_handler_def)
  moreover have "work_left rt_one = 3" unfolding work_left_def rt_one_busy by (simp add: pending_def rt_one_def NewEventRouter_def)
  ultimately show ?thesis by simp
qed

end
