(* ===== verification/MetaURL.thy ===== *)
theory MetaURL
  imports NetLocal
begin

text \<open>
  The addresses the metadata client asks (\<open>newHTTPClient\<close>, \<open>endpoint\<close> and the redirect policy of
  \<open>src/internal/metadata/client.go\<close>).  A request path is parsed as \<open>net/url\<close> does, as far as the client
  looks at the result: an absolute reference, one with a host and a malformed one are all refused alike, so
  they are not told apart.  The base URL is given parsed.
\<close>

section \<open>Percent encoding of paths\<close>

fun unescape :: "string \<Rightarrow> string option" where
  "unescape [] = Some []"
| "unescape (c # s) =
     (if c \<noteq> CHR ''%'' then map_option ((#) c) (unescape s)
      else case s of
        a # b # s' \<Rightarrow>
          (case (hex_val a, hex_val b) of
             (Some x, Some y) \<Rightarrow> map_option ((#) (char_of (16 * x + y))) (unescape s')
           | _ \<Rightarrow> None)
      | _ \<Rightarrow> None)"

definition url_unreserved :: "char \<Rightarrow> bool" where
  "url_unreserved c \<longleftrightarrow> is_alnum c \<or> c \<in> set ''-_.~''"

text \<open>\<open>shouldEscape(c, encodePath)\<close>.\<close>

definition should_escape :: "char \<Rightarrow> bool" where
  "should_escape c \<longleftrightarrow> \<not> (url_unreserved c \<or> c \<in> set ''$&+,/:;=@'')"

definition pct_digit :: "int \<Rightarrow> char" where
  "pct_digit n = ''0123456789ABCDEF'' ! nat n"

definition escape_char :: "char \<Rightarrow> string" where
  "escape_char c =
     (if should_escape c then let n = of_char c :: int in [CHR ''%'', pct_digit (n div 16), pct_digit (n mod 16)] else [c])"

definition escape_path :: "string \<Rightarrow> string" where
  "escape_path s = concat (map escape_char s)"

definition valid_encoded :: "string \<Rightarrow> bool" where
  "valid_encoded s \<longleftrightarrow> list_all (\<lambda>c. c \<in> set ''!$&()*+,;=:@[]%'' \<or> c = CHR 0x27 \<or> \<not> should_escape c) s"

section \<open>Parsing a request path\<close>

text \<open>\<open>strings.Cut\<close> at a character.\<close>

definition cut_at :: "char \<Rightarrow> string \<Rightarrow> string \<times> string" where
  "cut_at c s = (takeWhile (\<lambda>x. x \<noteq> c) s, drop 1 (dropWhile (\<lambda>x. x \<noteq> c) s))"

text \<open>\<open>getScheme\<close>: a colon after letters, digits and \<open>+-.\<close> ends a scheme - or is an error at the start.\<close>

fun has_scheme :: "bool \<Rightarrow> string \<Rightarrow> bool" where
  "has_scheme first [] = False"
| "has_scheme first (c # s) =
     (if is_lower c \<or> is_upper c then has_scheme False s
      else if is_digit c \<or> c \<in> set ''+-.'' then (if first then False else has_scheme False s)
      else c = CHR '':'')"

definition userinfo_char :: "char \<Rightarrow> bool" where
  "userinfo_char c \<longleftrightarrow> is_alnum c \<or> c \<in> set ''-._:~!$&()*+,;=%@'' \<or> c = CHR 0x27"

text \<open>An authority without a host: nothing, or user information and the last at sign.\<close>

definition hostless :: "string \<Rightarrow> bool" where
  "hostless authority \<longleftrightarrow> authority = []
     \<or> last authority = CHR ''@'' \<and> list_all userinfo_char (butlast authority) \<and> unescape (butlast authority) \<noteq> None"

record reference =
  rf_Path :: string
  rf_RawPath :: string
  rf_RawQuery :: string

text \<open>\<open>setPath\<close>.\<close>

definition set_path :: "string \<Rightarrow> string \<Rightarrow> reference option" where
  "set_path p query =
     (case unescape p of
        None \<Rightarrow> None
      | Some path \<Rightarrow> Some \<lparr>rf_Path = path, rf_RawPath = (if escape_path path = p then [] else p), rf_RawQuery = query\<rparr>)"

text \<open>\<open>url.Parse\<close> of a reference without scheme and host; None for any other.\<close>

definition parse_reference :: "string \<Rightarrow> reference option" where
  "parse_reference raw =
     (let (u, frag) = cut_at (CHR ''#'') raw; (rest, query) = cut_at (CHR ''?'') u in
      if unescape frag = None \<or> list_ex (\<lambda>c. c < CHR 0x20 \<or> c = CHR 0x7F) u \<or> has_scheme True u then None
      else if \<not> has_prefix rest ''/''
        then (if CHR '':'' \<in> set (fst (cut_at (CHR ''/'') rest)) then None else set_path rest query)
      else if has_prefix rest ''//'' \<and> \<not> has_prefix rest ''///''
        then (let authority = takeWhile (\<lambda>c. c \<noteq> CHR ''/'') (drop 2 rest); path = dropWhile (\<lambda>c. c \<noteq> CHR ''/'') (drop 2 rest) in
              if hostless authority then set_path path query else None)
      else set_path rest query)"

definition EscapedPath :: "reference \<Rightarrow> string" where
  "EscapedPath r =
     (if rf_RawPath r \<noteq> [] \<and> valid_encoded (rf_RawPath r) \<and> unescape (rf_RawPath r) = Some (rf_Path r) then rf_RawPath r
      else if rf_Path r = ''*'' then ''*'' else escape_path (rf_Path r))"

section \<open>The client\<close>

record url =
  url_Scheme :: string
  url_HasUser :: bool
  url_Host :: string
  url_Path :: string
  url_RawPath :: string
  url_RawQuery :: string
  url_Fragment :: string

record http_client =
  hc_baseURL :: url
  hc_forwardedFor :: string

text \<open>\<open>initErr\<close> makes a client the error it failed with.\<close>

type_synonym metadata_client = "http_client result"

definition trim_slashes :: "string \<Rightarrow> string" where
  "trim_slashes s = rev (dropWhile (\<lambda>c. c = CHR ''/'') (rev s))"

definition newHTTPClient :: "url option \<Rightarrow> string \<Rightarrow> metadata_client" where
  "newHTTPClient parsed forwardedFor =
     (case parsed of
        None \<Rightarrow> Inl (Errorf ''invalid metadata URL'' [])
      | Some baseURL \<Rightarrow>
          if url_Scheme baseURL \<noteq> ''http'' \<and> url_Scheme baseURL \<noteq> ''https'' \<or> url_Host baseURL = []
          then Inl (Errorf ''metadata URL must use HTTP or HTTPS and include a host'' [])
          else if url_HasUser baseURL \<or> url_RawQuery baseURL \<noteq> [] \<or> url_Fragment baseURL \<noteq> []
          then Inl (Errorf ''metadata URL must not contain credentials, a query, or a fragment'' [])
          else if forwardedFor \<noteq> [] \<and> ParseIP forwardedFor = None
          then Inl (Errorf ''forwarded metadata address is not an IP address'' [])
          else Inr \<lparr>hc_baseURL = baseURL\<lparr>url_Path := trim_slashes (url_Path baseURL)\<rparr>, hc_forwardedFor = forwardedFor\<rparr>)"

text \<open>The requests so far, oldest first, and the new one.\<close>

definition CheckRedirect :: "url \<Rightarrow> url list \<Rightarrow> unit result" where
  "CheckRedirect request via =
     (case via of
        [] \<Rightarrow> Inr ()
      | origin # _ \<Rightarrow>
          if \<not> equal_fold (url_Scheme request) (url_Scheme origin) \<or> \<not> equal_fold (url_Host request) (url_Host origin)
          then Inl (Errorf ''metadata redirect changed origin'' [])
          else if 5 \<le> length via then Inl (Errorf ''too many metadata redirects'' []) else Inr ())"

definition endpoint :: "metadata_client \<Rightarrow> string \<Rightarrow> url result" where
  "endpoint client path =
     (case client of
        Inl er \<Rightarrow> Inl er
      | Inr c \<Rightarrow>
          (case parse_reference path of
             None \<Rightarrow> Inl (Errorf ''invalid metadata request path'' [])
           | Some r \<Rightarrow>
               if \<not> has_prefix (rf_Path r) ''/'' then Inl (Errorf ''invalid metadata request path'' [])
               else if list_ex (\<lambda>segment. segment = ''..'' \<or> equal_fold segment ''%2e%2e'') (str_split (CHR ''/'') (EscapedPath r))
               then Inl (Errorf ''metadata request path contains traversal'' [])
               else Inr ((hc_baseURL c)\<lparr>url_Path := url_Path (hc_baseURL c) @ rf_Path r, url_RawPath := [], url_RawQuery := rf_RawQuery r\<rparr>)))"

section \<open>Properties\<close>

lemma pct_digit_in: "0 \<le> n \<Longrightarrow> n < 16 \<Longrightarrow> pct_digit n \<in> set ''0123456789ABCDEF''"
  unfolding pct_digit_def by (rule nth_mem) (simp add: nat_less_iff)

lemma escape_slash: "CHR ''/'' \<in> set (escape_char c) \<longleftrightarrow> c = CHR ''/''"
proof -
  let ?n = "of_char c :: int"
  have "0 \<le> ?n" "?n < 256" by (simp_all add: of_char_def)
  then have "0 \<le> ?n div 16 \<and> ?n div 16 < 16" "0 \<le> ?n mod 16 \<and> ?n mod 16 < 16" by (arith, simp)
  then have "pct_digit (?n div 16) \<in> set ''0123456789ABCDEF''" "pct_digit (?n mod 16) \<in> set ''0123456789ABCDEF''"
    using pct_digit_in by blast+
  moreover have "\<not> should_escape (CHR ''/'')" by code_simp
  ultimately show ?thesis by (auto simp: escape_char_def Let_def)
qed

lemma split_escape: "str_split (CHR ''/'') (escape_path s) = map escape_path (str_split (CHR ''/'') s)"
proof (induction s)
  case (Cons c s)
  obtain p ps where ps: "str_split (CHR ''/'') s = p # ps" by (cases "str_split (CHR ''/'') s") auto
  have step: "str_split (CHR ''/'') (u @ v) = (u @ q) # qs" if "CHR ''/'' \<notin> set u" "str_split (CHR ''/'') v = q # qs" for u v q qs
    using that by (induction u) auto
  have slash: "escape_char (CHR ''/'') = ''/''" by code_simp
  show ?case
  proof (cases "c = CHR ''/''")
    case True
    then show ?thesis using Cons by (simp add: escape_path_def slash)
  next
    case False
    then have "CHR ''/'' \<notin> set (escape_char c)" by (simp add: escape_slash)
    from step [OF this, of "escape_path s" "escape_path p" "map escape_path ps"] show ?thesis
      using Cons.IH False by (simp add: ps escape_path_def)
  qed
qed (simp add: escape_path_def)

lemma unescape_plain: "CHR ''%'' \<notin> set s \<Longrightarrow> unescape s = Some s"
  by (induction s) auto

lemma set_path_plain: "CHR ''%'' \<notin> set p \<Longrightarrow> set_path p q = Some r \<Longrightarrow> rf_Path r = p \<and> rf_RawPath r \<in> {[], p}"
  by (auto simp: set_path_def unescape_plain)

lemma parse_plain:
  assumes "CHR ''%'' \<notin> set path" and "parse_reference path = Some r"
  shows "rf_RawPath r \<in> {[], rf_Path r}"
proof -
  let ?u = "fst (cut_at (CHR ''#'') path)" and ?rest = "fst (cut_at (CHR ''?'') (fst (cut_at (CHR ''#'') path)))"
  have sub: "set ?rest \<subseteq> set path" by (auto simp: cut_at_def dest!: set_takeWhileD)
  have "\<exists>p q. set p \<subseteq> set ?rest \<and> set_path p q = Some r"
    using assms(2) by (auto simp: parse_reference_def Let_def split: prod.splits if_splits dest!: set_dropWhileD dest: in_set_dropD)
  then obtain p q where "set p \<subseteq> set ?rest" "set_path p q = Some r" by blast
  then show ?thesis using set_path_plain [of p q r] sub assms(1) by auto
qed

text \<open>C39: A request goes to the configured server: whatever path is asked for, an address the client accepts has the
  scheme and the host of its base URL and a path below the base path; and as long as the path asked for has
  no percent sign, no segment of it climbs up.\<close>

theorem endpoint_confined:
  assumes "endpoint (Inr c) path = Inr t"
  shows "\<exists>p q. t = (hc_baseURL c)\<lparr>url_Path := url_Path (hc_baseURL c) @ p, url_RawPath := [], url_RawQuery := q\<rparr>
    \<and> has_prefix p ''/'' \<and> (CHR ''%'' \<notin> set path \<longrightarrow> ''..'' \<notin> set (str_split (CHR ''/'') p))"
proof -
  from assms obtain r where r: "parse_reference path = Some r" "has_prefix (rf_Path r) ''/''"
    "\<not> list_ex (\<lambda>segment. segment = ''..'' \<or> equal_fold segment ''%2e%2e'') (str_split (CHR ''/'') (EscapedPath r))"
    "t = (hc_baseURL c)\<lparr>url_Path := url_Path (hc_baseURL c) @ rf_Path r, url_RawPath := [], url_RawQuery := rf_RawQuery r\<rparr>"
    by (auto simp: endpoint_def split: option.splits if_splits)
  have "''..'' \<notin> set (str_split (CHR ''/'') (rf_Path r))" if plain: "CHR ''%'' \<notin> set path"
  proof
    assume up: "''..'' \<in> set (str_split (CHR ''/'') (rf_Path r))"
    have "rf_Path r \<noteq> ''*''" using r(2) by (auto simp: has_prefix_def)
    then have "EscapedPath r \<in> {rf_Path r, escape_path (rf_Path r)}"
      using parse_plain [OF plain r(1)] by (auto simp: EscapedPath_def)
    moreover have "escape_path ''..'' = ''..''" by code_simp
    then have "''..'' \<in> set (str_split (CHR ''/'') (escape_path (rf_Path r)))" using up unfolding split_escape by force
    ultimately have "''..'' \<in> set (str_split (CHR ''/'') (EscapedPath r))" using up by auto
    then show False using r(3) by (auto simp: list_ex_iff)
  qed
  then show ?thesis using r(2,4) by blast
qed

definition example_client :: http_client where
  "example_client = \<lparr>hc_baseURL = \<lparr>url_Scheme = ''http'', url_HasUser = False, url_Host = ''metadata'', url_Path = ''/2016-07-29'',
     url_RawPath = [], url_RawQuery = [], url_Fragment = []\<rparr>, hc_forwardedFor = []\<rparr>"

definition version_url :: url where
  "version_url = (hc_baseURL example_client)\<lparr>url_Path := ''/2016-07-29/version'', url_RawQuery := ''wait=true''\<rparr>"

theorem endpoint_confined_witness:
  "endpoint (Inr example_client) ''/version?wait=true'' = Inr version_url
   \<and> (\<exists>p q. version_url = (hc_baseURL example_client)\<lparr>url_Path := ''/2016-07-29'' @ p, url_RawPath := [], url_RawQuery := q\<rparr>
        \<and> ''..'' \<notin> set (str_split (CHR ''/'') p))"
proof -
  have run: "endpoint (Inr example_client) ''/version?wait=true'' = Inr version_url" by code_simp
  have "url_Path (hc_baseURL example_client) = ''/2016-07-29''" by (simp add: example_client_def)
  moreover have "CHR ''%'' \<notin> set ''/version?wait=true''" by simp
  ultimately show ?thesis using endpoint_confined [OF run] run by metis
qed

text \<open>The guard looks for \<open>..\<close> and for both dots encoded; with one dot encoded the decoded path climbs out of the base
  path all the same.\<close>

lemma mixed_dots_climb:
  "endpoint (Inr example_client) ''/.%2e/secret''
     = Inr ((hc_baseURL example_client)\<lparr>url_Path := ''/2016-07-29/../secret''\<rparr>)"
  "endpoint (Inr example_client) ''/../secret'' = Inl (Errorf ''metadata request path contains traversal'' [])"
  "endpoint (Inr example_client) ''/%2E%2e/secret'' = Inl (Errorf ''metadata request path contains traversal'' [])"
  by code_simp+

text \<open>The requests the program makes itself are accepted.\<close>

lemma own_paths:
  "list_all (\<lambda>path. endpoint (Inr example_client) path = Inr ((hc_baseURL example_client)\<lparr>url_Path := ''/2016-07-29'' @ path\<rparr>))
     [''/version'', ''/self/host'', ''/self/container'', ''/self/service'', ''/self/stack'', ''/services'', ''/stacks'', ''/containers'',
      ''/hosts'', ''/networks'']"
  by code_simp

text \<open>A redirect never leaves the origin, and the sixth request is the last.\<close>

lemma redirect_same_origin:
  "CheckRedirect request (origin # via) = Inr () \<Longrightarrow>
     equal_fold (url_Scheme request) (url_Scheme origin) \<and> equal_fold (url_Host request) (url_Host origin) \<and> length via < 4"
  by (auto simp: CheckRedirect_def split: if_splits)

end
