(* ===== verification/MetaClient.thy ===== *)
theory MetaClient
  imports MetaURL
begin

text \<open>
  The metadata client (\<open>src/internal/metadata/client.go\<close>) above its HTTP transport: what it makes of a reply, how
  it waits for the service at start-up, the queries it answers from other queries, and the change stream
  the watchers hang on.  The transport is one call for each request.
\<close>

section \<open>Replies\<close>

definition maxResponseBytes :: int where "maxResponseBytes = 32 * 2 ^ 20"

datatype http_reply = NoReply gerr | Reply int "string result"

text \<open>The body is read up to one byte beyond the limit.\<close>

definition check_reply :: "http_reply \<Rightarrow> string result" where
  "check_reply reply =
     (case reply of
        NoReply er \<Rightarrow> Inl (Wrapf ''metadata request failed: %w'' [] er)
      | Reply status body \<Rightarrow>
          if status \<noteq> 200 then Inl (Errorf ''metadata request returned HTTP %d'' [int_str status])
          else (case body of
              Inl _ \<Rightarrow> Inl (Errorf ''could not read metadata response'' [])
            | Inr b \<Rightarrow> if maxResponseBytes < int (length b) then Inl (Errorf ''metadata response exceeded size limit'' []) else Inr b))"

definition sendRequestContext :: "metadata_client \<Rightarrow> (url \<Rightarrow> http_reply) \<Rightarrow> string \<Rightarrow> string result" where
  "sendRequestContext client transport path =
     (case endpoint client path of Inl er \<Rightarrow> Inl er | Inr target \<Rightarrow> check_reply (transport target))"

section \<open>Queries answered from others\<close>

definition GetServiceContainers :: "env \<Rightarrow> string \<Rightarrow> string \<Rightarrow> ('a world_scheme, Container list) proc" where
  "GetServiceContainers e serviceName stackName =
     bindP (getContainers e) (\<lambda>containers.
       retP (filter (\<lambda>c. ctr_ServiceName c = serviceName \<and> ctr_StackName c = stackName) containers))"

definition GetHost :: "env \<Rightarrow> string \<Rightarrow> ('a world_scheme, Host) proc" where
  "GetHost e uuid =
     bindP (getHosts e) (\<lambda>hosts.
       case find (\<lambda>h. host_UUID h = uuid) hosts of
         Some h \<Rightarrow> retP h
       | None \<Rightarrow> raiseP (Errorf ''metadata host was not found'' []))"

definition mc_GetVersion :: "env \<Rightarrow> ('a world_scheme, string) proc" where
  "mc_GetVersion e = ask e GetVersion (\<lambda>s. e_version e (trace s))"

section \<open>Waiting for the service\<close>

text \<open>\<open>ctx.Err()\<close> is a function of the history; a pause that the context ends lasts at most its delay.  The loop may
  run forever: then it has no result.\<close>

definition not_ready :: "gerr \<Rightarrow> gerr" where
  "not_ready er = Wrapf ''metadata service did not become ready: %w'' [] er"

definition next_delay :: "int \<Rightarrow> int" where
  "next_delay delay = (if delay < 4 * second then delay * 2 else delay)"

partial_function (option) waitForConnectionContext ::
    "env \<Rightarrow> (event list \<Rightarrow> gerr option) \<Rightarrow> int \<Rightarrow> 'a world_scheme \<Rightarrow> (unit result \<times> 'a world_scheme) option" where
  "waitForConnectionContext e ctx delay s =
     (case ctx (trace s) of
        Some er \<Rightarrow> Some (Inl (not_ready er), s)
      | None \<Rightarrow>
          (case mc_GetVersion e s of
             (Inr _, t) \<Rightarrow> Some (Inr (), t)
           | (Inl _, t) \<Rightarrow>
               (case ctx (trace (snd (time_Sleep delay t))) of
                  Some er \<Rightarrow> Some (Inl (not_ready er), snd (time_Sleep delay t))
                | None \<Rightarrow> waitForConnectionContext e ctx (next_delay delay) (snd (time_Sleep delay t)))))"

definition NewClientAndWaitContext :: "env \<Rightarrow> (event list \<Rightarrow> gerr option) \<Rightarrow> url option \<Rightarrow> 'a world_scheme \<Rightarrow>
    (metadata_client \<times> 'a world_scheme) option" where
  "NewClientAndWaitContext e ctx parsed s =
     (case newHTTPClient parsed [] of
        Inl er \<Rightarrow> Some (Inl er, s)
      | Inr client \<Rightarrow>
          (case waitForConnectionContext e ctx second s of
             None \<Rightarrow> None
           | Some (Inl er, t) \<Rightarrow> Some (Inl er, t)
           | Some (Inr _, t) \<Rightarrow> Some (Inr client, t)))"

section \<open>The change stream\<close>

definition waitVersion :: "env \<Rightarrow> int \<Rightarrow> string \<Rightarrow> ('a world_scheme, string) proc" where
  "waitVersion e maxWait version =
     (let wait = (if maxWait < 1 then 1 else maxWait) in
      ask e (WaitVersion wait version) (\<lambda>s. e_version e (trace s)))"

text \<open>The callback is any procedure; \<open>Callback\<close> marks where it runs.\<close>

definition notify :: "env \<Rightarrow> (string \<Rightarrow> ('a world_scheme, unit) proc) \<Rightarrow> string \<Rightarrow> ('a world_scheme, unit) proc" where
  "notify e callback version = bindP (ignoring (perform e (Callback version))) (\<lambda>_. ignoring (callback version))"

definition change_round :: "env \<Rightarrow> (string \<Rightarrow> ('a world_scheme, unit) proc) \<Rightarrow> int \<Rightarrow> string \<Rightarrow> ('a world_scheme, string) proc" where
  "change_round e callback intervalSeconds version =
     bindP (waitVersion e intervalSeconds version) (\<lambda>new.
       if new \<noteq> version then bindP (notify e callback new) (\<lambda>_. retP new) else retP version)"

text \<open>\<open>OnChangeWithError\<close> returns only when a request fails: its first \<open>n\<close> rounds, with the last version seen.\<close>

fun change_rounds :: "env \<Rightarrow> (string \<Rightarrow> ('a world_scheme, unit) proc) \<Rightarrow> int \<Rightarrow> nat \<Rightarrow> string \<Rightarrow> ('a world_scheme, string) proc" where
  "change_rounds e callback intervalSeconds 0 version = retP version"
| "change_rounds e callback intervalSeconds (Suc n) version =
     bindP (change_round e callback intervalSeconds version) (change_rounds e callback intervalSeconds n)"

definition OnChangeWithError :: "env \<Rightarrow> (string \<Rightarrow> ('a world_scheme, unit) proc) \<Rightarrow> int \<Rightarrow> nat \<Rightarrow> ('a world_scheme, string) proc" where
  "OnChangeWithError e callback intervalSeconds n = change_rounds e callback intervalSeconds n ''init''"

text \<open>\<open>OnChange\<close> never returns: its first \<open>n\<close> rounds; a failed request is logged and the stream starts anew after the
  interval.\<close>

fun on_change_rounds :: "env \<Rightarrow> (string \<Rightarrow> ('a world_scheme, unit) proc) \<Rightarrow> int \<Rightarrow> nat \<Rightarrow> string \<Rightarrow> ('a world_scheme, string) proc" where
  "on_change_rounds e callback intervalSeconds 0 version = retP version"
| "on_change_rounds e callback intervalSeconds (Suc n) version =
     bindP (tryP (change_round e callback intervalSeconds version)) (\<lambda>r.
       case r of
         Inr new \<Rightarrow> on_change_rounds e callback intervalSeconds n new
       | Inl _ \<Rightarrow> bindP (time_Sleep (intervalSeconds * second)) (\<lambda>_. on_change_rounds e callback intervalSeconds n ''init''))"

definition OnChange :: "env \<Rightarrow> (string \<Rightarrow> ('a world_scheme, unit) proc) \<Rightarrow> int \<Rightarrow> nat \<Rightarrow> ('a world_scheme, string) proc" where
  "OnChange e callback intervalSeconds n =
     on_change_rounds e callback (if intervalSeconds < 1 then 1 else intervalSeconds) n ''init''"

section \<open>Properties\<close>

text \<open>The versions the service answered in a history that follows \<open>t\<close>, and the callbacks in one.\<close>

fun answers :: "env \<Rightarrow> event list \<Rightarrow> event list \<Rightarrow> string list" where
  "answers e t [] = []"
| "answers e t (ev # u) =
     (case ev of (WaitVersion _ _, None) \<Rightarrow> [e_version e t] | _ \<Rightarrow> []) @ answers e (t @ [ev]) u"

fun called_back :: "call \<Rightarrow> string option" where
  "called_back (Callback v) = Some v"
| "called_back _ = None"

definition callbacks :: "event list \<Rightarrow> string list" where
  "callbacks u = List.map_filter called_back (calls_of u)"

definition stream_call :: "call \<Rightarrow> bool" where
  "stream_call c \<longleftrightarrow> (\<exists>v. c = Callback v) \<or> (\<exists>m v. c = WaitVersion m v)"

lemma answers_append: "answers e t (u @ v) = answers e t u @ answers e (t @ u) v"
  by (induction u arbitrary: t) simp_all

lemma callbacks_append [simp]: "callbacks (u @ v) = callbacks u @ callbacks v"
  by (simp add: callbacks_def map_filter_def)

lemma other_calls:
  assumes "\<forall>ev \<in> set u. \<not> stream_call (fst ev)"
  shows "answers e t u = [] \<and> callbacks u = []"
  using assms
proof (induction u arbitrary: t)
  case (Cons ev u)
  obtain c o' where ev: "ev = (c, o')" by fastforce
  have "\<not> stream_call c" using Cons.prems by (simp add: ev)
  then have "called_back c = None" "(case ev of (WaitVersion _ _, None) \<Rightarrow> [e_version e t] | _ \<Rightarrow> []) = []"
    by (cases c; simp add: stream_call_def ev)+
  then show ?case using Cons by (simp add: callbacks_def map_filter_def ev)
qed (simp add: callbacks_def map_filter_def)

lemma notify_run:
  assumes "\<And>v. emits (\<lambda>c. \<not> stream_call c) (callback v)"
  shows "\<exists>s' u. notify e callback v s = (Inr (), s') \<and> trace s' = trace s @ u \<and> answers e' t u = [] \<and> callbacks u = [v]"
proof -
  let ?t = "after e (Callback v) s"
  obtain s' where s': "ignoring (callback v) ?t = (Inr (), s')" using ignoring_inr [of "callback v" ?t] by blast
  from emitsD [OF emits_ignoring [OF assms] this] obtain w where w: "trace s' = trace ?t @ w" "\<forall>ev \<in> set w. \<not> stream_call (fst ev)"
    by (auto simp: since_def)
  have "trace s' = trace s @ ((Callback v, outcome e (Callback v) s) # w)" using w(1) by simp
  moreover have "notify e callback v s = (Inr (), s')" by (simp add: notify_def bindP_def ignoring_perform s')
  ultimately show ?thesis using other_calls [OF w(2)] by (fastforce simp: callbacks_def map_filter_def)
qed

lemma change_rounds_callbacks:
  assumes "\<And>v. emits (\<lambda>c. \<not> stream_call c) (callback v)" and "change_rounds e callback i n version s = (r, s')"
  shows "\<exists>u. trace s' = trace s @ u \<and> callbacks u = tl (remdups_adj (version # answers e (trace s) u))
    \<and> (\<forall>v. r = Inr v \<longrightarrow> length (answers e (trace s) u) = n \<and> v = last (version # answers e (trace s) u))"
  using assms(2)
proof (induction n arbitrary: version s)
  case 0
  then show ?case by (intro exI [of _ "[]"]) (auto simp: retP_def callbacks_def map_filter_def)
next
  case (Suc n)
  let ?c = "WaitVersion (if i < 1 then 1 else i) version"
  let ?t = "after e ?c s"
  let ?new = "e_version e (trace s)"
  have head: "waitVersion e i version s = (case outcome e ?c s of None \<Rightarrow> Inr ?new | Some er \<Rightarrow> Inl er, ?t)"
    by (simp add: waitVersion_def Let_def ask_def)
  show ?case
  proof (cases "outcome e ?c s")
    case (Some er)
    then have "s' = ?t" "r = Inl er" using Suc.prems head by (auto simp: change_round_def bindP_def)
    then show ?thesis using Some
      by (intro exI [of _ "[(?c, Some er)]"]) (simp add: callbacks_def map_filter_def)
  next
    case None
    show ?thesis
    proof (cases "?new = version")
      case True
      then have "change_rounds e callback i n version ?t = (r, s')"
        using Suc.prems head None by (simp add: change_round_def bindP_def retP_def)
      from Suc.IH [OF this] obtain u where u: "trace s' = trace ?t @ u" "callbacks u = tl (remdups_adj (version # answers e (trace ?t) u))"
        "\<forall>v. r = Inr v \<longrightarrow> length (answers e (trace ?t) u) = n \<and> v = last (version # answers e (trace ?t) u)" by blast
      have "trace s' = trace s @ ((?c, None) # u)" using u(1) None by simp
      then show ?thesis using u(2,3) True None
        by (intro exI [of _ "(?c, None) # u"]) (simp add: callbacks_def map_filter_def)
    next
      case False
      obtain t' w where w: "notify e callback ?new ?t = (Inr (), t')" "trace t' = trace ?t @ w" "answers e (trace ?t) w = []" "callbacks w = [?new]"
        using notify_run [of callback e ?new ?t e "trace ?t", OF assms(1)] by blast
      then have "change_rounds e callback i n ?new t' = (r, s')"
        using Suc.prems head None False by (simp add: change_round_def bindP_def retP_def)
      from Suc.IH [OF this] obtain u where u: "trace s' = trace t' @ u" "callbacks u = tl (remdups_adj (?new # answers e (trace t') u))"
        "\<forall>v. r = Inr v \<longrightarrow> length (answers e (trace t') u) = n \<and> v = last (?new # answers e (trace t') u)" by blast
      let ?u = "(?c, None) # w @ u"
      have tr: "trace s' = trace s @ ?u" using u(1) w(2) None by simp
      have ans: "answers e (trace s) ?u = ?new # answers e (trace t') u"
        using w(2,3) None by (simp add: answers_append)
      have cb: "callbacks ?u = ?new # callbacks u" using w(4) by (simp add: callbacks_def map_filter_def)
      have "remdups_adj (?new # xs) = ?new # tl (remdups_adj (?new # xs))" for xs
        by (metis list.collapse remdups_adj_Nil_iff list.distinct(1) hd_remdups_adj list.sel(1))
      then have "callbacks ?u = tl (remdups_adj (version # ?new # answers e (trace t') u))"
        using u(2) False unfolding cb by simp
      then show ?thesis using tr u(3) unfolding ans [symmetric] by (intro exI [of _ ?u] conjI) (simp_all only: ans, auto)
    qed
  qed
qed

text \<open>C40: A watcher is called exactly when the metadata changed: in any number of rounds of the change stream, the
  versions the callback ran with are the versions the service answered, in order, without repetitions of the
  one before - starting with the first answer, unless it is \<open>init\<close>.\<close>

theorem callback_per_change:
  assumes "\<And>v. emits (\<lambda>c. \<not> stream_call c) (callback v)" and "OnChangeWithError e callback i n s = (r, s')"
  shows "\<exists>u. trace s' = trace s @ u \<and> callbacks u = tl (remdups_adj (''init'' # answers e (trace s) u))
    \<and> (case r of Inr v \<Rightarrow> length (answers e (trace s) u) = n \<and> v = last (''init'' # answers e (trace s) u) | Inl _ \<Rightarrow> True)"
  using change_rounds_callbacks [OF assms(1) assms(2) [unfolded OnChangeWithError_def]] by (auto split: sum.split)

definition changing_env :: env where
  "changing_env = quiet_env\<lparr>e_version := \<lambda>h. if length h < 3 then ''1'' else ''2''\<rparr>"

definition stream_start :: world where
  "stream_start = \<lparr>trace = [], files = (\<lambda>_. None)\<rparr>"

lemma changing_runs:
  "fst (OnChangeWithError changing_env (\<lambda>_. retP ()) 5 3 stream_start) = Inr ''2''"
  "answers changing_env [] (trace (snd (OnChangeWithError changing_env (\<lambda>_. retP ()) 5 3 stream_start))) = [''1'', ''1'', ''2'']"
  by code_simp+

theorem callback_per_change_witness:
  "callbacks (trace (snd (OnChangeWithError changing_env (\<lambda>_. retP ()) 5 3 stream_start))) = [''1'', ''2'']"
proof -
  obtain s' where h: "OnChangeWithError changing_env (\<lambda>_. retP ()) 5 3 stream_start = (Inr ''2'', s')"
    using changing_runs(1) by (cases "OnChangeWithError changing_env (\<lambda>_. retP ()) 5 3 stream_start") simp
  have start: "trace stream_start = []" by (simp add: stream_start_def)
  have quiet: "emits (\<lambda>c. \<not> stream_call c) (retP ())" for v :: string by (rule emits_basic(1))
  from callback_per_change [of "\<lambda>_. retP ()", OF quiet h] obtain u where u: "trace s' = u"
    "callbacks u = tl (remdups_adj (''init'' # answers changing_env [] u))" unfolding start by auto
  have "answers changing_env [] u = [''1'', ''1'', ''2'']" using changing_runs(2) unfolding h snd_conv u(1) .
  then show ?thesis unfolding h snd_conv u(1) u(2) by simp
qed

subsection \<open>The wait\<close>

definition version_requests :: "event list \<Rightarrow> nat" where
  "version_requests u = length (filter ((=) GetVersion) (calls_of u))"

lemma version_requests_simps [simp]:
  "version_requests [] = 0" "version_requests (u @ v) = version_requests u + version_requests v"
  "version_requests ((c, o') # u) = (if c = GetVersion then Suc (version_requests u) else version_requests u)"
  by (simp_all add: version_requests_def)

text \<open>The pause after the \<open>k\<close>-th failure.\<close>

definition backoff :: "nat \<Rightarrow> int" where
  "backoff k = min (2 ^ k) 4 * second"

lemma backoff_next: "next_delay (backoff k) = backoff (Suc k)"
proof (cases "k < 2")
  case True
  then have "k = 0 \<or> k = 1" by arith
  then show ?thesis by (auto simp: backoff_def next_delay_def second_def)
next
  case False
  then have "(2::int) ^ 2 \<le> 2 ^ k" by (intro power_increasing) simp_all
  then show ?thesis by (simp add: backoff_def next_delay_def second_def)
qed

definition attempts :: "nat \<Rightarrow> nat \<Rightarrow> call list" where
  "attempts k n = concat (map (\<lambda>j. [GetVersion, Sleep (backoff j)]) [k..<n]) @ [GetVersion]"

lemma attempts_step: "k < n \<Longrightarrow> attempts k n = GetVersion # Sleep (backoff k) # attempts (Suc k) n"
  by (simp add: attempts_def upt_conv_Cons)

lemma wait_runs:
  assumes "\<And>h. ctx h = None" and "\<And>h. e_fail e h GetVersion = None \<longleftrightarrow> n \<le> version_requests h"
  shows "version_requests (trace s) + d = n \<Longrightarrow> \<exists>s' u. waitForConnectionContext e ctx (backoff (version_requests (trace s))) s = Some (Inr (), s')
    \<and> trace s' = trace s @ u \<and> calls_of u = attempts (version_requests (trace s)) n"
proof (induction d arbitrary: s)
  case 0
  then have ok: "outcome e GetVersion s = None" using assms(2) [of "trace s"] by (simp add: outcome_def)
  have "waitForConnectionContext e ctx (backoff (version_requests (trace s))) s = Some (Inr (), after e GetVersion s)"
    by (subst waitForConnectionContext.simps) (simp add: assms(1) mc_GetVersion_def ask_def ok)
  then show ?case using 0 ok by (simp add: attempts_def)
next
  case (Suc d)
  then have "e_fail e (trace s) GetVersion \<noteq> None" using assms(2) [of "trace s"] by auto
  then obtain er where er: "outcome e GetVersion s = Some er" by (auto simp: outcome_def)
  let ?k = "version_requests (trace s)"
  let ?t = "snd (time_Sleep (backoff ?k) (after e GetVersion s))"
  have tr: "trace ?t = trace s @ [(GetVersion, Some er), (Sleep (backoff ?k), None)]" by (simp add: time_Sleep_def er)
  then have k: "version_requests (trace ?t) = Suc ?k" by simp
  have step: "waitForConnectionContext e ctx (backoff ?k) s = waitForConnectionContext e ctx (backoff (Suc ?k)) ?t"
    by (subst waitForConnectionContext.simps) (simp add: assms(1) mc_GetVersion_def ask_def er backoff_next)
  have "version_requests (trace ?t) + d = n" using Suc.prems unfolding k by simp
  from Suc.IH [OF this] obtain s' u where u: "waitForConnectionContext e ctx (backoff (Suc ?k)) ?t = Some (Inr (), s')"
    "trace s' = trace ?t @ u" "calls_of u = attempts (Suc ?k) n" unfolding k by blast
  have "trace s' = trace s @ ((GetVersion, Some er) # (Sleep (backoff ?k), None) # u)" using u(2) unfolding tr by simp
  moreover have "?k < n" using Suc.prems by simp
  ultimately show ?case unfolding step using u(1,3) by (simp add: attempts_step)
qed

text \<open>Start-up waits for the metadata service and no longer than it has to: if the service answers from its
  \<open>n+1\<close>-st request on and the context is not cancelled, the wait ends with success after exactly that request,
  with pauses of one, two and then four seconds in between.\<close>

theorem metadata_wait_returns:
  assumes "\<And>h. ctx h = None" and "\<And>h. e_fail e h GetVersion = None \<longleftrightarrow> n \<le> version_requests h"
    and "version_requests (trace s) = 0"
  shows "\<exists>s' u. waitForConnectionContext e ctx second s = Some (Inr (), s') \<and> trace s' = trace s @ u
    \<and> calls_of u = concat (map (\<lambda>k. [GetVersion, Sleep (min (2 ^ k) 4 * second)]) [0..<n]) @ [GetVersion]"
proof -
  have "backoff 0 = second" by (simp add: backoff_def)
  then show ?thesis using wait_runs [of ctx e n s n, OF assms(1,2)] assms(3) by (simp add: attempts_def backoff_def)
qed

definition slow_env :: env where
  "slow_env = quiet_env\<lparr>e_fail := \<lambda>h c. if c = GetVersion \<and> version_requests h < 4 then Some (EnvErr ''refused'') else None\<rparr>"

theorem metadata_wait_returns_witness:
  "\<exists>s' u. waitForConnectionContext slow_env (\<lambda>_. None) second stream_start = Some (Inr (), s') \<and> trace s' = u
     \<and> calls_of u = [GetVersion, Sleep second, GetVersion, Sleep (2 * second), GetVersion, Sleep (4 * second),
                     GetVersion, Sleep (4 * second), GetVersion]"
proof -
  have env: "e_fail slow_env h GetVersion = None \<longleftrightarrow> 4 \<le> version_requests h" for h by (simp add: slow_env_def)
  have start: "trace stream_start = []" by (simp add: stream_start_def)
  have list: "concat (map (\<lambda>k. [GetVersion, Sleep (min (2 ^ k) 4 * second)]) [0..<4]) @ [GetVersion]
    = [GetVersion, Sleep second, GetVersion, Sleep (2 * second), GetVersion, Sleep (4 * second),
       GetVersion, Sleep (4 * second), GetVersion]" by code_simp
  have zero: "version_requests (trace stream_start) = 0" by (simp add: start)
  from metadata_wait_returns [of "\<lambda>_. None" slow_env 4 stream_start, OF refl env zero] show ?thesis
    unfolding list start by simp
qed

end
