(* ===== verification/JsonText.thy ===== *)
theory JsonText
  imports CniConf
begin

text \<open>
  What \<open>json.MarshalIndent\<close> writes, \<open>json.Unmarshal\<close> reads back: every printed value parses to the value it was
  printed from, with the members of objects in key order.  \<open>shown t v\<close> says that \<open>t\<close> is read as \<open>v\<close> wherever it
  stands in a document; it composes over arrays and objects, whatever white space separates their parts.
\<close>

section \<open>Strings\<close>

lemma char_code: "0 \<le> (of_char c :: int)" "(of_char c :: int) < 256"
  by (simp_all add: of_char_def)

lemma hex_digit_val:
  assumes "0 \<le> n" and "n < 16"
  shows "(if is_digit (hex_digit n) then Some (digit_val (hex_digit n))
     else if CHR ''a'' \<le> hex_digit n \<and> hex_digit n \<le> CHR ''f'' then Some (of_char (hex_digit n) - 87)
     else if CHR ''A'' \<le> hex_digit n \<and> hex_digit n \<le> CHR ''F'' then Some (of_char (hex_digit n) - 55) else (None :: int option)) = Some n"
proof -
  have "n \<in> {0, 1, 2, 3, 4, 5, 6, 7, 8, 9, 10, 11, 12, 13, 14, 15}" using assms unfolding insert_iff empty_iff by presburger
  then show ?thesis by (elim insertE emptyE; hypsubst) code_simp+
qed

lemma hex4_code: "hex4 (CHR ''0'' # CHR ''0'' # hex_digit (of_char c div 16) # hex_digit (of_char c mod 16) # t) = Some (of_char c)"
proof -
  have z: "is_digit (CHR ''0'')" "digit_val (CHR ''0'') = 0" by code_simp+
  have r: "0 \<le> of_char c div (16 :: int)" "of_char c div (16 :: int) < 16" "0 \<le> of_char c mod (16 :: int)" "of_char c mod (16 :: int) < 16"
    using char_code [of c] by auto
  show ?thesis
    using hex_digit_val [OF r(1,2)] hex_digit_val [OF r(3,4)] by (simp add: hex4_def z Let_def)
qed

lemma lex_escape: "lex_string (json_escape c @ t) acc = lex_string t (acc @ [c])"
proof -
  have u: "unicode_escape (of_char c) s = ([c], 0)" if "(of_char c :: int) < 128" for s
    using that char_code [of c] by (simp add: unicode_escape_def utf8_def)
  have small: "(of_char c :: int) < 128" if "c < CHR 0x20 \<or> c = CHR ''<'' \<or> c = CHR ''>'' \<or> c = CHR ''&''"
    using that by (auto simp: less_char_def of_char_def)
  show ?thesis
  proof (cases "c < CHR 0x20 \<or> c = CHR ''<'' \<or> c = CHR ''>'' \<or> c = CHR ''&''")
    case True
    show ?thesis using hex4_code [of c t] u [OF small [OF True]] True
      by (simp add: json_escape_def simple_escape_def)
  next
    case False
    then have "c \<noteq> CHR 0x0A" "c \<noteq> CHR 0x0D" "c \<noteq> CHR 0x09" "c \<noteq> CHR 0x08" "c \<noteq> CHR 0x0C"
      by (auto simp: less_char_def)
    then show ?thesis using False by (simp add: json_escape_def simple_escape_def)
  qed
qed

lemma lex_separator:
  "lex_string (CHR 0x5C # ''u2028'' @ t) acc = lex_string t (acc @ [CHR 0xE2, CHR 0x80, CHR 0xA8])"
  "lex_string (CHR 0x5C # ''u2029'' @ t) acc = lex_string t (acc @ [CHR 0xE2, CHR 0x80, CHR 0xA9])"
proof -
  have h: "hex4 (''2028'' @ t) = Some 0x2028" "hex4 (''2029'' @ t) = Some 0x2029" for t 
  proof -
    have "is_digit (CHR ''0'')" "digit_val (CHR ''0'') = 0" "is_digit (CHR ''2'')" "digit_val (CHR ''2'') = 2"
      "is_digit (CHR ''8'')" "digit_val (CHR ''8'') = 8" "is_digit (CHR ''9'')" "digit_val (CHR ''9'') = 9" by code_simp+
    then show "hex4 (''2028'' @ t) = Some 0x2028" "hex4 (''2029'' @ t) = Some 0x2029" by (simp_all add: hex4_def Let_def)
  qed
  have "unicode_escape 0x2028 s = ([CHR 0xE2, CHR 0x80, CHR 0xA8], 0)" "unicode_escape 0x2029 s = ([CHR 0xE2, CHR 0x80, CHR 0xA9], 0)" for s
    by (simp_all add: unicode_escape_def utf8_def) code_simp+
  then show "lex_string (CHR 0x5C # ''u2028'' @ t) acc = lex_string t (acc @ [CHR 0xE2, CHR 0x80, CHR 0xA8])"
    "lex_string (CHR 0x5C # ''u2029'' @ t) acc = lex_string t (acc @ [CHR 0xE2, CHR 0x80, CHR 0xA9])"
    using h by (simp_all add: less_char_def)
qed

text \<open>Every string is read back from its quoted form.\<close>

lemma lex_text: "lex_string (escape_text s @ t) acc = lex_string t (acc @ s)"
proof (induction s arbitrary: acc rule: escape_text.induct)
  case (2 c s)
  show ?case
  proof (cases "c = CHR 0xE2 \<and> (prefix [CHR 0x80, CHR 0xA8] s \<or> prefix [CHR 0x80, CHR 0xA9] s)")
    case True
    then obtain x u where "s = CHR 0x80 # x # u" "x = CHR 0xA8 \<or> x = CHR 0xA9" by (auto simp: prefix_def)
    then show ?thesis using True 2(1,2) lex_separator by (auto simp del: lex_string.simps)
  next
    case False
    then show ?thesis using 2(3) by (auto simp: lex_escape simp del: lex_string.simps)
  qed
qed simp

lemma lex_text_quoted: "lex_string (escape_text s @ CHR 0x22 # r) [] = Some (s, r)"
  by (simp add: lex_text)

section \<open>Numbers\<close>

text \<open>What may follow a value in a document.\<close>

definition stop :: "string \<Rightarrow> bool" where
  "stop r \<longleftrightarrow> r = [] \<or> hd r \<in> set '',]}'' \<or> json_space (hd r)"

definition json_number :: "string \<Rightarrow> bool" where
  "json_number l \<longleftrightarrow> l \<noteq> [] \<and> (hd l = CHR ''-'' \<or> is_digit (hd l)) \<and> lex_number l = Some (l, [])"

lemma stop_Cons: "stop (c # r) \<longleftrightarrow> c \<in> set '',]}'' \<or> json_space c"
  by (simp add: stop_def)

lemma stop_char:
  assumes "stop r" and "r \<noteq> []"
  shows "\<not> is_digit (hd r)" "hd r \<noteq> CHR ''.''" "hd r \<noteq> CHR ''e''" "hd r \<noteq> CHR ''E''" "hd r \<noteq> CHR ''-''" "hd r \<noteq> CHR ''+''"
proof -
  have "hd r \<in> {CHR '','', CHR '']'', CHR ''}'', CHR 0x20, CHR 0x09, CHR 0x0A, CHR 0x0D}"
    using assms by (auto simp: stop_def json_space_def)
  then show "\<not> is_digit (hd r)" "hd r \<noteq> CHR ''.''" "hd r \<noteq> CHR ''e''" "hd r \<noteq> CHR ''E''" "hd r \<noteq> CHR ''-''" "hd r \<noteq> CHR ''+''"
    by (auto simp: is_digit_def less_eq_char_def)
qed

lemma digits_stop: "stop r \<Longrightarrow> digits_of (s @ r) = digits_of s"
proof (induction s)
  case Nil
  then show ?case using stop_char(1) [OF Nil] by (cases r) (auto simp: digits_of_def)
qed (simp add: digits_of_def)

lemma parts_stop:
  assumes "stop r"
  shows "int_part (s @ r) = int_part s" "frac_part (s @ r) = frac_part s" "exp_part (s @ r) = exp_part s"
proof -
  show "int_part (s @ r) = int_part s" using digits_stop [OF assms] by (simp add: int_part_def)
  show "frac_part (s @ r) = frac_part s"
    using stop_char [OF assms] digits_stop [OF assms] by (cases s) (auto simp: frac_part_def)
  have sign: "(tl s @ r \<noteq> [] \<and> (hd (tl s @ r) = CHR ''+'' \<or> hd (tl s @ r) = CHR ''-''))
      \<longleftrightarrow> (tl s \<noteq> [] \<and> (hd (tl s) = CHR ''+'' \<or> hd (tl s) = CHR ''-''))"
    using stop_char [OF assms] by (cases "tl s") auto
  have rest: "digits_of (drop n (t @ r)) = digits_of (drop n t)" if "n \<le> length t" for n t
    using that digits_stop [OF assms] by simp
  show "exp_part (s @ r) = exp_part s"
  proof (cases s)
    case Nil
    then show ?thesis using stop_char [OF assms] by (auto simp: exp_part_def)
  next
    case (Cons c t)
    show ?thesis using sign rest [of 0 t] rest [of 1 t] by (cases t) (auto simp: exp_part_def Cons Let_def)
  qed
qed

lemma lex_number_stop:
  assumes "json_number l" and "stop r"
  shows "lex_number (l @ r) = Some (l, r)"
proof -
  define sg where "sg = (if hd l = CHR ''-'' then ''-'' else [])"
  define u where "u = drop (length sg) l"
  have l: "l \<noteq> []" "lex_number l = Some (l, [])" using assms(1) by (simp_all add: json_number_def)
  then have ap: "drop (length sg) (l @ r) = u @ r" by (cases l) (auto simp: sg_def u_def)
  from l obtain ip fp ep where p: "int_part u = Some ip" "frac_part (drop (length ip) u) = Some fp"
    "exp_part (drop (length (ip @ fp)) u) = Some ep" "sg @ ip @ fp @ ep = l" "length u \<le> length (ip @ fp @ ep)"
    by (auto simp: lex_number_def Let_def sg_def u_def split: option.splits)
  have lu: "u = ip @ fp @ ep" using p(4) by (auto simp: u_def)
  have "int_part (u @ r) = Some ip" "frac_part (drop (length ip) (u @ r)) = Some fp"
    "exp_part (drop (length (ip @ fp)) (u @ r)) = Some ep"
    using p(1,2,3) parts_stop [OF assms(2), of "ip @ fp @ ep"] parts_stop [OF assms(2), of "fp @ ep"] parts_stop [OF assms(2), of ep]
    by (simp_all add: lu)
  then show ?thesis using ap l(1) p(4) by (simp add: lex_number_def Let_def sg_def lu)
qed

section \<open>Values\<close>

definition shown :: "string \<Rightarrow> json \<Rightarrow> bool" where
  "shown t v \<longleftrightarrow> (\<forall>r. stop r \<longrightarrow> reads (t @ r) v r)"

lemma shownI: "(\<And>r n. stop r \<Longrightarrow> 2 * length (t @ r) \<le> n \<Longrightarrow> j_value (Suc n) (t @ r) = Some (v, r)) \<Longrightarrow> shown t v"
  unfolding shown_def reads_def by (metis Suc_eq_plus1 Suc_le_D Suc_le_mono)

lemma shownD: "shown t v \<Longrightarrow> stop r \<Longrightarrow> 2 * length (t @ r) + 1 \<le> n \<Longrightarrow> j_value n (t @ r) = Some (v, r)"
  by (simp add: shown_def reads_def)

lemma shown_parse: "shown t v \<Longrightarrow> json_parse t = Some v"
  using json_parse_reads [of t v "[]"] by (auto simp: shown_def stop_def skip_ws_def dest: spec [of _ "[]"])

text \<open>White space before a value or a delimiter.\<close>

definition blank :: "string \<Rightarrow> bool" where
  "blank w \<longleftrightarrow> list_all json_space w"

lemma skip_blank: "blank w \<Longrightarrow> skip_ws (w @ s) = skip_ws s"
  by (induction w) (simp_all add: blank_def skip_ws_def)

lemma stop_blank: "blank w \<Longrightarrow> stop s \<Longrightarrow> stop (w @ s)"
  by (cases w) (simp_all add: blank_def stop_def)

lemma skip_delimiter:
  "skip_ws (CHR '','' # r) = CHR '','' # r" "skip_ws (CHR '']'' # r) = CHR '']'' # r" "skip_ws (CHR ''}'' # r) = CHR ''}'' # r"
  "skip_ws (CHR '':'' # r) = CHR '':'' # r" "skip_ws (CHR 0x22 # r) = CHR 0x22 # r" "skip_ws (CHR ''['' # r) = CHR ''['' # r"
  "skip_ws (CHR ''{'' # r) = CHR ''{'' # r"
  by (simp_all add: skip_ws_def json_space_def)

lemma j_value_blank: "blank w \<Longrightarrow> j_value n (w @ s) = j_value n s"
  by (cases n) (simp_all add: skip_blank)

text \<open>No value starts with a closing bracket.\<close>

lemma value_start:
  assumes "j_value n s = Some (v, r)"
  shows "\<exists>c u. skip_ws s = c # u \<and> c \<noteq> CHR '']'' \<and> c \<noteq> CHR ''}''"
proof -
  obtain m where n: "n = Suc m" using assms by (cases n) auto
  obtain c u where c: "skip_ws s = c # u" using assms by (cases "skip_ws s") (auto simp: n)
  have "\<not> is_digit (CHR '']'')" "\<not> is_digit (CHR ''}'')" by code_simp+
  then have "lex_number (CHR '']'' # u) = None" "lex_number (CHR ''}'' # u) = None"
    by (simp_all add: lex_number_def int_part_def digits_of_def)
  then have "c \<noteq> CHR '']'' \<and> c \<noteq> CHR ''}''" using assms by (auto simp: n c has_prefix_def)
  then show ?thesis using c by blast
qed

lemma shown_literals: "shown ''null'' JNull" "shown (json_bool b) (JBool b)"
  by (rule shownI, cases b; simp add: json_bool_def skip_ws_def json_space_def has_prefix_def)+

lemma shown_string: "shown (text_quote s) (JStr s)"
  by (rule shownI) (simp add: text_quote_def skip_delimiter lex_text_quoted)

lemma shown_number: assumes "json_number l" shows "shown l (JNum l)"
proof (rule shownI)
  fix r n assume "stop r"
  obtain c u where l: "l = c # u" "c = CHR ''-'' \<or> is_digit c" using assms by (cases l) (auto simp: json_number_def)
  then have "c \<noteq> CHR 0x22" "c \<noteq> CHR ''{''" "c \<noteq> CHR ''[''" "c \<noteq> CHR ''t''" "c \<noteq> CHR ''f''" "c \<noteq> CHR ''n''" "\<not> json_space c"
    by (auto simp: is_digit_def less_eq_char_def json_space_def)
  then show "j_value (Suc n) (l @ r) = Some (JNum l, r)"
    using lex_number_stop [OF assms \<open>stop r\<close>] by (simp add: l skip_ws_def has_prefix_def)
qed

section \<open>Arrays and objects\<close>

text \<open>The parts of a container: each is blank space and a text, separated by commas.\<close>

lemma elems_read:
  assumes "vs \<noteq> []" and "list_all2 (\<lambda>t v. shown t v) ts vs" and "blank w" and "blank w'"
    and "2 * length (str_join '','' (map (\<lambda>t. w @ t) ts) @ w' @ '']'' @ r) + 2 \<le> n"
  shows "j_elems n (str_join '','' (map (\<lambda>t. w @ t) ts) @ w' @ '']'' @ r) acc = Some (JArr (acc @ vs), r)"
  using assms(1,2,5)
proof (induction vs arbitrary: ts n acc)
  case (Cons v vs)
  then obtain t us where ts: "ts = t # us" and t: "shown t v" and us: "list_all2 (\<lambda>t v. shown t v) us vs" by (auto simp: list_all2_Cons2)
  obtain m where n: "n = Suc m" using Cons.prems(3) by (cases n) auto
  show ?case
  proof (cases "vs = []")
    case True
    then have "us = []" using us by simp
    have "j_value m (w @ t @ w' @ '']'' @ r) = Some (v, w' @ '']'' @ r)"
      unfolding j_value_blank [OF assms(3)] using Cons.prems(3) n
      by (intro shownD [OF t] stop_blank [OF assms(4)]) (auto simp: stop_Cons ts \<open>us = []\<close>)
    then show ?thesis by (simp add: n ts \<open>us = []\<close> True skip_blank [OF assms(4)] skip_delimiter)
  next
    case False
    then have "us \<noteq> []" using us by auto
    let ?rest = "str_join '','' (map (\<lambda>t. w @ t) us) @ w' @ '']'' @ r"
    have tx: "str_join '','' (map (\<lambda>t. w @ t) ts) @ w' @ '']'' @ r = w @ t @ CHR '','' # ?rest"
      using \<open>us \<noteq> []\<close> by (simp add: ts str_join_Cons)
    have "j_value m (w @ t @ CHR '','' # ?rest) = Some (v, CHR '','' # ?rest)"
      unfolding j_value_blank [OF assms(3)] using Cons.prems(3) n unfolding tx
      by (intro shownD [OF t]) (auto simp: stop_Cons)
    moreover have "j_elems m ?rest (acc @ [v]) = Some (JArr ((acc @ [v]) @ vs), r)"
      using Cons.prems(3) n unfolding tx by (intro Cons.IH [OF False us]) auto
    ultimately show ?thesis unfolding tx by (simp add: n skip_delimiter)
  qed
qed simp

lemma shown_array:
  assumes "list_all2 (\<lambda>t v. shown t v) ts vs" and "blank w" and "blank w'" and "ts \<noteq> []"
  shows "shown (''['' @ str_join '','' (map (\<lambda>t. w @ t) ts) @ w' @ '']'') (JArr vs)"
proof (rule shownI)
  fix r n assume n: "2 * length ((''['' @ str_join '','' (map (\<lambda>t. w @ t) ts) @ w' @ '']'') @ r) \<le> n"
  let ?s = "str_join '','' (map (\<lambda>t. w @ t) ts) @ w' @ '']'' @ r"
  have vs: "vs \<noteq> []" using assms(1,4) by auto
  have len: "2 * length ?s + 2 \<le> n" using n by simp
  note e = elems_read [OF vs assms(1-3) len, of "[]"]
  then have "\<exists>c u. skip_ws ?s = c # u \<and> c \<noteq> CHR '']''"
    using value_start by (cases n) (fastforce split: option.splits)+
  then obtain c u where "skip_ws ?s = c # u" "c \<noteq> CHR '']''" by blast
  then show "j_value (Suc n) ((''['' @ str_join '','' (map (\<lambda>t. w @ t) ts) @ w' @ '']'') @ r) = Some (JArr vs, r)"
    using e by (simp add: skip_delimiter del: j_elems.simps)
qed

definition member :: "string \<Rightarrow> string \<Rightarrow> string \<times> string \<Rightarrow> string" where
  "member w w2 kv = w @ text_quote (fst kv) @ '':'' @ w2 @ snd kv"

definition member_shown :: "string \<times> string \<Rightarrow> string \<times> json \<Rightarrow> bool" where
  "member_shown a b \<longleftrightarrow> fst a = fst b \<and> shown (snd a) (snd b)"

lemma members_read:
  assumes "ms \<noteq> []" and "list_all2 member_shown ts ms" and "blank w" and "blank w2" and "blank w'"
    and "2 * length (str_join '','' (map (member w w2) ts) @ w' @ ''}'' @ r) + 2 \<le> n"
  shows "j_members n (str_join '','' (map (member w w2) ts) @ w' @ ''}'' @ r) acc = Some (JObj (acc @ ms), r)"
  using assms(1,2,6)
proof (induction ms arbitrary: ts n acc)
  case (Cons kv ms)
  then obtain a us where ts: "ts = a # us" and a: "member_shown a kv" and us: "list_all2 member_shown us ms"
    by (auto simp: list_all2_Cons2)
  obtain k v t where kv: "kv = (k, v)" "a = (k, t)" and t: "shown t v" using a by (cases kv; cases a) (simp add: member_shown_def)
  obtain m where n: "n = Suc m" using Cons.prems(3) by (cases n) auto
  have head: "skip_ws (member w w2 a @ s) = CHR 0x22 # escape_text k @ CHR 0x22 # CHR '':'' # w2 @ t @ s" for s
    by (simp add: member_def kv(2) text_quote_def skip_blank [OF assms(3)] skip_delimiter)
  have len: "2 * length (t @ s) + 1 \<le> m" if "2 * length (member w w2 a @ s) + 2 \<le> n" for s
    using that by (simp add: n member_def kv(2))
  show ?case
  proof (cases "ms = []")
    case True
    then have "us = []" using us by simp
    have "j_value m (w2 @ t @ w' @ ''}'' @ r) = Some (v, w' @ ''}'' @ r)"
      unfolding j_value_blank [OF assms(4)] using Cons.prems(3) len [of "w' @ ''}'' @ r"]
      by (intro shownD [OF t] stop_blank [OF assms(5)]) (auto simp: stop_Cons ts \<open>us = []\<close>)
    then show ?thesis
      using head [of "w' @ ''}'' @ r"] by (simp add: n ts \<open>us = []\<close> True kv(1) lex_text_quoted skip_blank [OF assms(5)] skip_delimiter)
  next
    case False
    then have "us \<noteq> []" using us by auto
    let ?rest = "str_join '','' (map (member w w2) us) @ w' @ ''}'' @ r"
    have tx: "str_join '','' (map (member w w2) ts) @ w' @ ''}'' @ r = member w w2 a @ CHR '','' # ?rest"
      using \<open>us \<noteq> []\<close> by (simp add: ts str_join_Cons)
    have "j_value m (w2 @ t @ CHR '','' # ?rest) = Some (v, CHR '','' # ?rest)"
      unfolding j_value_blank [OF assms(4)] using Cons.prems(3) len [of "CHR '','' # ?rest"] unfolding tx
      by (intro shownD [OF t]) (auto simp: stop_Cons)
    moreover have "j_members m ?rest (acc @ [kv]) = Some (JObj ((acc @ [kv]) @ ms), r)"
      using Cons.prems(3) n unfolding tx by (intro Cons.IH [OF False us]) auto
    ultimately show ?thesis unfolding tx using head [of "CHR '','' # ?rest"] by (simp add: n kv(1) lex_text_quoted skip_delimiter)
  qed
qed simp

lemma shown_object:
  assumes "list_all2 member_shown ts ms" and "blank w" and "blank w2" and "blank w'" and "ts \<noteq> []"
  shows "shown (''{'' @ str_join '','' (map (member w w2) ts) @ w' @ ''}'') (JObj ms)"
proof (rule shownI)
  fix r n assume n: "2 * length ((''{'' @ str_join '','' (map (member w w2) ts) @ w' @ ''}'') @ r) \<le> n"
  let ?s = "str_join '','' (map (member w w2) ts) @ w' @ ''}'' @ r"
  have ms: "ms \<noteq> []" using assms(1,5) by auto
  have len: "2 * length ?s + 2 \<le> n" using n by simp
  have "\<exists>u. skip_ws ?s = CHR 0x22 # u"
    using assms(5) by (cases ts; cases "tl ts") (auto simp: member_def text_quote_def skip_blank [OF assms(2)] skip_delimiter)
  then obtain u where "skip_ws ?s = CHR 0x22 # u" by blast
  then show "j_value (Suc n) ((''{'' @ str_join '','' (map (member w w2) ts) @ w' @ ''}'') @ r) = Some (JObj ms, r)"
    using members_read [OF ms assms(1-4) len, of "[]"] by (simp add: skip_delimiter del: j_members.simps)
qed

lemma shown_empty: "shown ''[]'' (JArr [])" "shown ''{}'' (JObj [])"
  by (rule shownI; simp add: skip_delimiter)+

section \<open>Indented documents\<close>

text \<open>The value a printed document stands for: object members in key order, numbers as printed.\<close>

fun canonical :: "(string \<Rightarrow> string) \<Rightarrow> json \<Rightarrow> json" where
  "canonical num (JNum l) = JNum (num l)"
| "canonical num (JArr vs) = JArr (map (canonical num) vs)"
| "canonical num (JObj m) = JObj (sort_key fst (map (\<lambda>kv. (fst kv, canonical num (snd kv))) m))"
| "canonical num v = v"

fun literals :: "json \<Rightarrow> string list" where
  "literals (JNum l) = [l]"
| "literals (JArr vs) = concat (map literals vs)"
| "literals (JObj m) = concat (map (\<lambda>kv. literals (snd kv)) m)"
| "literals v = []"

lemma blank_indent: "blank (indent d)"
  by (induction d) (auto simp: blank_def indent_def json_space_def)

lemma block_join: "ts \<noteq> [] \<Longrightarrow> block a b d ts = a @ str_join '','' (map (\<lambda>t. indent (Suc d) @ t) ts) @ indent d @ b"
  by (simp add: block_def)

text \<open>Sorting by keys goes through a map over the values.\<close>

lemma insort_key_map:
  "insort_key fst (fst kv, f (snd kv)) (map (\<lambda>kv. (fst kv, f (snd kv))) l) = map (\<lambda>kv. (fst kv, f (snd kv))) (insort_key fst kv l)"
  by (induction l) auto

lemma sort_key_map:
  "sort_key fst (map (\<lambda>kv. (fst kv, f (snd kv))) m) = map (\<lambda>kv. (fst kv, f (snd kv))) (sort_key fst m)"
  by (induction m) (simp_all add: insort_key_map)

lemma sort_key_Nil [simp]: "sort_key f xs = [] \<longleftrightarrow> xs = []"
  by (metis length_0_conv length_sort)

lemma pretty_shown:
  assumes "list_all (\<lambda>l. json_number (num l)) (literals v)"
  shows "shown (pretty num d v) (canonical num v)"
  using assms
proof (induction num d v rule: pretty.induct)
  case (5 num d vs)
  then have "shown (pretty num (Suc d) v) (canonical num v)" if "v \<in> set vs" for v
    using that by (auto simp: list_all_iff)
  then have "list_all2 shown (map (pretty num (Suc d)) vs) (map (canonical num) vs)"
    by (simp add: list_all2_map1 list_all2_map2 list_all2_same)
  then show ?case
    using shown_array [OF _ blank_indent blank_indent, of "map (pretty num (Suc d)) vs" "map (canonical num) vs" "Suc d" d]
    by (cases "vs = []") (simp_all add: block_join, simp add: block_def shown_empty)
next
  case (6 num d m)
  let ?p = "\<lambda>kv. (fst kv, pretty num (Suc d) (snd kv))" and ?c = "\<lambda>kv. (fst kv, canonical num (snd kv))"
  let ?m = "sort_key fst m"
  have sh: "shown (pretty num (Suc d) (snd kv)) (canonical num (snd kv))" if "kv \<in> set m" for kv
    using 6 that by (auto simp: list_all_iff)
  have "list_all2 member_shown (map ?p ?m) (map ?c ?m)"
    using sh by (auto simp: list_all2_map1 list_all2_map2 list_all2_same member_shown_def)
  moreover have "pretty num d (JObj m) = ''{'' @ str_join '','' (map (member (indent (Suc d)) '' '') (map ?p ?m)) @ indent d @ ''}''" if "m \<noteq> []"
    using that by (simp add: sort_key_map block_def member_def comp_def)
  moreover have "blank '' ''" by (simp add: blank_def json_space_def)
  ultimately show ?case
    using shown_object [OF _ blank_indent _ blank_indent, of "map ?p ?m" "map ?c ?m" "'' ''" "Suc d" d]
    by (cases "m = []") (auto simp: sort_key_map shown_empty block_def)
qed (auto simp: shown_literals shown_string shown_number)

text \<open>A sorted object answers like the one it was sorted from.\<close>

lemma map_of_canonical: "map_of (map (\<lambda>kv. (fst kv, f (snd kv))) m) k = map_option f (map_of m k)"
  by (induction m) auto

lemma canonical_prop:
  assumes "wf_map m"
  shows "cni_prop (canonical num (JObj m)) key = map_option (canonical num) (map_of m key)"
proof -
  have "map_of (sort_key fst m) = map_of m" using map_of_perm [OF assms, of "sort_key fst m"] by simp
  then show ?thesis by (simp add: cni_prop_def sort_key_map map_of_canonical)
qed

section \<open>Properties\<close>


definition literal_lib :: conf_lib where
  "literal_lib = \<lparr>cl_check = (\<lambda>_. None), cl_number = (\<lambda>l. l)\<rparr>"

definition quoted_config :: "json gomap" where
  "quoted_config = [(''type'', JStr (''a'' @ [CHR 0x22, CHR 0x5C, CHR 0x0A, CHR 0xE2, CHR 0x80, CHR 0xA8] @ ''<b>'')),
     (''mtu'', JNum ''1500''), (''dns'', JArr [JStr ''10.0.0.2'', JObj [], JBool True])]"


end
