(* ===== verification/MetaDecode.thy ===== *)
theory MetaDecode
  imports JsonText
begin

text \<open>
  Decoding the metadata service's documents into the structs of \<open>src/internal/metadata/types.go\<close>, as
  \<open>json.Unmarshal\<close> does it by reflection: fields are found by their folded names, unknown members are ignored,
  \<open>null\<close> clears a slice, a map or a pointer and leaves any other field alone, a value of the wrong type is an
  error, and a member that occurs again decodes into what the first one left.  A decoder takes the value it
  decodes into.  (Go keeps elements beyond the end of a slice that has shrunk, and a third
  occurrence of the same member would see them; the model does not.)
\<close>

section \<open>Decoders of Go types\<close>

type_synonym 'a decoder = "json \<Rightarrow> 'a \<Rightarrow> 'a result"

definition d_string :: "string decoder" where
  "d_string v old = (case v of JStr s \<Rightarrow> Inr s | JNull \<Rightarrow> Inr old | _ \<Rightarrow> Inl type_error)"

definition d_bool :: "bool decoder" where
  "d_bool v old = (case v of JBool b \<Rightarrow> Inr b | JNull \<Rightarrow> Inr old | _ \<Rightarrow> Inl type_error)"

text \<open>Both \<open>int\<close> and \<open>int64\<close>: only an integer literal that fits.\<close>

definition d_int :: "int decoder" where
  "d_int v old =
     (case v of
        JNum l \<Rightarrow> (case atoi l of Some i \<Rightarrow> Inr i | None \<Rightarrow> Inl type_error)
      | JNull \<Rightarrow> Inr old
      | _ \<Rightarrow> Inl type_error)"

fun d_elems :: "'a \<Rightarrow> 'a decoder \<Rightarrow> json list \<Rightarrow> 'a list \<Rightarrow> 'a list result" where
  "d_elems zero d [] old = Inr []"
| "d_elems zero d (v # vs) old =
     bindR (d v (case old of [] \<Rightarrow> zero | x # _ \<Rightarrow> x)) (\<lambda>x. bindR (d_elems zero d vs (tl old)) (\<lambda>xs. Inr (x # xs)))"

definition d_list :: "'a \<Rightarrow> 'a decoder \<Rightarrow> 'a list decoder" where
  "d_list zero d v old =
     (case v of JArr vs \<Rightarrow> d_elems zero d vs old | JNull \<Rightarrow> Inr [] | _ \<Rightarrow> Inl type_error)"

text \<open>The elements of a map are decoded into new values.\<close>

definition d_map :: "'a \<Rightarrow> 'a decoder \<Rightarrow> 'a gomap decoder" where
  "d_map zero d v old =
     (case v of
        JObj ms \<Rightarrow> foldR (\<lambda>m acc. bindR (d (snd m) zero) (\<lambda>x. Inr (mput (fst m) x acc))) ms old
      | JNull \<Rightarrow> Inr []
      | _ \<Rightarrow> Inl type_error)"

definition d_ptr :: "'a \<Rightarrow> 'a decoder \<Rightarrow> 'a option decoder" where
  "d_ptr zero d v old =
     (if v = JNull then Inr None
      else bindR (d v (case old of None \<Rightarrow> zero | Some x \<Rightarrow> x)) (\<lambda>x. Inr (Some x)))"

text \<open>\<open>interface{}\<close>: any value, its objects being maps; a number must not overflow a \<open>float64\<close>, that is its magnitude must
  be less than \<open>2^1024 - 2^970\<close>, from where on it would be rounded to infinity.\<close>

definition exponent_of :: "string \<Rightarrow> int" where
  "exponent_of s =
     (case s of
        [] \<Rightarrow> 0
      | c # t \<Rightarrow> if c = CHR ''-'' then - digits_val t else if c = CHR ''+'' then digits_val t else digits_val s)"

definition float_overflow :: "string \<Rightarrow> bool" where
  "float_overflow l =
     (let u = (if l \<noteq> [] \<and> hd l = CHR ''-'' then tl l else l);
          ip = digits_of u; r = drop (length ip) u;
          fp = (if r \<noteq> [] \<and> hd r = CHR ''.'' then digits_of (tl r) else []);
          q = (if r \<noteq> [] \<and> hd r = CHR ''.'' then drop (Suc (length fp)) r else r);
          n = digits_val (ip @ fp); ex = exponent_of (drop 1 q) - int (length fp); limit = 2 ^ 1024 - 2 ^ 970 :: int
      in if 0 \<le> ex then limit \<le> n * 10 ^ nat ex else limit * 10 ^ nat (- ex) \<le> n)"

fun any_value :: "json \<Rightarrow> json" where
  "any_value (JArr vs) = JArr (map any_value vs)"
| "any_value (JObj ms) = JObj (go_map (map (\<lambda>m. (fst m, any_value (snd m))) ms))"
| "any_value v = v"

definition d_any :: "json decoder" where
  "d_any v old = (if list_ex float_overflow (literals v) then Inl type_error else Inr (any_value v))"

text \<open>A struct is a table of its fields, by folded name.\<close>

definition d_struct :: "(string \<times> 'a decoder) list \<Rightarrow> 'a decoder" where
  "d_struct fs v old =
     (case v of
        JObj ms \<Rightarrow> foldR (\<lambda>m r. case map_of fs (fold_key (fst m)) of None \<Rightarrow> Inr r | Some f \<Rightarrow> f (snd m) r) ms old
      | JNull \<Rightarrow> Inr old
      | _ \<Rightarrow> Inl type_error)"

definition field :: "'f decoder \<Rightarrow> ('r \<Rightarrow> 'f) \<Rightarrow> (('f \<Rightarrow> 'f) \<Rightarrow> 'r \<Rightarrow> 'r) \<Rightarrow> 'r decoder" where
  "field d get upd = (\<lambda>v r. bindR (d v (get r)) (\<lambda>x. Inr (upd (\<lambda>_. x) r)))"

section \<open>The structs\<close>

definition zero_MetaPortRule :: MetaPortRule where
  "zero_MetaPortRule = \<lparr>mpr_BackendName = [], mpr_Hostname = [], mpr_Path = [], mpr_Priority = 0, mpr_Protocol = [], mpr_Selector = [],
     mpr_Service = [], mpr_SourcePort = 0, mpr_TargetPort = 0\<rparr>"

definition zero_LBStickinessPolicy :: LBStickinessPolicy where
  "zero_LBStickinessPolicy = \<lparr>lbs_Cookie = [], lbs_Domain = [], lbs_Indirect = False, lbs_Mode = [], lbs_Name = [], lbs_Nocache = False,
     lbs_Postonly = False\<rparr>"

definition zero_NetworkPolicyRuleBetween :: NetworkPolicyRuleBetween where
  "zero_NetworkPolicyRuleBetween = \<lparr>npb_GroupBy = [], npb_Selector = []\<rparr>"

definition zero_NetworkPolicyRuleMember :: NetworkPolicyRuleMember where
  "zero_NetworkPolicyRuleMember = \<lparr>npm_Selector = []\<rparr>"

definition zero_NetworkPolicyRule :: NetworkPolicyRule where
  "zero_NetworkPolicyRule = \<lparr>npr_Action = [], npr_Between = None, npr_From = None, npr_Ports = [], npr_To = None, npr_Within = []\<rparr>"

definition zero_Stack :: Stack where
  "zero_Stack = \<lparr>stk_EnvironmentName = [], stk_EnvironmentUUID = [], stk_MetadataKind = [], stk_Name = [], stk_Services = [],
     stk_System = False, stk_UUID = []\<rparr>"

definition HealthCheck_fields :: "(string \<times> HealthCheck decoder) list" where
  "HealthCheck_fields =
    [(''healthy_threshold'', field d_int hc_HealthyThreshold hc_HealthyThreshold_update), (''interval'', field d_int hc_Interval hc_Interval_update),
    (''port'', field d_int hc_Port hc_Port_update), (''request_line'', field d_string hc_RequestLine hc_RequestLine_update),
    (''response_timeout'', field d_int hc_ResponseTimeout hc_ResponseTimeout_update),
    (''unhealthy_threshold'', field d_int hc_UnhealthyThreshold hc_UnhealthyThreshold_update)]"

definition d_HealthCheck :: "HealthCheck decoder" where
  "d_HealthCheck = d_struct HealthCheck_fields"

definition MetaPortRule_fields :: "(string \<times> MetaPortRule decoder) list" where
  "MetaPortRule_fields =
    [(''backend_name'', field d_string mpr_BackendName mpr_BackendName_update), (''hostname'', field d_string mpr_Hostname mpr_Hostname_update),
    (''path'', field d_string mpr_Path mpr_Path_update), (''priority'', field d_int mpr_Priority mpr_Priority_update),
    (''protocol'', field d_string mpr_Protocol mpr_Protocol_update), (''selector'', field d_string mpr_Selector mpr_Selector_update),
    (''service'', field d_string mpr_Service mpr_Service_update), (''source_port'', field d_int mpr_SourcePort mpr_SourcePort_update),
    (''target_port'', field d_int mpr_TargetPort mpr_TargetPort_update)]"

definition d_MetaPortRule :: "MetaPortRule decoder" where
  "d_MetaPortRule = d_struct MetaPortRule_fields"

definition LBStickinessPolicy_fields :: "(string \<times> LBStickinessPolicy decoder) list" where
  "LBStickinessPolicy_fields =
    [(''cookie'', field d_string lbs_Cookie lbs_Cookie_update), (''domain'', field d_string lbs_Domain lbs_Domain_update),
    (''indirect'', field d_bool lbs_Indirect lbs_Indirect_update), (''mode'', field d_string lbs_Mode lbs_Mode_update),
    (''name'', field d_string lbs_Name lbs_Name_update), (''nocache'', field d_bool lbs_Nocache lbs_Nocache_update),
    (''postonly'', field d_bool lbs_Postonly lbs_Postonly_update)]"

definition d_LBStickinessPolicy :: "LBStickinessPolicy decoder" where
  "d_LBStickinessPolicy = d_struct LBStickinessPolicy_fields"

definition LBConfig_fields :: "(string \<times> LBConfig decoder) list" where
  "LBConfig_fields =
    [(''certs'', field (d_list [] d_string) lb_Certs lb_Certs_update), (''config'', field d_string lb_Config lb_Config_update),
    (''default_cert'', field d_string lb_DefaultCert lb_DefaultCert_update),
    (''port_rules'', field (d_list zero_MetaPortRule d_MetaPortRule) lb_PortRules lb_PortRules_update),
    (''stickiness_policy'', field d_LBStickinessPolicy lb_StickinessPolicy lb_StickinessPolicy_update)]"

definition d_LBConfig :: "LBConfig decoder" where
  "d_LBConfig = d_struct LBConfig_fields"

definition NetworkPolicyRuleBetween_fields :: "(string \<times> NetworkPolicyRuleBetween decoder) list" where
  "NetworkPolicyRuleBetween_fields =
    [(''groupby'', field d_string npb_GroupBy npb_GroupBy_update), (''selector'', field d_string npb_Selector npb_Selector_update)]"

definition d_NetworkPolicyRuleBetween :: "NetworkPolicyRuleBetween decoder" where
  "d_NetworkPolicyRuleBetween = d_struct NetworkPolicyRuleBetween_fields"

definition NetworkPolicyRuleMember_fields :: "(string \<times> NetworkPolicyRuleMember decoder) list" where
  "NetworkPolicyRuleMember_fields =
    [(''selector'', field d_string npm_Selector npm_Selector_update)]"

definition d_NetworkPolicyRuleMember :: "NetworkPolicyRuleMember decoder" where
  "d_NetworkPolicyRuleMember = d_struct NetworkPolicyRuleMember_fields"

definition NetworkPolicyRule_fields :: "(string \<times> NetworkPolicyRule decoder) list" where
  "NetworkPolicyRule_fields =
    [(''action'', field d_string npr_Action npr_Action_update),
    (''between'', field (d_ptr zero_NetworkPolicyRuleBetween d_NetworkPolicyRuleBetween) npr_Between npr_Between_update),
    (''from'', field (d_ptr zero_NetworkPolicyRuleMember d_NetworkPolicyRuleMember) npr_From npr_From_update),
    (''ports'', field (d_list [] d_string) npr_Ports npr_Ports_update),
    (''to'', field (d_ptr zero_NetworkPolicyRuleMember d_NetworkPolicyRuleMember) npr_To npr_To_update),
    (''within'', field d_string npr_Within npr_Within_update)]"

definition d_NetworkPolicyRule :: "NetworkPolicyRule decoder" where
  "d_NetworkPolicyRule = d_struct NetworkPolicyRule_fields"

definition Network_fields :: "(string \<times> Network decoder) list" where
  "Network_fields =
    [(''is_default'', field d_bool net_Default net_Default_update),
    (''default_policy_action'', field d_string net_DefaultPolicyAction net_DefaultPolicyAction_update),
    (''environment_uuid'', field d_string net_EnvironmentUUID net_EnvironmentUUID_update),
    (''host_ports'', field d_bool net_HostPorts net_HostPorts_update), (''metadata'', field (d_map JNull d_any) net_Metadata net_Metadata_update),
    (''metadata_kind'', field d_string net_MetadataKind net_MetadataKind_update), (''name'', field d_string net_Name net_Name_update),
    (''policy'', field (d_list zero_NetworkPolicyRule d_NetworkPolicyRule) net_Policy net_Policy_update),
    (''uuid'', field d_string net_UUID net_UUID_update)]"

definition d_Network :: "Network decoder" where
  "d_Network = d_struct Network_fields"

definition Host_fields :: "(string \<times> Host decoder) list" where
  "Host_fields =
    [(''agent_ip'', field d_string host_AgentIP host_AgentIP_update), (''agent_state'', field d_string host_AgentState host_AgentState_update),
    (''environment_uuid'', field d_string host_EnvironmentUUID host_EnvironmentUUID_update),
    (''host_id'', field d_int host_HostId host_HostId_update), (''hostname'', field d_string host_Hostname host_Hostname_update),
    (''labels'', field (d_map [] d_string) host_Labels host_Labels_update),
    (''local_storage_mb'', field d_int host_LocalStorageMb host_LocalStorageMb_update), (''memory'', field d_int host_Memory host_Memory_update),
    (''metadata_kind'', field d_string host_MetadataKind host_MetadataKind_update), (''milli_cpu'', field d_int host_MilliCPU host_MilliCPU_update),
    (''name'', field d_string host_Name host_Name_update), (''state'', field d_string host_State host_State_update),
    (''uuid'', field d_string host_UUID host_UUID_update)]"

definition d_Host :: "Host decoder" where
  "d_Host = d_struct Host_fields"

definition Container_fields :: "(string \<times> Container decoder) list" where
  "Container_fields =
    [(''create_index'', field d_int ctr_CreateIndex ctr_CreateIndex_update), (''dns'', field (d_list [] d_string) ctr_Dns ctr_Dns_update),
    (''dns_search'', field (d_list [] d_string) ctr_DnsSearch ctr_DnsSearch_update),
    (''environment_uuid'', field d_string ctr_EnvironmentUUID ctr_EnvironmentUUID_update),
    (''external_id'', field d_string ctr_ExternalId ctr_ExternalId_update),
    (''health_check'', field d_HealthCheck ctr_HealthCheck ctr_HealthCheck_update),
    (''health_check_hosts'', field (d_list [] d_string) ctr_HealthCheckHosts ctr_HealthCheckHosts_update),
    (''health_state'', field d_string ctr_HealthState ctr_HealthState_update), (''host_uuid'', field d_string ctr_HostUUID ctr_HostUUID_update),
    (''hostname'', field d_string ctr_Hostname ctr_Hostname_update), (''ips'', field (d_list [] d_string) ctr_IPs ctr_IPs_update),
    (''labels'', field (d_map [] d_string) ctr_Labels ctr_Labels_update), (''links'', field (d_map [] d_string) ctr_Links ctr_Links_update),
    (''memory_reservation'', field d_int ctr_MemoryReservation ctr_MemoryReservation_update),
    (''metadata_kind'', field d_string ctr_MetadataKind ctr_MetadataKind_update),
    (''milli_cpu_reservation'', field d_int ctr_MilliCPUReservation ctr_MilliCPUReservation_update),
    (''name'', field d_string ctr_Name ctr_Name_update),
    (''network_from_container_uuid'', field d_string ctr_NetworkFromContainerUUID ctr_NetworkFromContainerUUID_update),
    (''network_uuid'', field d_string ctr_NetworkUUID ctr_NetworkUUID_update), (''ports'', field (d_list [] d_string) ctr_Ports ctr_Ports_update),
    (''primary_ip'', field d_string ctr_PrimaryIp ctr_PrimaryIp_update),
    (''primary_mac_address'', field d_string ctr_PrimaryMacAddress ctr_PrimaryMacAddress_update),
    (''service_index'', field d_string ctr_ServiceIndex ctr_ServiceIndex_update),
    (''service_name'', field d_string ctr_ServiceName ctr_ServiceName_update), (''stack_name'', field d_string ctr_StackName ctr_StackName_update),
    (''stack_uuid'', field d_string ctr_StackUUID ctr_StackUUID_update), (''start_count'', field d_int ctr_StartCount ctr_StartCount_update),
    (''state'', field d_string ctr_State ctr_State_update), (''system'', field d_bool ctr_System ctr_System_update),
    (''uuid'', field d_string ctr_UUID ctr_UUID_update)]"

definition d_Container :: "Container decoder" where
  "d_Container = d_struct Container_fields"

definition Service_fields :: "(string \<times> Service decoder) list" where
  "Service_fields =
    [(''containers'', field (d_list zero_Container d_Container) svc_Containers svc_Containers_update),
    (''create_index'', field d_int svc_CreateIndex svc_CreateIndex_update),
    (''environment_uuid'', field d_string svc_EnvironmentUUID svc_EnvironmentUUID_update),
    (''expose'', field (d_list [] d_string) svc_Expose svc_Expose_update),
    (''external_ips'', field (d_list [] d_string) svc_ExternalIps svc_ExternalIps_update), (''fqdn'', field d_string svc_Fqdn svc_Fqdn_update),
    (''health_check'', field d_HealthCheck svc_HealthCheck svc_HealthCheck_update), (''hostname'', field d_string svc_Hostname svc_Hostname_update),
    (''kind'', field d_string svc_Kind svc_Kind_update), (''labels'', field (d_map [] d_string) svc_Labels svc_Labels_update),
    (''lb_config'', field d_LBConfig svc_LBConfig svc_LBConfig_update), (''links'', field (d_map [] d_string) svc_Links svc_Links_update),
    (''metadata'', field (d_map JNull d_any) svc_Metadata svc_Metadata_update),
    (''metadata_kind'', field d_string svc_MetadataKind svc_MetadataKind_update), (''name'', field d_string svc_Name svc_Name_update),
    (''ports'', field (d_list [] d_string) svc_Ports svc_Ports_update),
    (''primary_service_name'', field d_string svc_PrimaryServiceName svc_PrimaryServiceName_update),
    (''scale'', field d_int svc_Scale svc_Scale_update), (''sidekicks'', field (d_list [] d_string) svc_Sidekicks svc_Sidekicks_update),
    (''stack_name'', field d_string svc_StackName svc_StackName_update), (''stack_uuid'', field d_string svc_StackUUID svc_StackUUID_update),
    (''state'', field d_string svc_State svc_State_update), (''system'', field d_bool svc_System svc_System_update),
    (''token'', field d_string svc_Token svc_Token_update), (''uuid'', field d_string svc_UUID svc_UUID_update),
    (''vip'', field d_string svc_Vip svc_Vip_update)]"

definition d_Service :: "Service decoder" where
  "d_Service = d_struct Service_fields"

definition Stack_fields :: "(string \<times> Stack decoder) list" where
  "Stack_fields =
    [(''environment_name'', field d_string stk_EnvironmentName stk_EnvironmentName_update),
    (''environment_uuid'', field d_string stk_EnvironmentUUID stk_EnvironmentUUID_update),
    (''metadata_kind'', field d_string stk_MetadataKind stk_MetadataKind_update), (''name'', field d_string stk_Name stk_Name_update),
    (''services'', field (d_list zero_Service d_Service) stk_Services stk_Services_update), (''system'', field d_bool stk_System stk_System_update),
    (''uuid'', field d_string stk_UUID stk_UUID_update)]"

definition d_Stack :: "Stack decoder" where
  "d_Stack = d_struct Stack_fields"

section \<open>Forward compatibility\<close>

text \<open>Members the structs do not know are ignored, wherever they stand and whatever they hold.\<close>

lemma struct_ignores_unknown:
  "d_struct fs (JObj ms) old = d_struct fs (JObj (filter (\<lambda>m. map_of fs (fold_key (fst m)) \<noteq> None) ms)) old"
proof -
  let ?f = "\<lambda>m r. case map_of fs (fold_key (fst m)) of None \<Rightarrow> Inr r | Some f \<Rightarrow> f (snd m) r"
  have "foldR ?f ms old = foldR ?f (filter (\<lambda>m. map_of fs (fold_key (fst m)) \<noteq> None) ms) old"
  proof (induction ms arbitrary: old)
    case (Cons m ms)
    then show ?case by (cases "map_of fs (fold_key (fst m))") (auto simp: bindR_def split: sum.split)
  qed simp
  then show ?thesis by (simp add: d_struct_def)
qed

end
