(* ===== verification/MetaDocs.thy ===== *)
theory MetaDocs
  imports MetaDecode
begin

text \<open>
  The documents of the metadata service, and that decoding them gives the data they were made from.  \<open>codec\<close> is the
  contract of a decoder and the encoding it undoes; slices, pointers, maps and structs of codecs are
  codecs, so each struct of the API is an interpretation.
\<close>

section \<open>The contract\<close>

definition enc_list :: "('a \<Rightarrow> json) \<Rightarrow> 'a list \<Rightarrow> json" where "enc_list enc xs = JArr (map enc xs)"

definition enc_map :: "('a \<Rightarrow> json) \<Rightarrow> 'a gomap \<Rightarrow> json" where "enc_map enc m = JObj (map (\<lambda>kv. (fst kv, enc (snd kv))) m)"

definition enc_ptr :: "('a \<Rightarrow> json) \<Rightarrow> 'a option \<Rightarrow> json" where
  "enc_ptr enc x = (case x of None \<Rightarrow> JNull | Some y \<Rightarrow> enc y)"

definition enc_struct :: "(string \<times> ('r \<Rightarrow> json)) list \<Rightarrow> 'r \<Rightarrow> json" where
  "enc_struct es x = JObj (map (\<lambda>e. (fst e, snd e x)) es)"

locale codec =
  fixes d :: "'a decoder" and zero :: 'a and enc :: "'a \<Rightarrow> json" and ok :: "'a \<Rightarrow> bool"
  assumes reads: "ok x \<Longrightarrow> d (enc x) zero = Inr x"
    and not_null: "enc x \<noteq> JNull"
begin

lemma elems_back: "list_all ok xs \<Longrightarrow> d_elems zero d (map enc xs) [] = Inr xs"
  by (induction xs) (simp_all add: reads)

lemma list_back: "list_all ok xs \<Longrightarrow> d_list zero d (enc_list enc xs) [] = Inr xs"
  by (simp add: d_list_def enc_list_def elems_back)

lemma ptr_back: "pred_option ok x \<Longrightarrow> d_ptr zero d (enc_ptr enc x) None = Inr x"
  by (cases x) (simp_all add: d_ptr_def enc_ptr_def reads not_null)

lemma entries_back:
  "list_all ok (map snd m) \<Longrightarrow> wf_map (acc @ m) \<Longrightarrow>
    foldR (\<lambda>m acc. bindR (d (snd m) zero) (\<lambda>x. Inr (mput (fst m) x acc))) (map (\<lambda>kv. (fst kv, enc (snd kv))) m) acc = Inr (acc @ m)"
proof (induction m arbitrary: acc)
  case (Cons kv m)
  have "fst kv \<notin> set (map fst acc)" using Cons.prems(2) by (auto simp: wf_map_def)
  then have "mput (fst kv) (snd kv) acc = acc @ [kv]" by (induction acc) auto
  then show ?case using Cons by (simp add: reads)
qed simp

lemma map_back: "list_all ok (map snd m) \<Longrightarrow> wf_map m \<Longrightarrow> d_map zero d (enc_map enc m) [] = Inr m"
  using entries_back [of m "[]"] by (simp add: d_map_def enc_map_def)

end

section \<open>Integers, strings and any value\<close>

definition in_int64 :: "int \<Rightarrow> bool" where "in_int64 i \<longleftrightarrow> - (2 ^ 63) \<le> i \<and> i < 2 ^ 63"

definition enc_int :: "int \<Rightarrow> json" where "enc_int i = JNum (int_str i)"

lemma digit_char:
  assumes "0 \<le> n" and "n < 10"
  shows "is_digit (char_of (n + 48))" "digit_val (char_of (n + 48)) = n"
proof -
  have "n \<in> {0, 1, 2, 3, 4, 5, 6, 7, 8, 9}" using assms unfolding insert_iff empty_iff by presburger
  then show "is_digit (char_of (n + 48))" "digit_val (char_of (n + 48)) = n" by (elim insertE emptyE; hypsubst; code_simp)+
qed

lemma pos_str_digits: "0 \<le> n \<Longrightarrow> pos_str n \<noteq> [] \<and> list_all is_digit (pos_str n) \<and> digits_val (pos_str n) = n"
proof (induction n rule: pos_str.induct)
  case (1 n)
  show ?case
  proof (cases "n < 10")
    case True
    then show ?thesis using 1(2) digit_char [of n] by (simp add: pos_str.simps [of n] digits_val_def)
  next
    case False
    have "0 \<le> n mod 10" "n mod 10 < 10" by simp_all
    from digit_char [OF this] have m: "is_digit (char_of (n mod 10 + 48))" "digit_val (char_of (n mod 10 + 48)) = n mod 10" .
    have "0 \<le> n div 10" using 1(2) by simp
    with 1(1) [OF False] show ?thesis using False m by (simp add: pos_str.simps [of n] digits_val_def)
  qed
qed

lemma atoi_int_str: "in_int64 i \<Longrightarrow> atoi (int_str i) = Some i"
proof -
  assume i: "in_int64 i"
  have sign: "\<not> is_digit (CHR ''-'')" "\<not> is_digit (CHR ''+'')" by code_simp+
  show ?thesis
  proof (cases "i < 0")
    case True
    then show ?thesis using pos_str_digits [of "- i"] i by (simp add: int_str_def atoi_def in_int64_def)
  next
    case False
    then have p: "pos_str i \<noteq> []" "list_all is_digit (pos_str i)" "digits_val (pos_str i) = i" using pos_str_digits [of i] by simp_all
    then have "hd (pos_str i) \<noteq> CHR ''-''" "hd (pos_str i) \<noteq> CHR ''+''" using sign by (cases "pos_str i"; auto)+
    then show ?thesis using p i False by (simp add: int_str_def atoi_def in_int64_def Let_def)
  qed
qed

text \<open>Untyped values that decoding leaves as they are.\<close>

definition any_ok :: "json \<Rightarrow> bool" where
  "any_ok v \<longleftrightarrow> any_value v = v \<and> \<not> list_ex float_overflow (literals v)"

definition any_map :: "json gomap \<Rightarrow> bool" where
  "any_map m \<longleftrightarrow> wf_map m \<and> list_all any_ok (map snd m)"

lemma d_int_back [simp]: "in_int64 i \<Longrightarrow> d_int (enc_int i) old = Inr i"
  by (simp add: d_int_def enc_int_def atoi_int_str)

lemma d_plain_back [simp]: "d_string (JStr s) old = Inr s" "d_bool (JBool b) old' = Inr b"
  by (simp_all add: d_string_def d_bool_def)

interpretation str: codec d_string "[]" JStr "\<lambda>_. True"
  by unfold_locales simp_all

lemma strings_back: "d_list [] d_string (enc_list JStr xs) [] = Inr xs"
  by (rule str.list_back) (simp add: list_all_iff)

lemma labels_back: "wf_map m \<Longrightarrow> d_map [] d_string (enc_map JStr m) [] = Inr m"
  by (rule str.map_back) (simp_all add: list_all_iff)

lemma any_map_back: "any_map m \<Longrightarrow> d_map JNull d_any (enc_map id m) [] = Inr m"
proof -
  assume m: "any_map m"
  have "foldR (\<lambda>m acc. bindR (d_any (snd m) JNull) (\<lambda>x. Inr (mput (fst m) x acc))) l acc = Inr (acc @ l)"
    if "wf_map (acc @ l)" "list_all any_ok (map snd l)" for l acc
    using that
  proof (induction l arbitrary: acc)
    case (Cons kv l)
    have "fst kv \<notin> set (map fst acc)" using Cons.prems(1) by (auto simp: wf_map_def)
    then have "mput (fst kv) (snd kv) acc = acc @ [kv]" by (induction acc) auto
    then show ?case using Cons by (simp add: d_any_def any_ok_def)
  qed simp
  from this [of "[]" m] show ?thesis using m by (simp add: any_map_def d_map_def enc_map_def)
qed

section \<open>Structs\<close>

text \<open>A document with the members of a struct, in the order of its fields, runs the field decoders one after the
  other.\<close>

lemma struct_back:
  assumes "map (fold_key \<circ> fst) es = map fst fs" and "distinct (map fst fs)"
  shows "d_struct fs (enc_struct es x) r = foldR (\<lambda>p. fst p (snd p x)) (zip (map snd fs) (map snd es)) r"
proof -
  have "foldR (\<lambda>m r. case map_of gs (fold_key (fst m)) of None \<Rightarrow> Inr r | Some f \<Rightarrow> f (snd m) r) (map (\<lambda>e. (fst e, snd e x)) es) r
      = foldR (\<lambda>p. fst p (snd p x)) (zip (map snd fs) (map snd es)) r"
    if "map (fold_key \<circ> fst) es = map fst fs" "\<forall>f \<in> set fs. map_of gs (fst f) = Some (snd f)" for gs fs es r
    using that
  proof (induction es arbitrary: fs r)
    case (Cons e es)
    then obtain f gs' where fs: "fs = f # gs'" by (cases fs) auto
    have "map_of gs (fold_key (fst e)) = Some (snd f)" using Cons.prems by (simp add: fs)
    then show ?case using Cons by (auto simp: fs bindR_def split: sum.split)
  qed simp
  from this [OF assms(1), of fs] assms(2) show ?thesis by (simp add: d_struct_def enc_struct_def)
qed

named_theorems read_back \<open>fields that are read back\<close>

lemmas leaves_back [read_back] = field_def bindR_simps d_int_back d_plain_back strings_back any_map_back labels_back

definition HealthCheck_members :: "(string \<times> (HealthCheck \<Rightarrow> json)) list" where
  "HealthCheck_members =
    [(''healthy_threshold'', \<lambda>x. enc_int (hc_HealthyThreshold x)), (''interval'', \<lambda>x. enc_int (hc_Interval x)),
    (''port'', \<lambda>x. enc_int (hc_Port x)), (''request_line'', \<lambda>x. JStr (hc_RequestLine x)),
    (''response_timeout'', \<lambda>x. enc_int (hc_ResponseTimeout x)), (''unhealthy_threshold'', \<lambda>x. enc_int (hc_UnhealthyThreshold x))]"

definition enc_HealthCheck :: "HealthCheck \<Rightarrow> json" where
  "enc_HealthCheck = enc_struct HealthCheck_members"

definition ok_HealthCheck :: "HealthCheck \<Rightarrow> bool" where
  "ok_HealthCheck x \<longleftrightarrow>
    in_int64 (hc_HealthyThreshold x) \<and> in_int64 (hc_Interval x) \<and> in_int64 (hc_Port x) \<and> in_int64 (hc_ResponseTimeout x) \<and>
    in_int64 (hc_UnhealthyThreshold x)"

definition MetaPortRule_members :: "(string \<times> (MetaPortRule \<Rightarrow> json)) list" where
  "MetaPortRule_members =
    [(''backend_name'', \<lambda>x. JStr (mpr_BackendName x)), (''hostname'', \<lambda>x. JStr (mpr_Hostname x)),
    (''path'', \<lambda>x. JStr (mpr_Path x)), (''priority'', \<lambda>x. enc_int (mpr_Priority x)),
    (''protocol'', \<lambda>x. JStr (mpr_Protocol x)), (''selector'', \<lambda>x. JStr (mpr_Selector x)),
    (''service'', \<lambda>x. JStr (mpr_Service x)), (''source_port'', \<lambda>x. enc_int (mpr_SourcePort x)),
    (''target_port'', \<lambda>x. enc_int (mpr_TargetPort x))]"

definition enc_MetaPortRule :: "MetaPortRule \<Rightarrow> json" where
  "enc_MetaPortRule = enc_struct MetaPortRule_members"

definition ok_MetaPortRule :: "MetaPortRule \<Rightarrow> bool" where
  "ok_MetaPortRule x \<longleftrightarrow>
    in_int64 (mpr_Priority x) \<and> in_int64 (mpr_SourcePort x) \<and> in_int64 (mpr_TargetPort x)"

definition LBStickinessPolicy_members :: "(string \<times> (LBStickinessPolicy \<Rightarrow> json)) list" where
  "LBStickinessPolicy_members =
    [(''cookie'', \<lambda>x. JStr (lbs_Cookie x)), (''domain'', \<lambda>x. JStr (lbs_Domain x)),
    (''indirect'', \<lambda>x. JBool (lbs_Indirect x)), (''mode'', \<lambda>x. JStr (lbs_Mode x)), (''name'', \<lambda>x. JStr (lbs_Name x)),
    (''nocache'', \<lambda>x. JBool (lbs_Nocache x)), (''postonly'', \<lambda>x. JBool (lbs_Postonly x))]"

definition enc_LBStickinessPolicy :: "LBStickinessPolicy \<Rightarrow> json" where
  "enc_LBStickinessPolicy = enc_struct LBStickinessPolicy_members"

definition ok_LBStickinessPolicy :: "LBStickinessPolicy \<Rightarrow> bool" where
  "ok_LBStickinessPolicy x \<longleftrightarrow>
    True"

definition LBConfig_members :: "(string \<times> (LBConfig \<Rightarrow> json)) list" where
  "LBConfig_members =
    [(''certs'', \<lambda>x. enc_list JStr (lb_Certs x)), (''config'', \<lambda>x. JStr (lb_Config x)),
    (''default_cert'', \<lambda>x. JStr (lb_DefaultCert x)), (''port_rules'', \<lambda>x. enc_list enc_MetaPortRule (lb_PortRules x)),
    (''stickiness_policy'', \<lambda>x. enc_LBStickinessPolicy (lb_StickinessPolicy x))]"

definition enc_LBConfig :: "LBConfig \<Rightarrow> json" where
  "enc_LBConfig = enc_struct LBConfig_members"

definition ok_LBConfig :: "LBConfig \<Rightarrow> bool" where
  "ok_LBConfig x \<longleftrightarrow>
    list_all ok_MetaPortRule (lb_PortRules x) \<and> ok_LBStickinessPolicy (lb_StickinessPolicy x)"

definition NetworkPolicyRuleBetween_members :: "(string \<times> (NetworkPolicyRuleBetween \<Rightarrow> json)) list" where
  "NetworkPolicyRuleBetween_members =
    [(''groupBy'', \<lambda>x. JStr (npb_GroupBy x)), (''selector'', \<lambda>x. JStr (npb_Selector x))]"

definition enc_NetworkPolicyRuleBetween :: "NetworkPolicyRuleBetween \<Rightarrow> json" where
  "enc_NetworkPolicyRuleBetween = enc_struct NetworkPolicyRuleBetween_members"

definition ok_NetworkPolicyRuleBetween :: "NetworkPolicyRuleBetween \<Rightarrow> bool" where
  "ok_NetworkPolicyRuleBetween x \<longleftrightarrow>
    True"

definition NetworkPolicyRuleMember_members :: "(string \<times> (NetworkPolicyRuleMember \<Rightarrow> json)) list" where
  "NetworkPolicyRuleMember_members =
    [(''selector'', \<lambda>x. JStr (npm_Selector x))]"

definition enc_NetworkPolicyRuleMember :: "NetworkPolicyRuleMember \<Rightarrow> json" where
  "enc_NetworkPolicyRuleMember = enc_struct NetworkPolicyRuleMember_members"

definition ok_NetworkPolicyRuleMember :: "NetworkPolicyRuleMember \<Rightarrow> bool" where
  "ok_NetworkPolicyRuleMember x \<longleftrightarrow>
    True"

definition NetworkPolicyRule_members :: "(string \<times> (NetworkPolicyRule \<Rightarrow> json)) list" where
  "NetworkPolicyRule_members =
    [(''action'', \<lambda>x. JStr (npr_Action x)), (''between'', \<lambda>x. enc_ptr enc_NetworkPolicyRuleBetween (npr_Between x)),
    (''from'', \<lambda>x. enc_ptr enc_NetworkPolicyRuleMember (npr_From x)), (''ports'', \<lambda>x. enc_list JStr (npr_Ports x)),
    (''to'', \<lambda>x. enc_ptr enc_NetworkPolicyRuleMember (npr_To x)), (''within'', \<lambda>x. JStr (npr_Within x))]"

definition enc_NetworkPolicyRule :: "NetworkPolicyRule \<Rightarrow> json" where
  "enc_NetworkPolicyRule = enc_struct NetworkPolicyRule_members"

definition ok_NetworkPolicyRule :: "NetworkPolicyRule \<Rightarrow> bool" where
  "ok_NetworkPolicyRule x \<longleftrightarrow>
    pred_option ok_NetworkPolicyRuleBetween (npr_Between x) \<and> pred_option ok_NetworkPolicyRuleMember (npr_From x) \<and>
    pred_option ok_NetworkPolicyRuleMember (npr_To x)"

definition Network_members :: "(string \<times> (Network \<Rightarrow> json)) list" where
  "Network_members =
    [(''is_default'', \<lambda>x. JBool (net_Default x)), (''default_policy_action'', \<lambda>x. JStr (net_DefaultPolicyAction x)),
    (''environment_uuid'', \<lambda>x. JStr (net_EnvironmentUUID x)), (''host_ports'', \<lambda>x. JBool (net_HostPorts x)),
    (''metadata'', \<lambda>x. enc_map id (net_Metadata x)), (''metadata_kind'', \<lambda>x. JStr (net_MetadataKind x)),
    (''name'', \<lambda>x. JStr (net_Name x)), (''policy'', \<lambda>x. enc_list enc_NetworkPolicyRule (net_Policy x)),
    (''uuid'', \<lambda>x. JStr (net_UUID x))]"

definition enc_Network :: "Network \<Rightarrow> json" where
  "enc_Network = enc_struct Network_members"

definition ok_Network :: "Network \<Rightarrow> bool" where
  "ok_Network x \<longleftrightarrow>
    any_map (net_Metadata x) \<and> list_all ok_NetworkPolicyRule (net_Policy x)"

definition Host_members :: "(string \<times> (Host \<Rightarrow> json)) list" where
  "Host_members =
    [(''agent_ip'', \<lambda>x. JStr (host_AgentIP x)), (''agent_state'', \<lambda>x. JStr (host_AgentState x)),
    (''environment_uuid'', \<lambda>x. JStr (host_EnvironmentUUID x)), (''host_id'', \<lambda>x. enc_int (host_HostId x)),
    (''hostname'', \<lambda>x. JStr (host_Hostname x)), (''labels'', \<lambda>x. enc_map JStr (host_Labels x)),
    (''local_storage_mb'', \<lambda>x. enc_int (host_LocalStorageMb x)), (''memory'', \<lambda>x. enc_int (host_Memory x)),
    (''metadata_kind'', \<lambda>x. JStr (host_MetadataKind x)), (''milli_cpu'', \<lambda>x. enc_int (host_MilliCPU x)),
    (''name'', \<lambda>x. JStr (host_Name x)), (''state'', \<lambda>x. JStr (host_State x)), (''uuid'', \<lambda>x. JStr (host_UUID x))]"

definition enc_Host :: "Host \<Rightarrow> json" where
  "enc_Host = enc_struct Host_members"

definition ok_Host :: "Host \<Rightarrow> bool" where
  "ok_Host x \<longleftrightarrow>
    in_int64 (host_HostId x) \<and> wf_map (host_Labels x) \<and> in_int64 (host_LocalStorageMb x) \<and> in_int64 (host_Memory x) \<and>
    in_int64 (host_MilliCPU x)"

definition Container_members :: "(string \<times> (Container \<Rightarrow> json)) list" where
  "Container_members =
    [(''create_index'', \<lambda>x. enc_int (ctr_CreateIndex x)), (''dns'', \<lambda>x. enc_list JStr (ctr_Dns x)),
    (''dns_search'', \<lambda>x. enc_list JStr (ctr_DnsSearch x)), (''environment_uuid'', \<lambda>x. JStr (ctr_EnvironmentUUID x)),
    (''external_id'', \<lambda>x. JStr (ctr_ExternalId x)), (''health_check'', \<lambda>x. enc_HealthCheck (ctr_HealthCheck x)),
    (''health_check_hosts'', \<lambda>x. enc_list JStr (ctr_HealthCheckHosts x)), (''health_state'', \<lambda>x. JStr (ctr_HealthState x)),
    (''host_uuid'', \<lambda>x. JStr (ctr_HostUUID x)), (''hostname'', \<lambda>x. JStr (ctr_Hostname x)),
    (''ips'', \<lambda>x. enc_list JStr (ctr_IPs x)), (''labels'', \<lambda>x. enc_map JStr (ctr_Labels x)),
    (''links'', \<lambda>x. enc_map JStr (ctr_Links x)), (''memory_reservation'', \<lambda>x. enc_int (ctr_MemoryReservation x)),
    (''metadata_kind'', \<lambda>x. JStr (ctr_MetadataKind x)), (''milli_cpu_reservation'', \<lambda>x. enc_int (ctr_MilliCPUReservation x)),
    (''name'', \<lambda>x. JStr (ctr_Name x)), (''network_from_container_uuid'', \<lambda>x. JStr (ctr_NetworkFromContainerUUID x)),
    (''network_uuid'', \<lambda>x. JStr (ctr_NetworkUUID x)), (''ports'', \<lambda>x. enc_list JStr (ctr_Ports x)),
    (''primary_ip'', \<lambda>x. JStr (ctr_PrimaryIp x)), (''primary_mac_address'', \<lambda>x. JStr (ctr_PrimaryMacAddress x)),
    (''service_index'', \<lambda>x. JStr (ctr_ServiceIndex x)), (''service_name'', \<lambda>x. JStr (ctr_ServiceName x)),
    (''stack_name'', \<lambda>x. JStr (ctr_StackName x)), (''stack_uuid'', \<lambda>x. JStr (ctr_StackUUID x)),
    (''start_count'', \<lambda>x. enc_int (ctr_StartCount x)), (''state'', \<lambda>x. JStr (ctr_State x)),
    (''system'', \<lambda>x. JBool (ctr_System x)), (''uuid'', \<lambda>x. JStr (ctr_UUID x))]"

definition enc_Container :: "Container \<Rightarrow> json" where
  "enc_Container = enc_struct Container_members"

definition ok_Container :: "Container \<Rightarrow> bool" where
  "ok_Container x \<longleftrightarrow>
    in_int64 (ctr_CreateIndex x) \<and> ok_HealthCheck (ctr_HealthCheck x) \<and> wf_map (ctr_Labels x) \<and> wf_map (ctr_Links x) \<and>
    in_int64 (ctr_MemoryReservation x) \<and> in_int64 (ctr_MilliCPUReservation x) \<and> in_int64 (ctr_StartCount x)"

definition Service_members :: "(string \<times> (Service \<Rightarrow> json)) list" where
  "Service_members =
    [(''containers'', \<lambda>x. enc_list enc_Container (svc_Containers x)), (''create_index'', \<lambda>x. enc_int (svc_CreateIndex x)),
    (''environment_uuid'', \<lambda>x. JStr (svc_EnvironmentUUID x)), (''expose'', \<lambda>x. enc_list JStr (svc_Expose x)),
    (''external_ips'', \<lambda>x. enc_list JStr (svc_ExternalIps x)), (''fqdn'', \<lambda>x. JStr (svc_Fqdn x)),
    (''health_check'', \<lambda>x. enc_HealthCheck (svc_HealthCheck x)), (''hostname'', \<lambda>x. JStr (svc_Hostname x)),
    (''kind'', \<lambda>x. JStr (svc_Kind x)), (''labels'', \<lambda>x. enc_map JStr (svc_Labels x)),
    (''lb_config'', \<lambda>x. enc_LBConfig (svc_LBConfig x)), (''links'', \<lambda>x. enc_map JStr (svc_Links x)),
    (''metadata'', \<lambda>x. enc_map id (svc_Metadata x)), (''metadata_kind'', \<lambda>x. JStr (svc_MetadataKind x)),
    (''name'', \<lambda>x. JStr (svc_Name x)), (''ports'', \<lambda>x. enc_list JStr (svc_Ports x)),
    (''primary_service_name'', \<lambda>x. JStr (svc_PrimaryServiceName x)), (''scale'', \<lambda>x. enc_int (svc_Scale x)),
    (''sidekicks'', \<lambda>x. enc_list JStr (svc_Sidekicks x)), (''stack_name'', \<lambda>x. JStr (svc_StackName x)),
    (''stack_uuid'', \<lambda>x. JStr (svc_StackUUID x)), (''state'', \<lambda>x. JStr (svc_State x)),
    (''system'', \<lambda>x. JBool (svc_System x)), (''token'', \<lambda>x. JStr (svc_Token x)), (''uuid'', \<lambda>x. JStr (svc_UUID x)),
    (''vip'', \<lambda>x. JStr (svc_Vip x))]"

definition enc_Service :: "Service \<Rightarrow> json" where
  "enc_Service = enc_struct Service_members"

definition ok_Service :: "Service \<Rightarrow> bool" where
  "ok_Service x \<longleftrightarrow>
    list_all ok_Container (svc_Containers x) \<and> in_int64 (svc_CreateIndex x) \<and> ok_HealthCheck (svc_HealthCheck x) \<and>
    wf_map (svc_Labels x) \<and> ok_LBConfig (svc_LBConfig x) \<and> wf_map (svc_Links x) \<and> any_map (svc_Metadata x) \<and>
    in_int64 (svc_Scale x)"

definition Stack_members :: "(string \<times> (Stack \<Rightarrow> json)) list" where
  "Stack_members =
    [(''environment_name'', \<lambda>x. JStr (stk_EnvironmentName x)), (''environment_uuid'', \<lambda>x. JStr (stk_EnvironmentUUID x)),
    (''metadata_kind'', \<lambda>x. JStr (stk_MetadataKind x)), (''name'', \<lambda>x. JStr (stk_Name x)),
    (''services'', \<lambda>x. enc_list enc_Service (stk_Services x)), (''system'', \<lambda>x. JBool (stk_System x)),
    (''uuid'', \<lambda>x. JStr (stk_UUID x))]"

definition enc_Stack :: "Stack \<Rightarrow> json" where
  "enc_Stack = enc_struct Stack_members"

definition ok_Stack :: "Stack \<Rightarrow> bool" where
  "ok_Stack x \<longleftrightarrow>
    list_all ok_Service (stk_Services x)"

section \<open>Every struct is read back\<close>

interpretation healthcheck: codec d_HealthCheck zero_HealthCheck enc_HealthCheck ok_HealthCheck
proof
  fix x assume ok: "ok_HealthCheck x"
  have names: "map (fold_key \<circ> fst) HealthCheck_members = map fst HealthCheck_fields" "distinct (map fst HealthCheck_fields)" by code_simp+
  show "d_HealthCheck (enc_HealthCheck x) zero_HealthCheck = Inr x"
    unfolding d_HealthCheck_def enc_HealthCheck_def struct_back [OF names]
    unfolding HealthCheck_members_def HealthCheck_fields_def zero_HealthCheck_def
    using ok by (cases x) (simp add: ok_HealthCheck_def read_back)
qed (simp add: enc_HealthCheck_def enc_struct_def)

lemmas HealthCheck_back [read_back] = healthcheck.list_back healthcheck.ptr_back healthcheck.reads healthcheck.reads [unfolded zero_HealthCheck_def]

interpretation metaportrule: codec d_MetaPortRule zero_MetaPortRule enc_MetaPortRule ok_MetaPortRule
proof
  fix x assume ok: "ok_MetaPortRule x"
  have names: "map (fold_key \<circ> fst) MetaPortRule_members = map fst MetaPortRule_fields" "distinct (map fst MetaPortRule_fields)" by code_simp+
  show "d_MetaPortRule (enc_MetaPortRule x) zero_MetaPortRule = Inr x"
    unfolding d_MetaPortRule_def enc_MetaPortRule_def struct_back [OF names]
    unfolding MetaPortRule_members_def MetaPortRule_fields_def zero_MetaPortRule_def
    using ok by (cases x) (simp add: ok_MetaPortRule_def read_back)
qed (simp add: enc_MetaPortRule_def enc_struct_def)

lemmas MetaPortRule_back [read_back] = metaportrule.list_back metaportrule.ptr_back metaportrule.reads metaportrule.reads [unfolded zero_MetaPortRule_def]

interpretation lbstickinesspolicy: codec d_LBStickinessPolicy zero_LBStickinessPolicy enc_LBStickinessPolicy ok_LBStickinessPolicy
proof
  fix x assume ok: "ok_LBStickinessPolicy x"
  have names: "map (fold_key \<circ> fst) LBStickinessPolicy_members = map fst LBStickinessPolicy_fields" "distinct (map fst LBStickinessPolicy_fields)" by code_simp+
  show "d_LBStickinessPolicy (enc_LBStickinessPolicy x) zero_LBStickinessPolicy = Inr x"
    unfolding d_LBStickinessPolicy_def enc_LBStickinessPolicy_def struct_back [OF names]
    unfolding LBStickinessPolicy_members_def LBStickinessPolicy_fields_def zero_LBStickinessPolicy_def
    using ok by (cases x) (simp add: ok_LBStickinessPolicy_def read_back)
qed (simp add: enc_LBStickinessPolicy_def enc_struct_def)

lemmas LBStickinessPolicy_back [read_back] = lbstickinesspolicy.list_back lbstickinesspolicy.ptr_back lbstickinesspolicy.reads lbstickinesspolicy.reads [unfolded zero_LBStickinessPolicy_def]

interpretation lbconfig: codec d_LBConfig zero_LBConfig enc_LBConfig ok_LBConfig
proof
  fix x assume ok: "ok_LBConfig x"
  have names: "map (fold_key \<circ> fst) LBConfig_members = map fst LBConfig_fields" "distinct (map fst LBConfig_fields)" by code_simp+
  show "d_LBConfig (enc_LBConfig x) zero_LBConfig = Inr x"
    unfolding d_LBConfig_def enc_LBConfig_def struct_back [OF names]
    unfolding LBConfig_members_def LBConfig_fields_def zero_LBConfig_def
    using ok by (cases x) (simp add: ok_LBConfig_def read_back)
qed (simp add: enc_LBConfig_def enc_struct_def)

lemmas LBConfig_back [read_back] = lbconfig.list_back lbconfig.ptr_back lbconfig.reads lbconfig.reads [unfolded zero_LBConfig_def]

interpretation networkpolicyrulebetween: codec d_NetworkPolicyRuleBetween zero_NetworkPolicyRuleBetween enc_NetworkPolicyRuleBetween ok_NetworkPolicyRuleBetween
proof
  fix x assume ok: "ok_NetworkPolicyRuleBetween x"
  have names: "map (fold_key \<circ> fst) NetworkPolicyRuleBetween_members = map fst NetworkPolicyRuleBetween_fields" "distinct (map fst NetworkPolicyRuleBetween_fields)" by code_simp+
  show "d_NetworkPolicyRuleBetween (enc_NetworkPolicyRuleBetween x) zero_NetworkPolicyRuleBetween = Inr x"
    unfolding d_NetworkPolicyRuleBetween_def enc_NetworkPolicyRuleBetween_def struct_back [OF names]
    unfolding NetworkPolicyRuleBetween_members_def NetworkPolicyRuleBetween_fields_def zero_NetworkPolicyRuleBetween_def
    using ok by (cases x) (simp add: ok_NetworkPolicyRuleBetween_def read_back)
qed (simp add: enc_NetworkPolicyRuleBetween_def enc_struct_def)

lemmas NetworkPolicyRuleBetween_back [read_back] = networkpolicyrulebetween.list_back networkpolicyrulebetween.ptr_back networkpolicyrulebetween.reads networkpolicyrulebetween.reads [unfolded zero_NetworkPolicyRuleBetween_def]

interpretation networkpolicyrulemember: codec d_NetworkPolicyRuleMember zero_NetworkPolicyRuleMember enc_NetworkPolicyRuleMember ok_NetworkPolicyRuleMember
proof
  fix x assume ok: "ok_NetworkPolicyRuleMember x"
  have names: "map (fold_key \<circ> fst) NetworkPolicyRuleMember_members = map fst NetworkPolicyRuleMember_fields" "distinct (map fst NetworkPolicyRuleMember_fields)" by code_simp+
  show "d_NetworkPolicyRuleMember (enc_NetworkPolicyRuleMember x) zero_NetworkPolicyRuleMember = Inr x"
    unfolding d_NetworkPolicyRuleMember_def enc_NetworkPolicyRuleMember_def struct_back [OF names]
    unfolding NetworkPolicyRuleMember_members_def NetworkPolicyRuleMember_fields_def zero_NetworkPolicyRuleMember_def
    using ok by (cases x) (simp add: ok_NetworkPolicyRuleMember_def read_back)
qed (simp add: enc_NetworkPolicyRuleMember_def enc_struct_def)

lemmas NetworkPolicyRuleMember_back [read_back] = networkpolicyrulemember.list_back networkpolicyrulemember.ptr_back networkpolicyrulemember.reads networkpolicyrulemember.reads [unfolded zero_NetworkPolicyRuleMember_def]

interpretation networkpolicyrule: codec d_NetworkPolicyRule zero_NetworkPolicyRule enc_NetworkPolicyRule ok_NetworkPolicyRule
proof
  fix x assume ok: "ok_NetworkPolicyRule x"
  have names: "map (fold_key \<circ> fst) NetworkPolicyRule_members = map fst NetworkPolicyRule_fields" "distinct (map fst NetworkPolicyRule_fields)" by code_simp+
  show "d_NetworkPolicyRule (enc_NetworkPolicyRule x) zero_NetworkPolicyRule = Inr x"
    unfolding d_NetworkPolicyRule_def enc_NetworkPolicyRule_def struct_back [OF names]
    unfolding NetworkPolicyRule_members_def NetworkPolicyRule_fields_def zero_NetworkPolicyRule_def
    using ok by (cases x) (simp add: ok_NetworkPolicyRule_def read_back)
qed (simp add: enc_NetworkPolicyRule_def enc_struct_def)

lemmas NetworkPolicyRule_back [read_back] = networkpolicyrule.list_back networkpolicyrule.ptr_back networkpolicyrule.reads networkpolicyrule.reads [unfolded zero_NetworkPolicyRule_def]

interpretation network: codec d_Network zero_Network enc_Network ok_Network
proof
  fix x assume ok: "ok_Network x"
  have names: "map (fold_key \<circ> fst) Network_members = map fst Network_fields" "distinct (map fst Network_fields)" by code_simp+
  show "d_Network (enc_Network x) zero_Network = Inr x"
    unfolding d_Network_def enc_Network_def struct_back [OF names]
    unfolding Network_members_def Network_fields_def zero_Network_def
    using ok by (cases x) (simp add: ok_Network_def read_back)
qed (simp add: enc_Network_def enc_struct_def)

lemmas Network_back [read_back] = network.list_back network.ptr_back network.reads network.reads [unfolded zero_Network_def]

interpretation host: codec d_Host zero_Host enc_Host ok_Host
proof
  fix x assume ok: "ok_Host x"
  have names: "map (fold_key \<circ> fst) Host_members = map fst Host_fields" "distinct (map fst Host_fields)" by code_simp+
  show "d_Host (enc_Host x) zero_Host = Inr x"
    unfolding d_Host_def enc_Host_def struct_back [OF names]
    unfolding Host_members_def Host_fields_def zero_Host_def
    using ok by (cases x) (simp add: ok_Host_def read_back)
qed (simp add: enc_Host_def enc_struct_def)

lemmas Host_back [read_back] = host.list_back host.ptr_back host.reads host.reads [unfolded zero_Host_def]

interpretation container: codec d_Container zero_Container enc_Container ok_Container
proof
  fix x assume ok: "ok_Container x"
  have names: "map (fold_key \<circ> fst) Container_members = map fst Container_fields" "distinct (map fst Container_fields)" by code_simp+
  show "d_Container (enc_Container x) zero_Container = Inr x"
    unfolding d_Container_def enc_Container_def struct_back [OF names]
    unfolding Container_members_def Container_fields_def zero_Container_def
    using ok by (cases x) (simp add: ok_Container_def read_back)
qed (simp add: enc_Container_def enc_struct_def)

lemmas Container_back [read_back] = container.list_back container.ptr_back container.reads container.reads [unfolded zero_Container_def]

interpretation service: codec d_Service zero_Service enc_Service ok_Service
proof
  fix x assume ok: "ok_Service x"
  have names: "map (fold_key \<circ> fst) Service_members = map fst Service_fields" "distinct (map fst Service_fields)" by code_simp+
  show "d_Service (enc_Service x) zero_Service = Inr x"
    unfolding d_Service_def enc_Service_def struct_back [OF names]
    unfolding Service_members_def Service_fields_def zero_Service_def
    using ok by (cases x) (simp add: ok_Service_def read_back)
qed (simp add: enc_Service_def enc_struct_def)

lemmas Service_back [read_back] = service.list_back service.ptr_back service.reads service.reads [unfolded zero_Service_def]

interpretation stack: codec d_Stack zero_Stack enc_Stack ok_Stack
proof
  fix x assume ok: "ok_Stack x"
  have names: "map (fold_key \<circ> fst) Stack_members = map fst Stack_fields" "distinct (map fst Stack_fields)" by code_simp+
  show "d_Stack (enc_Stack x) zero_Stack = Inr x"
    unfolding d_Stack_def enc_Stack_def struct_back [OF names]
    unfolding Stack_members_def Stack_fields_def zero_Stack_def
    using ok by (cases x) (simp add: ok_Stack_def read_back)
qed (simp add: enc_Stack_def enc_struct_def)

lemmas Stack_back [read_back] = stack.list_back stack.ptr_back stack.reads stack.reads [unfolded zero_Stack_def]

end
