(* ===== verification/MetaHttp.thy ===== *)
theory MetaHttp
  imports MetaClient MetaDocs
begin

text \<open>
  The metadata client over its HTTP transport (\<open>src/internal/metadata/client.go\<close>): the queries, each a request and the
  decoding of its reply, and the constructors.  (\<open>return result, client.decode(..., &result)\<close> reads \<open>result\<close> after the
  call, as Go's compiler does; the language leaves the order open.)  \<open>wire\<close> puts the client in the place of the metadata of an
  environment, so that what is proved of the watchers for every environment holds for a service behind HTTP.
\<close>

section \<open>Escaping\<close>

definition pct :: "char \<Rightarrow> string" where
  "pct c = (let n = of_char c :: int in [CHR ''%'', pct_digit (n div 16), pct_digit (n mod 16)])"

text \<open>\<open>url.PathEscape\<close> and \<open>url.QueryEscape\<close>.\<close>

definition PathEscape :: "string \<Rightarrow> string" where
  "PathEscape s = concat (map (\<lambda>c. if url_unreserved c \<or> c \<in> set ''$&+:=@'' then [c] else pct c) s)"

definition QueryEscape :: "string \<Rightarrow> string" where
  "QueryEscape s = concat (map (\<lambda>c. if c = CHR '' '' then ''+'' else if url_unreserved c then [c] else pct c) s)"

section \<open>Queries\<close>

definition invalid_json :: gerr where
  "invalid_json = Errorf ''metadata response was not valid JSON'' []"

definition unmarshal :: "gerr \<Rightarrow> 'a decoder \<Rightarrow> 'a \<Rightarrow> string \<Rightarrow> 'a result" where
  "unmarshal er d destination body =
     (case json_parse body of
        None \<Rightarrow> Inl er
      | Some v \<Rightarrow> (case d v destination of Inl _ \<Rightarrow> Inl er | Inr x \<Rightarrow> Inr x))"

definition client_decode :: "metadata_client \<Rightarrow> (url \<Rightarrow> http_reply) \<Rightarrow> string \<Rightarrow> 'a decoder \<Rightarrow> 'a \<Rightarrow> 'a result" where
  "client_decode client transport path d destination =
     bindR (sendRequestContext client transport path) (unmarshal invalid_json d destination)"

definition client_GetVersion :: "metadata_client \<Rightarrow> (url \<Rightarrow> http_reply) \<Rightarrow> string result" where
  "client_GetVersion client transport = client_decode client transport ''/version'' d_string []"

definition client_GetSelfHost :: "metadata_client \<Rightarrow> (url \<Rightarrow> http_reply) \<Rightarrow> Host result" where
  "client_GetSelfHost client transport = client_decode client transport ''/self/host'' d_Host zero_Host"

definition client_GetSelfContainer :: "metadata_client \<Rightarrow> (url \<Rightarrow> http_reply) \<Rightarrow> Container result" where
  "client_GetSelfContainer client transport = client_decode client transport ''/self/container'' d_Container zero_Container"

definition client_GetSelfServiceByName :: "metadata_client \<Rightarrow> (url \<Rightarrow> http_reply) \<Rightarrow> string \<Rightarrow> Service result" where
  "client_GetSelfServiceByName client transport name =
     client_decode client transport (''/self/stack/services/'' @ PathEscape name) d_Service zero_Service"

definition client_GetSelfService :: "metadata_client \<Rightarrow> (url \<Rightarrow> http_reply) \<Rightarrow> Service result" where
  "client_GetSelfService client transport = client_decode client transport ''/self/service'' d_Service zero_Service"

definition client_GetSelfStack :: "metadata_client \<Rightarrow> (url \<Rightarrow> http_reply) \<Rightarrow> Stack result" where
  "client_GetSelfStack client transport = client_decode client transport ''/self/stack'' d_Stack zero_Stack"

definition client_GetServices :: "metadata_client \<Rightarrow> (url \<Rightarrow> http_reply) \<Rightarrow> Service list result" where
  "client_GetServices client transport = client_decode client transport ''/services'' (d_list zero_Service d_Service) []"

definition client_GetStacks :: "metadata_client \<Rightarrow> (url \<Rightarrow> http_reply) \<Rightarrow> Stack list result" where
  "client_GetStacks client transport = client_decode client transport ''/stacks'' (d_list zero_Stack d_Stack) []"

definition client_GetContainers :: "metadata_client \<Rightarrow> (url \<Rightarrow> http_reply) \<Rightarrow> Container list result" where
  "client_GetContainers client transport = client_decode client transport ''/containers'' (d_list zero_Container d_Container) []"

definition client_GetHosts :: "metadata_client \<Rightarrow> (url \<Rightarrow> http_reply) \<Rightarrow> Host list result" where
  "client_GetHosts client transport = client_decode client transport ''/hosts'' (d_list zero_Host d_Host) []"

definition client_GetNetworks :: "metadata_client \<Rightarrow> (url \<Rightarrow> http_reply) \<Rightarrow> Network list result" where
  "client_GetNetworks client transport = client_decode client transport ''/networks'' (d_list zero_Network d_Network) []"

text \<open>\<open>values.Encode\<close> writes the parameters in the order of their names.\<close>

definition wait_query :: "int \<Rightarrow> string \<Rightarrow> string" where
  "wait_query maxWait version =
     ''maxWait='' @ QueryEscape (int_str maxWait) @ ''&value='' @ QueryEscape version @ ''&wait=true''"

definition client_waitVersion :: "metadata_client \<Rightarrow> (url \<Rightarrow> http_reply) \<Rightarrow> int \<Rightarrow> string \<Rightarrow> string result" where
  "client_waitVersion client transport maxWait version =
     bindR (sendRequestContext client transport (''/version?'' @ wait_query (if maxWait < 1 then 1 else maxWait) version))
       (unmarshal (Errorf ''metadata version response was not valid JSON'' []) d_string [])"

section \<open>Constructors\<close>

text \<open>A client that could not be built answers every query with its error.\<close>

definition NewClient :: "url option \<Rightarrow> metadata_client" where
  "NewClient parsed = newHTTPClient parsed []"

definition connectionDeadline :: int where "connectionDeadline = 20 * second"

text \<open>\<open>context.WithTimeout\<close> of the background context, started at time \<open>t0\<close>.\<close>

definition timeout_ctx :: "env \<Rightarrow> int \<Rightarrow> event list \<Rightarrow> gerr option" where
  "timeout_ctx e t0 h = (if t0 + connectionDeadline \<le> e_now e h then Some (EnvErr ''context deadline exceeded'') else None)"

definition waitForConnection :: "env \<Rightarrow> 'a world_scheme \<Rightarrow> (unit result \<times> 'a world_scheme) option" where
  "waitForConnection e s = waitForConnectionContext e (timeout_ctx e (e_now e (trace s))) second s"

definition NewClientWithIPAndWait :: "env \<Rightarrow> url option \<Rightarrow> string \<Rightarrow> 'a world_scheme \<Rightarrow> (metadata_client \<times> 'a world_scheme) option" where
  "NewClientWithIPAndWait e parsed forwardedFor s =
     (case newHTTPClient parsed forwardedFor of
        Inl er \<Rightarrow> Some (Inl er, s)
      | Inr client \<Rightarrow>
          (case waitForConnection e s of
             None \<Rightarrow> None
           | Some (Inl er, t) \<Rightarrow> Some (Inl er, t)
           | Some (Inr _, t) \<Rightarrow> Some (Inr client, t)))"

definition NewClientAndWait :: "env \<Rightarrow> url option \<Rightarrow> 'a world_scheme \<Rightarrow> (metadata_client \<times> 'a world_scheme) option" where
  "NewClientAndWait e parsed s = NewClientWithIPAndWait e parsed [] s"

text \<open>A pause lasts its delay or until the context ends.\<close>

definition pauseRetry :: "(event list \<Rightarrow> gerr option) \<Rightarrow> int \<Rightarrow> ('a world_scheme, unit) proc" where
  "pauseRetry ctx delay =
     bindP (time_Sleep delay) (\<lambda>_. bindP (getP (\<lambda>s. ctx (trace s))) (\<lambda>over. case over of Some er \<Rightarrow> raiseP er | None \<Rightarrow> retP ()))"

lemma wait_pauses:
  "waitForConnectionContext e ctx delay s =
     (case ctx (trace s) of
        Some er \<Rightarrow> Some (Inl (not_ready er), s)
      | None \<Rightarrow>
          (case mc_GetVersion e s of
             (Inr _, t) \<Rightarrow> Some (Inr (), t)
           | (Inl _, t) \<Rightarrow>
               (case pauseRetry ctx delay t of
                  (Inl er, u) \<Rightarrow> Some (Inl (not_ready er), u)
                | (Inr _, u) \<Rightarrow> waitForConnectionContext e ctx (next_delay delay) u)))"
  by (subst waitForConnectionContext.simps)
    (auto simp: pauseRetry_def bindP_def time_Sleep_def getP_def raiseP_def retP_def split: option.splits prod.splits sum.splits)

section \<open>Behind the watchers\<close>

definition failure :: "'a result \<Rightarrow> gerr option" where
  "failure r = (case r of Inl er \<Rightarrow> Some er | Inr _ \<Rightarrow> None)"

definition answer :: "'a \<Rightarrow> 'a result \<Rightarrow> 'a" where
  "answer zero r = (case r of Inl _ \<Rightarrow> zero | Inr x \<Rightarrow> x)"

text \<open>The transport may answer differently after every history.\<close>

definition wire :: "env \<Rightarrow> metadata_client \<Rightarrow> (event list \<Rightarrow> url \<Rightarrow> http_reply) \<Rightarrow> env" where
  "wire e client transport = e\<lparr>
     e_fail := (\<lambda>h c. case c of
         GetNetworks \<Rightarrow> failure (client_GetNetworks client (transport h))
       | GetHosts \<Rightarrow> failure (client_GetHosts client (transport h))
       | GetSelfHost \<Rightarrow> failure (client_GetSelfHost client (transport h))
       | GetContainers \<Rightarrow> failure (client_GetContainers client (transport h))
       | GetServices \<Rightarrow> failure (client_GetServices client (transport h))
       | _ \<Rightarrow> e_fail e h c),
     e_networks := (\<lambda>h. answer [] (client_GetNetworks client (transport h))),
     e_hosts := (\<lambda>h. answer [] (client_GetHosts client (transport h))),
     e_selfHost := (\<lambda>h. answer zero_Host (client_GetSelfHost client (transport h))),
     e_containers := (\<lambda>h. answer [] (client_GetContainers client (transport h))),
     e_services := (\<lambda>h. answer [] (client_GetServices client (transport h)))\<rparr>"

lemma ask_wired:
  assumes "e_fail e (trace s) c = failure r" and "fs_error (files s) c = None" and "\<And>x. r = Inr x \<Longrightarrow> f s = x"
  shows "fst (ask e c f s) = r"
  using assms by (cases r) (simp_all add: ask_def outcome_def failure_def)

lemma wired_queries:
  "fst (getNetworks (wire e client transport) s) = client_GetNetworks client (transport (trace s))"
  "fst (getHosts (wire e client transport) s) = client_GetHosts client (transport (trace s))"
  "fst (getSelfHost (wire e client transport) s) = client_GetSelfHost client (transport (trace s))"
  "fst (getContainers (wire e client transport) s) = client_GetContainers client (transport (trace s))"
  "fst (getServices (wire e client transport) s) = client_GetServices client (transport (trace s))"
  unfolding getNetworks_def getHosts_def getSelfHost_def getContainers_def getServices_def
  by (rule ask_wired; simp add: wire_def answer_def)+

section \<open>The requests\<close>

definition target :: "http_client \<Rightarrow> string \<Rightarrow> string \<Rightarrow> url" where
  "target c path query = (hc_baseURL c)\<lparr>url_Path := url_Path (hc_baseURL c) @ path, url_RawPath := [], url_RawQuery := query\<rparr>"

text \<open>The queries ask below the base path.\<close>

lemma query_target:
  assumes "parse_reference path = Some \<lparr>rf_Path = path, rf_RawPath = [], rf_RawQuery = []\<rparr>" and "has_prefix path ''/''"
    and "''..'' \<notin> set (str_split (CHR ''/'') (escape_path path))" and "list_all (\<lambda>p. \<not> equal_fold p ''%2e%2e'') (str_split (CHR ''/'') (escape_path path))"
    and "path \<noteq> ''*''"
  shows "endpoint (Inr c) path = Inr (target c path [])"
  using assms by (auto simp: endpoint_def EscapedPath_def target_def list_ex_iff list_all_iff)

definition data_paths :: "string list" where
  "data_paths = [''/version'', ''/self/host'', ''/self/container'', ''/self/service'', ''/self/stack'', ''/services'', ''/stacks'',
     ''/containers'', ''/hosts'', ''/networks'']"

lemma data_targets:
  assumes "path \<in> set data_paths"
  shows "endpoint (Inr c) path = Inr (target c path [])"
proof -
  have "list_all (\<lambda>path. parse_reference path = Some \<lparr>rf_Path = path, rf_RawPath = [], rf_RawQuery = []\<rparr> \<and> has_prefix path ''/''
      \<and> list_all (\<lambda>p. p \<noteq> ''..'' \<and> \<not> equal_fold p ''%2e%2e'') (str_split (CHR ''/'') (escape_path path)) \<and> path \<noteq> ''*'') data_paths"
    by code_simp
  with assms show ?thesis by (intro query_target) (auto simp: list_all_iff)
qed

text \<open>The version to wait for is part of the query, whatever it contains.\<close>

definition printable :: "char \<Rightarrow> bool" where
  "printable c \<longleftrightarrow> CHR ''%'' \<le> c \<and> c \<le> CHR ''~''"

lemma unreserved_printable: "url_unreserved c \<Longrightarrow> printable c"
proof -
  have b: "CHR ''%'' \<le> CHR ''a''" "CHR ''z'' \<le> CHR ''~''" "CHR ''%'' \<le> CHR ''A''" "CHR ''Z'' \<le> CHR ''~''"
    "CHR ''%'' \<le> CHR ''0''" "CHR ''9'' \<le> CHR ''~''" by (simp_all add: less_eq_char_def)
  have s: "printable (CHR ''-'')" "printable (CHR ''_'')" "printable (CHR ''.'')" "printable (CHR ''~'')"
    by (simp_all add: printable_def less_eq_char_def)
  assume "url_unreserved c"
  then consider "is_lower c" | "is_upper c" | "is_digit c" | "c \<in> set ''-_.~''" by (auto simp: url_unreserved_def is_alnum_def)
  then show ?thesis
  proof cases
    case 1
    then show ?thesis using b unfolding is_lower_def printable_def by (meson order_trans)
  next
    case 2
    then show ?thesis using b unfolding is_upper_def printable_def by (meson order_trans)
  next
    case 3
    then show ?thesis using b unfolding is_digit_def printable_def by (meson order_trans)
  qed (use s in auto)
qed

lemma hex_printable: "0 \<le> n \<Longrightarrow> n < 16 \<Longrightarrow> printable (pct_digit n)"
proof -
  assume "0 \<le> n" "n < 16"
  from pct_digit_in [OF this] have "pct_digit n \<in> set ''0123456789ABCDEF''" .
  moreover have "list_all printable ''0123456789ABCDEF''" by (simp add: printable_def less_eq_char_def)
  ultimately show ?thesis by (simp add: list_all_iff del: set_simps)
qed

lemma pct_printable: "x \<in> set (pct c) \<Longrightarrow> printable x"
proof -
  have n: "0 \<le> of_char c div (16 :: int)" "of_char c div (16 :: int) < 16" "0 \<le> of_char c mod (16 :: int)" "of_char c mod (16 :: int) < 16"
    using char_code [of c] by auto
  assume "x \<in> set (pct c)"
  then show ?thesis using hex_printable [OF n(1,2)] hex_printable [OF n(3,4)] by (auto simp: pct_def Let_def) (simp add: printable_def less_eq_char_def)
qed

lemma query_escape_printable: "x \<in> set (QueryEscape s) \<Longrightarrow> printable x"
proof -
  assume "x \<in> set (QueryEscape s)"
  then obtain c where "x \<in> set (if c = CHR '' '' then ''+'' else if url_unreserved c then [c] else pct c)"
    unfolding QueryEscape_def set_concat set_map by blast
  then show ?thesis using unreserved_printable pct_printable
    by (auto split: if_splits) (simp add: printable_def less_eq_char_def)
qed

lemma printable_safe: "printable c \<Longrightarrow> c \<noteq> CHR ''#'' \<and> \<not> c < CHR 0x20 \<and> c \<noteq> CHR 0x7F"
proof -
  assume p: "printable c"
  have b: "CHR ''#'' < CHR ''%''" "CHR 0x20 < CHR ''%''" "CHR ''~'' < CHR 0x7F" by (simp_all add: less_char_def)
  then show ?thesis using p unfolding printable_def by (metis leD less_le_trans le_less_trans less_trans)
qed

lemma wait_query_chars: "c \<in> set (wait_query n version) \<Longrightarrow> c \<noteq> CHR ''#'' \<and> \<not> c < CHR 0x20 \<and> c \<noteq> CHR 0x7F"
proof -
  have "list_all printable ''maxWait=''" "list_all printable ''&value=''" "list_all printable ''&wait=true''"
    by (simp_all add: printable_def less_eq_char_def)
  moreover assume "c \<in> set (wait_query n version)"
  ultimately have "printable c" unfolding wait_query_def list_all_iff set_append using query_escape_printable by blast
  then show ?thesis by (rule printable_safe)
qed

lemma wait_target: "endpoint (Inr c) (''/version?'' @ wait_query n version) = Inr (target c ''/version'' (wait_query n version))"
proof -
  let ?q = "wait_query n version" and ?p = "''/version?'' @ wait_query n version"
  have q: "CHR ''#'' \<notin> set ?q" "\<not> list_ex (\<lambda>c. c < CHR 0x20 \<or> c = CHR 0x7F) ?q"
    using wait_query_chars by (auto simp: list_ex_iff)
  have tq: "takeWhile (\<lambda>x. x \<noteq> CHR ''#'') ?q = ?q" and dq: "dropWhile (\<lambda>x. x \<noteq> CHR ''#'') ?q = []"
    using q(1) by (auto simp: takeWhile_eq_all_conv dropWhile_eq_Nil_conv)
  have cut: "cut_at (CHR ''#'') ?p = (?p, [])" "cut_at (CHR ''?'') ?p = (''/version'', ?q)"
    by (simp_all add: cut_at_def tq dq)
  have small: "\<not> list_ex (\<lambda>c. c < CHR 0x20 \<or> c = CHR 0x7F) ?p" using q(2) by (auto simp: less_char_def)
  have esc: "escape_path ''/version'' = ''/version''" "unescape ''/version'' = Some ''/version''" by code_simp+
  have "parse_reference ?p = Some \<lparr>rf_Path = ''/version'', rf_RawPath = [], rf_RawQuery = ?q\<rparr>"
    using small unfolding parse_reference_def cut(1) Let_def prod.case unfolding cut(2) prod.case
    by (simp add: esc set_path_def has_prefix_def is_lower_def is_upper_def is_digit_def)
  moreover have "str_split (CHR ''/'') ''/version'' = [[], ''version'']" "\<not> equal_fold ''version'' ''%2e%2e''" "\<not> equal_fold [] ''%2e%2e''"
    by code_simp+
  ultimately show ?thesis by (simp add: endpoint_def EscapedPath_def esc target_def has_prefix_def)
qed

text \<open>Escaping keeps the name of a service in one segment of the path asked for, but the address is built from the decoded
  path: a name with slashes and dots climbs out of the base path.\<close>

lemma service_name_climbs:
  "endpoint (Inr example_client) (''/self/stack/services/'' @ PathEscape ''../../secret'')
     = Inr (target example_client ''/self/stack/services/../../secret'' [])"
  by code_simp

section \<open>Properties\<close>

text \<open>What the service publishes, and that its replies say so.\<close>

record catalogue =
  cg_networks :: "Network list"
  cg_hosts :: "Host list"
  cg_selfHost :: Host
  cg_containers :: "Container list"
  cg_services :: "Service list"

definition document :: "http_client \<Rightarrow> (url \<Rightarrow> http_reply) \<Rightarrow> string \<Rightarrow> json option" where
  "document c transport path =
     (case transport (target c path []) of
        Reply status (Inr body) \<Rightarrow> if status = 200 \<and> int (length body) \<le> maxResponseBytes then json_parse body else None
      | _ \<Rightarrow> None)"

definition publishes :: "http_client \<Rightarrow> (url \<Rightarrow> http_reply) \<Rightarrow> catalogue \<Rightarrow> bool" where
  "publishes c transport cat \<longleftrightarrow>
     document c transport ''/networks'' = Some (enc_list enc_Network (cg_networks cat))
   \<and> document c transport ''/hosts'' = Some (enc_list enc_Host (cg_hosts cat))
   \<and> document c transport ''/self/host'' = Some (enc_Host (cg_selfHost cat))
   \<and> document c transport ''/containers'' = Some (enc_list enc_Container (cg_containers cat))
   \<and> document c transport ''/services'' = Some (enc_list enc_Service (cg_services cat))"

definition expressible :: "catalogue \<Rightarrow> bool" where
  "expressible cat \<longleftrightarrow> list_all ok_Network (cg_networks cat) \<and> list_all ok_Host (cg_hosts cat) \<and> ok_Host (cg_selfHost cat)
     \<and> list_all ok_Container (cg_containers cat) \<and> list_all ok_Service (cg_services cat)"

lemma query_document:
  assumes "document c transport path = Some v" and "path \<in> set data_paths" and "d v destination = Inr x"
  shows "client_decode (Inr c) transport path d destination = Inr x"
proof -
  from assms(1) obtain body where b: "transport (target c path []) = Reply 200 (Inr body)" "int (length body) \<le> maxResponseBytes"
    "json_parse body = Some v"
    by (auto simp: document_def split: http_reply.splits sum.splits if_splits)
  have "sendRequestContext (Inr c) transport path = Inr body"
    using b(1,2) by (simp add: sendRequestContext_def data_targets [OF assms(2)] check_reply_def)
  then show ?thesis using b(3) assms(3) by (simp add: client_decode_def unmarshal_def)
qed

text \<open>C16: The watchers work on what the service published.  With the HTTP client in the place of the metadata, and as
  long as the service's replies are documents of its networks, hosts, containers and services - in JSON, with
  every field of every struct - each query any watcher makes returns exactly the published data: no
  entry is lost, reordered or mixed up, no field of the dozens in a struct is swapped, clipped or defaulted.\<close>

theorem published_data_is_read:
  assumes "publishes c (transport (trace s)) cat" and "expressible cat"
  shows "fst (getNetworks (wire e (Inr c) transport) s) = Inr (cg_networks cat)
    \<and> fst (getHosts (wire e (Inr c) transport) s) = Inr (cg_hosts cat)
    \<and> fst (getSelfHost (wire e (Inr c) transport) s) = Inr (cg_selfHost cat)
    \<and> fst (getContainers (wire e (Inr c) transport) s) = Inr (cg_containers cat)
    \<and> fst (getServices (wire e (Inr c) transport) s) = Inr (cg_services cat)"
  using assms unfolding wired_queries client_GetNetworks_def client_GetHosts_def client_GetSelfHost_def client_GetContainers_def
    client_GetServices_def publishes_def expressible_def
  by (auto simp: data_paths_def intro!: query_document network.list_back host.list_back host.reads container.list_back service.list_back)

text \<open>A service with one network, on one host.\<close>

fun doc_text :: "json \<Rightarrow> string" where
  "doc_text JNull = ''null''"
| "doc_text (JBool b) = json_bool b"
| "doc_text (JNum l) = l"
| "doc_text (JStr s) = text_quote s"
| "doc_text (JArr vs) = (if vs = [] then ''[]'' else ''['' @ str_join '','' (map doc_text vs) @ '']'')"
| "doc_text (JObj m) =
     (if m = [] then ''{}'' else ''{'' @ str_join '','' (map (member [] []) (map (\<lambda>kv. (fst kv, doc_text (snd kv))) m)) @ [] @ ''}'')"

lemma doc_shown: "list_all json_number (literals v) \<Longrightarrow> shown (doc_text v) v"
proof (induction v rule: doc_text.induct)
  case (5 vs)
  then have "shown (doc_text v) v" if "v \<in> set vs" for v using that by (cases "vs = []") (auto simp: list_all_iff)
  then have "list_all2 shown (map doc_text vs) vs" by (simp add: list_all2_map1 list_all2_same)
  then show ?case using shown_array [of "map doc_text vs" vs "[]" "[]"] by (auto simp: shown_empty blank_def)
next
  case (6 m)
  then have "shown (doc_text (snd kv)) (snd kv)" if "kv \<in> set m" for kv
    using that by (cases "m = []") (auto simp: list_all_iff)
  then have "list_all2 member_shown (map (\<lambda>kv. (fst kv, doc_text (snd kv))) m) m"
    by (simp add: list_all2_map1 list_all2_same member_shown_def)
  then show ?case using shown_object [of "map (\<lambda>kv. (fst kv, doc_text (snd kv))) m" m "[]" "[]" "[]"] by (auto simp: shown_empty blank_def)
qed (simp_all add: shown_literals shown_string shown_number)

definition one_host :: catalogue where
  "one_host = \<lparr>cg_networks = [zero_Network\<lparr>net_Default := True, net_Name := ''ipsec'', net_Metadata := [(''mtu'', JNum ''1500'')], net_UUID := ''n1''\<rparr>],
     cg_hosts = [zero_Host\<lparr>host_HostId := - 7, host_Labels := [(''zone'', ''a'')], host_UUID := ''h1''\<rparr>],
     cg_selfHost = zero_Host\<lparr>host_HostId := - 7, host_Labels := [(''zone'', ''a'')], host_UUID := ''h1''\<rparr>,
     cg_containers = [], cg_services = []\<rparr>"

definition one_reply :: "url \<Rightarrow> http_reply" where
  "one_reply u =
     (let path = drop (length (url_Path (hc_baseURL example_client))) (url_Path u) in
      Reply 200 (Inr (doc_text
        (if path = ''/networks'' then enc_list enc_Network (cg_networks one_host)
         else if path = ''/hosts'' then enc_list enc_Host (cg_hosts one_host)
         else if path = ''/self/host'' then enc_Host (cg_selfHost one_host)
         else JArr []))))"

lemma one_document:
  assumes "one_reply (target example_client path []) = Reply 200 (Inr (doc_text v))"
    and "list_all json_number (literals v) \<and> int (length (doc_text v)) \<le> maxResponseBytes"
  shows "document example_client one_reply path = Some v"
  using assms shown_parse [OF doc_shown [of v]] by (simp add: document_def)

lemma one_published: "publishes example_client one_reply one_host"
proof -
  have path: "drop (length (url_Path (hc_baseURL example_client))) (url_Path (target example_client path [])) = path" for path
    by (simp add: target_def)
  note run = path one_reply_def Let_def
  have size: "list_all json_number (literals (enc_list enc_Network (cg_networks one_host)))
      \<and> int (length (doc_text (enc_list enc_Network (cg_networks one_host)))) \<le> maxResponseBytes"
    "list_all json_number (literals (enc_list enc_Host (cg_hosts one_host)))
      \<and> int (length (doc_text (enc_list enc_Host (cg_hosts one_host)))) \<le> maxResponseBytes"
    "list_all json_number (literals (enc_Host (cg_selfHost one_host)))
      \<and> int (length (doc_text (enc_Host (cg_selfHost one_host)))) \<le> maxResponseBytes"
    "list_all json_number (literals (JArr [])) \<and> int (length (doc_text (JArr []))) \<le> maxResponseBytes"
    by code_simp+
  have empty: "enc_list enc_Container (cg_containers one_host) = JArr []" "enc_list enc_Service (cg_services one_host) = JArr []"
    by (simp_all add: one_host_def enc_list_def)
  show ?thesis unfolding publishes_def empty
    by (intro conjI; rule one_document [OF _ size(1)] one_document [OF _ size(2)] one_document [OF _ size(3)] one_document [OF _ size(4)];
        simp add: run)
qed

theorem published_data_is_read_witness:
  "fst (getHosts (wire quiet_env (Inr example_client) (\<lambda>_. one_reply)) stream_start) = Inr (cg_hosts one_host)
   \<and> fst (getNetworks (wire quiet_env (Inr example_client) (\<lambda>_. one_reply)) stream_start) = Inr (cg_networks one_host)
   \<and> int (length (cg_hosts one_host)) = 1"
proof -
  have "expressible one_host" by code_simp
  with published_data_is_read [of example_client "\<lambda>_. one_reply" stream_start one_host quiet_env] one_published show ?thesis
    by (simp add: one_host_def)
qed

end
