(* ===== verification/BinLife.thy ===== *)
theory BinLife
  imports BinExecSafe
begin

text \<open>
  The life of the wrapper watcher (\<open>src/binexec/watcher.go\<close>): \<open>Watch\<close>, and then any sequence of metadata changes,
  drift ticks and Docker events.  The watcher's mutex serialises what its goroutines and the event router
  make it do.
\<close>

datatype bx_input = MetadataChange string | DriftTick | DockerEvent "docker_event option"

text \<open>What comes out of the ticker's channel: a tick, or that it is closed; \<open>None\<close> stands for the end of the
  context.\<close>

fun refreshProviders :: "env \<Rightarrow> bool option list \<Rightarrow> ('a bx_state_scheme, unit) proc" where
  "refreshProviders e [] = retP ()"
| "refreshProviders e (None # rest) = retP ()"
| "refreshProviders e (Some ok # rest) =
     (if \<not> ok then retP () else bindP (bx_onChangeNoError e) (\<lambda>_. refreshProviders e rest))"

text \<open>The router logs the error of a handler.\<close>

fun bx_react :: "env \<Rightarrow> bx_input \<Rightarrow> ('a bx_state_scheme, unit) proc" where
  "bx_react e (MetadataChange version) = bx_onChangeNoError e"
| "bx_react e DriftTick = refreshProviders e [Some True]"
| "bx_react e (DockerEvent event) = ignoring (bx_Handle e event)"

definition bx_life :: "env \<Rightarrow> bx_input list \<Rightarrow> ('a bx_state_scheme, unit) proc" where
  "bx_life e inputs = bindP (bx_Watch e) (\<lambda>_. forP (bx_react e) inputs)"

section \<open>Confinement for life\<close>

definition confined :: "event list \<Rightarrow> 'a bx_state_scheme \<Rightarrow> bool" where
  "confined t s \<longleftrightarrow> valid_names (bx_applied s) \<and> only_since t wrapper_scope s"

lemma confined_change:
  assumes "\<And>h. CHR ''/'' \<notin> set (e_rand e h)"
  shows "frame (confined t) (bx_onChange e)"
proof -
  have "confined t s'" if c: "confined t s" and run: "bx_onChange e s = (r, s')" for s r s'
  proof -
    from c have v: "valid_names (bx_applied s)" and o: "only_since t wrapper_scope s" by (simp_all add: confined_def)
    from wrappers_confined [OF assms v run] obtain u where u: "valid_names (bx_applied s')" "trace s' = trace s @ u"
      "\<forall>c \<in> set (calls_of u). wrapper_scope c" by blast
    from o obtain w where w: "trace s = t @ w" "\<forall>ev \<in> set w. wrapper_scope (fst ev)" by (auto simp: since_def)
    have "\<forall>ev \<in> set u. wrapper_scope (fst ev)" using u(3) by (auto simp: calls_of_def)
    then show ?thesis using u(1,2) w by (auto simp: confined_def since_def)
  qed
  then show ?thesis by (intro frameI hoareI) blast+
qed

lemma frame_record: "(\<And>s. confined t s \<Longrightarrow> confined t (f s)) \<Longrightarrow> frame (confined t) (modifyP f)"
  by (simp add: frame_def hoare_def modifyP_def)

lemma confined_inputs:
  assumes "\<And>h. CHR ''/'' \<notin> set (e_rand e h)"
  shows "frame (confined t) (bx_onChangeNoError e)" "frame (confined t) (bx_Handle e event)" "frame (confined t) (refreshProviders e ticks)"
proof -
  note change = confined_change [OF assms]
  show no: "frame (confined t) (bx_onChangeNoError e)"
    unfolding bx_onChangeNoError_def by (intro frame_bind frame_try frame_basic change)
  show "frame (confined t) (bx_Handle e event)"
    unfolding bx_Handle_def
    by (intro frame_control frame_bind frame_basic change frame_record) (simp_all add: confined_def since_def)
  show "frame (confined t) (refreshProviders e ticks)"
  proof (induction ticks)
    case (Cons tick ticks)
    then show ?case by (cases tick) (auto intro!: frame_bind frame_basic no)
  qed (simp add: frame_basic)
qed

lemma no_error_ok: "\<exists>s'. bx_onChangeNoError e s = (Inr (), s')"
  by (simp add: bx_onChangeNoError_def bindP_def tryP_def retP_def split: prod.splits)

lemma react_ok: "\<exists>s'. bx_react e input s = (Inr (), s')"
  by (cases input) (simp_all add: ignoring_inr bx_onChangeNoError_def bindP_def tryP_def retP_def split: prod.splits)

lemma forP_ok: "(\<And>x s. \<exists>s'. f x s = (Inr (), s')) \<Longrightarrow> \<exists>s'. forP f xs s = (Inr (), s')"
proof (induction xs arbitrary: s)
  case (Cons x xs)
  obtain t where "f x s = (Inr (), t)" using Cons.prems by blast
  then show ?case using Cons.IH [OF Cons.prems, of t] by (simp add: bindP_def)
qed (simp add: retP_def)



end
