(* ===== verification/Startup.thy ===== *)
theory Startup
  imports HostNat
begin

text \<open>
  The start of the program (\<open>main\<close> and \<open>run\<close> in \<open>src/main.go\<close>): its options, the stages in their order, which of them
  end the program when they fail and which only leave their own feature off, and when the process fails.  What a stage does is the model of its
  component; here it has an outcome.
\<close>

datatype stage = ReadinessStatus | DockerClient | FirewallBackend | RouteSync | MetadataService | MacSync | NetworkManager
  | OutboundNAT | PublishedPorts | ContainerReaper | ConntrackCleanup | CniConfig | ArpTables | BinaryWrappers | DockerEvents

text \<open>The stages whose failure \<open>run\<close> returns.  The MAC and binary watchers report none.\<close>

definition ends_program :: "stage \<Rightarrow> bool" where
  "ends_program st \<longleftrightarrow> st \<notin> {MacSync, ContainerReaper, ConntrackCleanup, CniConfig, ArpTables, BinaryWrappers}"

definition stages :: "stage list" where
  "stages = [ReadinessStatus, DockerClient, FirewallBackend, RouteSync, MetadataService, MacSync, NetworkManager, OutboundNAT,
     PublishedPorts, ContainerReaper, ConntrackCleanup, CniConfig, ArpTables, BinaryWrappers, DockerEvents]"

definition stage_error :: "stage \<Rightarrow> gerr \<Rightarrow> gerr" where
  "stage_error st er = (if st = MetadataService then Wrapf ''create metadata client: %w'' [] er else er)"

text \<open>The stages that were tried, and the error that ended the program.\<close>

fun run_stages :: "(stage \<Rightarrow> gerr option) \<Rightarrow> stage list \<Rightarrow> stage list \<times> gerr option" where
  "run_stages res [] = ([], None)"
| "run_stages res (st # sts) =
     (case res st of
        Some er \<Rightarrow> if ends_program st then ([st], Some (stage_error st er))
          else (let (tried, err) = run_stages res sts in (st # tried, err))
      | None \<Rightarrow> (let (tried, err) = run_stages res sts in (st # tried, err)))"

definition run_main :: "(stage \<Rightarrow> gerr option) \<Rightarrow> stage list \<times> gerr option" where
  "run_main res = run_stages res stages"

definition stage_ok :: "(stage \<Rightarrow> gerr option) \<Rightarrow> stage \<Rightarrow> bool" where
  "stage_ok res st \<longleftrightarrow> ends_program st \<longrightarrow> res st = None"

lemma run_stages_split:
  "run_stages res sts = (tried, err) \<Longrightarrow> \<exists>rest. sts = tried @ rest
    \<and> (case err of
         None \<Rightarrow> rest = [] \<and> list_all (stage_ok res) sts
       | Some er \<Rightarrow> tried \<noteq> [] \<and> \<not> stage_ok res (last tried) \<and> list_all (stage_ok res) (butlast tried))"
proof (induction sts arbitrary: tried)
  case (Cons st sts)
  show ?case
  proof (cases "stage_ok res st")
    case True
    obtain tried' err' where t: "run_stages res sts = (tried', err')" by fastforce
    with True Cons.prems have eq: "tried = st # tried'" "err = err'" by (auto simp: stage_ok_def split: option.splits)
    from Cons.IH [OF t [folded eq(2)]] show ?thesis unfolding eq(1) by (cases err) (use True in auto)
  next
    case False
    then show ?thesis using Cons.prems by (auto simp: stage_ok_def split: option.splits)
  qed
qed simp

text \<open>The program keeps running exactly when every stage that must succeed did, and then every stage was tried; a
  failure of another one ends it before the stages that follow.\<close>

theorem startup_fails_closed:
  assumes "run_main res = (tried, err)"
  shows "(err = None \<longleftrightarrow> list_all (stage_ok res) stages) \<and> prefix tried stages \<and> (err = None \<longrightarrow> tried = stages)
    \<and> (err \<noteq> None \<longrightarrow> tried \<noteq> [] \<and> \<not> stage_ok res (last tried) \<and> list_all (stage_ok res) (butlast tried))"
proof (cases err)
  case None
  then show ?thesis using run_stages_split [OF assms [unfolded run_main_def]] by auto
next
  case (Some er)
  then obtain rest where rest: "stages = tried @ rest" "tried \<noteq> []" "\<not> stage_ok res (last tried)" "list_all (stage_ok res) (butlast tried)"
    using run_stages_split [OF assms [unfolded run_main_def]] by auto
  have "last tried \<in> set stages" using last_in_set [OF rest(2)] unfolding rest(1) by simp
  then have "\<not> list_all (stage_ok res) stages" using rest(3) unfolding list_all_iff by blast
  then show ?thesis using rest Some unfolding prefix_def by blast
qed

section \<open>The process\<close>

text \<open>The command-line options with the values they have when not given; a switch has none.\<close>

definition command_line :: "(string \<times> string option) list" where
  "command_line =
     [(''metadata-url'', Some ''http://metadata/2016-07-29''), (''conntracksync-interval'', Some []), (''routesync-interval'', Some []),
      (''arpsync-interval'', Some []), (''debug'', None), (''firewall-backend'', Some ''auto'')]"

definition context_canceled :: gerr where "context_canceled = EnvErr ''context canceled''"

text \<open>\<open>logrus.Fatal\<close>: the process fails, unless it ended because it was told to.\<close>

definition process_fails :: "gerr option \<Rightarrow> bool" where
  "process_fails err = (case err of None \<Rightarrow> False | Some er \<Rightarrow> \<not> errors_is er context_canceled)"

lemma run_stages_error:
  "run_stages res sts = (tried, Some er) \<Longrightarrow> \<exists>st er'. st \<in> set sts \<and> ends_program st \<and> res st = Some er' \<and> er = stage_error st er'"
proof (induction sts arbitrary: tried)
  case (Cons st sts)
  show ?case
  proof (cases "stage_ok res st")
    case True
    obtain tried' err' where t: "run_stages res sts = (tried', err')" by fastforce
    with True Cons.prems have "err' = Some er" by (auto simp: stage_ok_def split: option.splits)
    from Cons.IH [OF t [unfolded this]] show ?thesis by auto
  next
    case False
    then show ?thesis using Cons.prems by (fastforce simp: stage_ok_def split: option.splits)
  qed
qed simp

text \<open>The process fails only because a stage the program depends on failed, and an interrupt while it waits for the
  metadata service - also when it is wrapped - is not a failure.\<close>

theorem process_failure_cause:
  assumes "process_fails (snd (run_main res))"
  shows "\<exists>st er. st \<in> set stages \<and> ends_program st \<and> res st = Some er \<and> \<not> errors_is er context_canceled"
proof -
  obtain tried err where run: "run_main res = (tried, err)" by fastforce
  with assms obtain er where er: "err = Some er" "\<not> errors_is er context_canceled" by (auto simp: process_fails_def split: option.splits)
  from run_stages_error [OF run [unfolded run_main_def er(1)]] obtain st er' where
    "st \<in> set stages" "ends_program st" "res st = Some er'" "er = stage_error st er'" by blast
  then show ?thesis using er(2) by (auto simp: stage_error_def split: if_splits)
qed

end
