(* ===== verification/Spec2Isabelle.thy ===== *)
theory Spec2Isabelle
  imports HostNatOrder HostNatText FirewallSystem ConntrackSync Reaper Locks CniConfSafe
    NetManagerSafe ArpSync LinkSync EventRouter MetaHttp BinLife Startup
begin

text \<open>
  A verification library for network-plugin-manager, the host agent of a container platform.

  \<^bold>\<open>The program.\<close>  The agent reads the platform's metadata service and the Docker daemon and keeps the host's network
  in the state they describe.  \<open>src/main.go\<close> starts its parts one after the other; most of them are watchers
  that run in their own goroutine whenever the metadata changed, compute what should be there, and bring it
  about with external commands, files and netlink calls:
  published ports and forwarding exceptions (\<open>src/hostports\<close>), outbound NAT (\<open>src/hostnat\<close>), stale connections
  (\<open>src/conntracksync\<close>), orphaned containers (\<open>src/reaper\<close>), CNI configuration files (\<open>src/cniconf\<close>), wrappers for
  CNI binaries (\<open>src/binexec\<close>), neighbour tables (\<open>src/arpsync\<close>), hardware addresses (\<open>src/macsync\<close>) and the route
  to the metadata address (\<open>src/routesync\<close>).  Docker events are routed to workers (\<open>src/events\<close>) which install
  wrappers, set up a container's resolver and bring its CNI network up and down (\<open>src/network\<close>,
  \<open>src/internal/cniglue\<close>).  \<open>src/internal/firewall\<close> decides which firewall front end may be used,
  \<open>src/internal/readiness\<close> tells the outside whether both firewall watchers are in step,
  \<open>src/internal/metadata\<close> is the metadata client, and \<open>src/identity\<close>, \<open>src/internal/hostlabel\<close>, \<open>keylock\<close>,
  \<open>trylock\<close> and \<open>logsafe\<close> are shared helpers.

  \<^bold>\<open>The model.\<close>  A Go function that only computes is a HOL function with the function's name; a struct is a record, an
  error a value of \<open>gerr\<close> with its format string, its arguments and the error it wraps.  A function with effects
  is a procedure \<open>('s, 'a) proc\<close>, that is \<open>'s => gerr + 'a \<times> 's\<close>: it may fail with an error and then keeps the
  effects it had, as Go does.  The state of a component is a record that extends \<open>world\<close>: the history of all
  calls to the outside with their outcomes (\<open>trace\<close>) and the contents of the files.  What the outside does is
  the environment \<open>env\<close>: from the whole history it decides whether a call fails, what it answers, in which order
  Go ranges over a map, and what a failed write leaves behind.  A theorem for every \<open>env\<close> therefore holds for every
  pattern of failures and for every change of the metadata or of Docker between two calls.  Maps are
  association lists without repeated keys (\<open>gomap\<close>); strings are lists of bytes; IPv4 addresses are 32-bit
  words; Go's 64-bit integers are mathematical ones where the code range-checks them and cannot overflow them.
  Definitions compute, and the witnesses run them.

  \<^bold>\<open>The theories\<close>, from the bottom:
  \<^item> \<open>Prelude\<close>: results, procedures, their triples (\<open>hoare\<close>) and loops; \<open>GoStrings\<close>: the functions of \<open>strings\<close> and
    \<open>strconv\<close> the code uses; \<open>NetIP\<close>: \<open>net\<close> and \<open>net/netip\<close> addresses and prefixes; \<open>Metadata\<close>: \<open>types.go\<close>;
    \<open>Json\<close>: decoding and printing of JSON; \<open>JsonText\<close>: printed documents are read back; \<open>MetaDecode\<close>, \<open>MetaDocs\<close>:
    the documents of the metadata service and the structs decoded from them.
  \<^item> \<open>World\<close>: calls, environment, files, and the rules for which calls a procedure makes and in which order;
    \<open>Frames\<close>, \<open>Parts\<close>, \<open>Sweep\<close>, \<open>AtomicFile\<close>, \<open>Draining\<close>: shared contracts (what a procedure leaves alone, a
    component's procedure in a larger state, best-effort loops and pauses between rounds, replacing a file at
    once, step relations that work off a stock).
  \<^item> \<open>HostLabel\<close>, \<open>Identity\<close>, \<open>Locks\<close>, \<open>Readiness\<close>: the helper packages of these names; \<open>Firewall\<close>: \<open>backend.go\<close>.
  \<^item> \<open>HostPortRules\<close> (rule sets and their validation), \<open>HostPortRender\<close> (\<open>iptables-restore\<close> and \<open>nft\<close> text),
    \<open>RouteLocalnet\<close> (the owned switches and their file), \<open>HostPorts\<close> (the watcher), \<open>HostPortsOrder\<close> (order and
    commitment of an update): \<open>src/hostports\<close>.
  \<^item> \<open>HostNatRules\<close>, \<open>HostNatText\<close>, \<open>HostNat\<close>, \<open>HostNatOrder\<close>: \<open>src/hostnat\<close>; \<open>Reconcile\<close>: the retry loops of both
    firewall watchers; \<open>FirewallSystem\<close>: both watchers and the readiness tracker as \<open>src/main.go\<close> connects them.
  \<^item> \<open>Conntrack\<close>, \<open>ConntrackSync\<close>, \<open>Reaper\<close>: the packages of these names.
  \<^item> \<open>BinVersions\<close>, \<open>BinExec\<close>, \<open>BinExecSafe\<close>, \<open>BinLife\<close>: \<open>src/binexec\<close>; \<open>CniConf\<close>, \<open>CniConfSafe\<close>: \<open>src/cniconf\<close>.
  \<^item> \<open>CniGlue\<close>, \<open>NetManager\<close>, \<open>NetManagerSafe\<close>, \<open>NetLocal\<close>: \<open>src/internal/cniglue\<close> and \<open>src/network\<close>.
  \<^item> \<open>ArpSync\<close>, \<open>LinkSync\<close>: \<open>src/arpsync\<close>, \<open>src/macsync\<close>, \<open>src/routesync\<close>.
  \<^item> \<open>ResolvConf\<close>, \<open>EventRouter\<close>: \<open>src/events\<close>; \<open>MetaURL\<close>, \<open>MetaClient\<close>, \<open>MetaHttp\<close>:
    \<open>src/internal/metadata/client.go\<close>, from addresses and replies to the change stream and the queries; \<open>Startup\<close>: \<open>main\<close> and
    \<open>run\<close> in \<open>src/main.go\<close>.

  Names that several packages share carry a prefix: \<open>hp_\<close> hostports, \<open>hn_\<close> hostnat, \<open>cs_\<close> conntracksync, \<open>rp_\<close> reaper,
  \<open>bx_\<close> binexec, \<open>cn_\<close> cniconf, \<open>nm_\<close> network, \<open>at_\<close> arpsync, \<open>ms_\<close> macsync, \<open>rs_\<close> routesync, \<open>st_\<close> and \<open>rt_\<close> events,
  \<open>rd_\<close> and \<open>tr_\<close> readiness, \<open>kl_\<close> keylock, \<open>tl_\<close> trylock, \<open>fw_\<close> the two firewall watchers together,
  \<open>client_\<close> metadata queries over HTTP, \<open>d_\<close> JSON decoders.

  \<^bold>\<open>Interfaces.\<close>  \<open>atomic_writer\<close> (AtomicFile) is the contract of a file replaced at once; the ownership file of
  hostports, the wrappers of binexec, and the configuration files and the managed link of cniconf implement it.
  \<open>reconciler\<close> (Reconcile) is the contract of a watcher's round; both firewall watchers implement it.  \<open>exclusive\<close>
  (Locks) is the contract of a lock by key; both lock packages implement it.  \<open>address_blocks\<close> (NetIP) is what
  overlap tests rely on.  \<open>codec\<close> (MetaDocs) is the contract of a decoder and the encoding it undoes; each struct of
  the metadata API implements it.  \<open>draining\<close> (Draining) is implemented by the retries of the network manager and by the
  workers of the event router.

  \<^bold>\<open>What the theorems show.\<close>  For the firewall: no front end is chosen against the evidence of Docker's live rules; a
  validated rule set cannot smuggle text into a batch; an update never enables loopback routing before its
  guard is hooked up, is recorded only when it succeeded, and is retried until it does; the marker file tells
  exactly whether both watchers succeeded last, in whatever order their rounds and repairs interleave.  For files: whatever operation fails, a configuration, a wrapper or
  the ownership record is the old or the new one and never in between, and foreign files stay untouched.  For
  containers: connections and containers are removed only when they are stale or orphaned; the manager's record of
  starts follows the container's state, its retries end, and deleting a network mirrors adding it; resolver and hosts
  files get what they should once.  For the neighbour tables: only the entries of known containers are
  written, and none that points a router to itself.  For events: no worker is lost, every event is handled
  by all of its handlers in order, and the router catches up.  For the client: requests stay on the configured
  origin, a watcher is called exactly when the version changed, and what its queries return is what the
  service published, field by field (\<open>wire\<close> puts the client in the place of an environment's metadata).  A CNI
  configuration file is read back as the object it was written from.

  \<^bold>\<open>Loops, bounds and concurrency.\<close>  Loops over data are folds over a list.  Loops that may run forever have either a
  number of rounds as an argument, the property holding for every number (\<open>retry_loop\<close>, \<open>change_rounds\<close>,
  \<open>doRouteSync\<close>), or are partial functions whose result is proved to exist under the stated condition (\<open>ms_first\<close>,
  \<open>waitForConnectionContext\<close>), or are step relations (\<open>retry_step\<close>, \<open>rt_work\<close>) with a measure that bounds their
  length.  Goroutines that share state are step relations whose steps interleave freely (\<open>kl_step\<close>, \<open>tl_step\<close>,
  \<open>nm_step\<close>, \<open>rt_step\<close>, \<open>fw_step\<close>); the granularity is a critical section of the code, or a whole handler for the events.

  \<^bold>\<open>Not modelled.\<close>  The HTTP transport, TLS and timeouts of requests, and the parsing of the base URL; the depth limit of
  \<open>encoding/json\<close> and its repair of invalid UTF-8; the libraries libcni, netlink and moby and the commands \<open>iptables\<close>, \<open>nft\<close>,
  \<open>conntrack\<close> and \<open>sysctl\<close> beyond their arguments, success and output; parsing the command line and signals; log messages
  other than the filter for their values; file permissions where the code does not look at them.  Where Go would
  panic on a nil container state or an empty list of routes the model fails with an error.  An IPv6 address keeps the
  text it was given as.  Several watchers at once share no state but the tables of the host and, for the two
  firewall watchers, the readiness tracker (\<open>FirewallSystem\<close>); the others are modelled alone.
\<close>

end
